theory Spec2Isabelle
  imports Complex_Main "HOL-Library.Word"
begin

section \<open>JavaScript values and array operations\<close>

text \<open>
  The editor is a TypeScript/React component. Its numbers are modelled as \<open>real\<close>
  (pointer coordinates, sizes, the zoom scale) or \<open>int\<close> (indices, page rotation),
  its strings as \<open>string\<close>, an optional field \<open>f?: T\<close> as \<open>T option\<close>
  (\<open>None\<close> is \<open>undefined\<close>), and a thrown exception as the \<open>Inl\<close> of a sum.
\<close>

datatype error =
    TypeError            \<comment> \<open>a property read on \<open>undefined\<close>\<close>
  | LibraryError string  \<comment> \<open>a call into pdf-lib or pdf.js threw (the name of the call)\<close>
  | UndefinedEntry       \<comment> \<open>the code stored \<open>undefined\<close> in the page sequence\<close>

type_synonym bytes = "8 word list"

text \<open>\<open>xs[i]\<close>: \<open>undefined\<close> outside the array.\<close>

definition js_index :: "'a list \<Rightarrow> int \<Rightarrow> 'a option" where
  "js_index xs i = (if 0 \<le> i \<and> i < int (length xs) then Some (xs ! nat i) else None)"

text \<open>\<open>xs.slice(0, e)\<close>: a negative end counts from the end of the array.\<close>

definition js_slice0 :: "'a list \<Rightarrow> int \<Rightarrow> 'a list" where
  "js_slice0 xs e =
     (if e < 0 then take (nat (max 0 (int (length xs) + e))) xs else take (nat e) xs)"

text \<open>The start index of \<open>splice\<close>, as the language normalises it.\<close>

definition js_start :: "'a list \<Rightarrow> int \<Rightarrow> nat" where
  "js_start xs i =
     (if i < 0 then nat (max 0 (int (length xs) + i)) else min (nat i) (length xs))"

text \<open>\<open>xs.splice(i, 1)\<close>: the removed elements and the array left.\<close>

definition js_splice1 :: "'a list \<Rightarrow> int \<Rightarrow> 'a list \<times> 'a list" where
  "js_splice1 xs i =
     (let k = js_start xs i in (take 1 (drop k xs), take k xs @ drop (Suc k) xs))"

text \<open>\<open>xs.splice(i, 0, v)\<close>: the array with \<open>v\<close> inserted.\<close>

definition js_insert :: "'a list \<Rightarrow> int \<Rightarrow> 'a \<Rightarrow> 'a list" where
  "js_insert xs i v = (let k = js_start xs i in take k xs @ v # drop k xs)"

text \<open>\<open>a % b\<close> on integers: the remainder has the sign of the dividend.\<close>

definition js_rem :: "int \<Rightarrow> int \<Rightarrow> int" where
  "js_rem a b = sgn a * (\<bar>a\<bar> mod \<bar>b\<bar>)"

text \<open>A string or \<open>null\<close> used as a condition: \<open>null\<close> and the empty string are false.\<close>

definition truthy :: "string option \<Rightarrow> bool" where
  "truthy v = (case v of None \<Rightarrow> False | Some str \<Rightarrow> str \<noteq> [])"

section \<open>The data model of the editor\<close>

datatype ToolMode =
  Select | Text | Draw | Rect | Circle | Image | Highlight | Eraser | Line | Arrow | Redact

datatype TextAlign = AlignLeft | AlignCenter | AlignRight

record PageMetadata =
  id_pm :: string
  originalIndex :: int   \<comment> \<open>-1 for blank pages\<close>
  rotation_pm :: int     \<comment> \<open>0, 90, 180, 270\<close>

record Point =
  px_pt :: real
  py_pt :: real

record EditorElement =
  id_el :: string
  pageId :: string
  type_el :: ToolMode
  x_el :: real
  y_el :: real
  width :: real
  height :: real
  content :: "string option"
  src :: "string option"
  color :: string
  fontSize :: real
  isBold :: "bool option"
  isItalic :: "bool option"
  textAlign :: "TextAlign option"
  opacity :: real
  rotation_el :: "real option"
  points :: "Point list option"
  strokeWidth :: real

datatype PageNumberFormat = FormatN | FormatPageN | FormatPageNOfTotal

datatype PageNumberPosition =
  TopLeft | TopCenter | TopRight | BottomLeft | BottomCenter | BottomRight

record PageNumberConfig =
  enabled :: bool
  format :: PageNumberFormat
  position :: PageNumberPosition
  fontSize_pn :: real
  color_pn :: string
  margin :: real

datatype DragAction = Moving | Creating | Drawing | Resizing | Rotating

text \<open>
  Page metadata objects are the only objects the editor mutates in place
  (\<open>newSequence[targetIdx].rotation = ...\<close> in \<open>organizeAction\<close>), and arrays of them are
  copied shallowly (\<open>[...pageSequence]\<close>, \<open>[...prev.sequence]\<close>). They therefore live in
  an explicit store: an address is an index into the list \<open>heap\<close>, a page sequence is a
  list of addresses, and a new object is appended to the store. Elements are never
  mutated in place (every update builds a new object), so they are kept as values.
\<close>

type_synonym addr = nat

text \<open>One history entry, \<open>{ elements, sequence }\<close>.\<close>

record Snapshot =
  elements_h :: "EditorElement list"
  sequence_h :: "addr list"

text \<open>The document proxy of the rendering library, as far as the editor reads it.\<close>

record PdfJsDocument =
  numPages :: nat
  source_bytes :: bytes

text \<open>
  The state of the \<open>PDFEditTool\<close> component (its \<open>useState\<close> cells), the page store,
  and three logs of what the user sees: alerts, console errors and downloads.
\<close>

record EditorState =
  heap :: "PageMetadata list"
  pdfDoc :: "PdfJsDocument option"
  fileBytes :: "bytes option"
  pageSequence :: "addr list"
  currentPageIndex :: int
  scale :: real
  docTitle :: string
  fileName :: "string option"
  isLoading :: bool
  isSaving :: bool
  documentText :: string
  toolMode :: ToolMode
  elements :: "EditorElement list"
  selectedId :: "string option"
  history :: "Snapshot list"
  historyIndex :: int
  isFileMenuOpen :: bool
  watermarkText :: string
  pageNumbering :: PageNumberConfig
  currentColor :: string
  currentFontSize :: real
  currentStrokeWidth :: real
  currentOpacity :: real
  isDragging :: bool
  dragStart :: "real \<times> real"
  action :: "DragAction option"
  resizeDir :: "string option"
  newElStart :: "real \<times> real"
  activePageId :: "string option"
  currentPoints :: "Point list"
  alerts :: "string list"
  consoleErrors :: "string list"
  downloads :: "(string \<times> bytes) list"

text \<open>The component as it mounts: every \<open>useState\<close> initial value.\<close>

definition initialState :: EditorState where
  "initialState =
     \<lparr> heap = [], pdfDoc = None, fileBytes = None, pageSequence = [],
       currentPageIndex = 0, scale = 1, docTitle = ''Untitled Document'', fileName = None,
       isLoading = False, isSaving = False, documentText = [], toolMode = Select,
       elements = [], selectedId = None, history = [], historyIndex = -1,
       isFileMenuOpen = False, watermarkText = [],
       pageNumbering = \<lparr> enabled = False, format = FormatPageNOfTotal,
         position = BottomCenter, fontSize_pn = 12, color_pn = ''#64748b'', margin = 20 \<rparr>,
       currentColor = ''#0ea5e9'', currentFontSize = 16, currentStrokeWidth = 2,
       currentOpacity = 1, isDragging = False, dragStart = (0, 0), action = None,
       resizeDir = None, newElStart = (0, 0), activePageId = None, currentPoints = [],
       alerts = [], consoleErrors = [], downloads = [] \<rparr>"

text \<open>The page objects a sequence of addresses points at.\<close>

definition pagesOf :: "PageMetadata list \<Rightarrow> addr list \<Rightarrow> PageMetadata list" where
  "pagesOf h sq = map (\<lambda>a. h ! a) sq"

section \<open>The edit history\<close>

text \<open>
  \<open>newElements.map(el => ({ ...el, points: el.points ? [...el.points] : undefined }))\<close>:
  a new element object with a new points array.
\<close>

definition cloneElement :: "EditorElement \<Rightarrow> EditorElement" where
  "cloneElement el =
     el\<lparr> points := (case points el of None \<Rightarrow> None | Some ps \<Rightarrow> Some (map (\<lambda>p. p) ps)) \<rparr>"

text \<open>
  \<open>newSequence.map(p => ({ ...p }))\<close>: one new page object for each entry, appended to
  the store; the result is the new store and the addresses of the copies.
\<close>

definition clonePages :: "PageMetadata list \<Rightarrow> addr list \<Rightarrow> PageMetadata list \<times> addr list" where
  "clonePages h sq = (h @ pagesOf h sq, [length h ..< length h + length sq])"

text \<open>
  \<open>saveToHistory(newElements, newSequence)\<close>. The callback reads \<open>history\<close> and
  \<open>historyIndex\<close> of the render it was created in.
\<close>

definition saveToHistory :: "EditorElement list \<Rightarrow> addr list \<Rightarrow> EditorState \<Rightarrow> EditorState" where
  "saveToHistory newElements newSequence s =
     (let clonedElements = map cloneElement newElements;
          (h', clonedSequence) = clonePages (heap s) newSequence;
          pushed = js_slice0 (history s) (historyIndex s + 1)
                     @ [\<lparr> elements_h = clonedElements, sequence_h = clonedSequence \<rparr>];
          newHistory = (if length pushed > 30 then tl pushed else pushed)
      in s\<lparr> heap := h', history := newHistory,
             historyIndex := int (length newHistory) - 1 \<rparr>)"

text \<open>
  \<open>undo\<close> and \<open>redo\<close>. \<open>[...prev.elements]\<close> and \<open>[...prev.sequence]\<close> are new arrays of
  the same objects: the page sequence now shares its page objects with the history entry.
\<close>

definition undo :: "EditorState \<Rightarrow> error + EditorState" where
  "undo s =
     (if historyIndex s > 0 then
        (case js_index (history s) (historyIndex s - 1) of
           None \<Rightarrow> Inl TypeError
         | Some prev \<Rightarrow>
             Inr (s\<lparr> elements := elements_h prev, pageSequence := sequence_h prev,
                      historyIndex := historyIndex s - 1, selectedId := None \<rparr>))
      else Inr s)"

definition redo :: "EditorState \<Rightarrow> error + EditorState" where
  "redo s =
     (if historyIndex s < int (length (history s)) - 1 then
        (case js_index (history s) (historyIndex s + 1) of
           None \<Rightarrow> Inl TypeError
         | Some nxt \<Rightarrow>
             Inr (s\<lparr> elements := elements_h nxt, pageSequence := sequence_h nxt,
                      historyIndex := historyIndex s + 1, selectedId := None \<rparr>))
      else Inr s)"

text \<open>The toolbar buttons: \<open>disabled={historyIndex <= 0}\<close> and
  \<open>disabled={historyIndex >= history.length - 1}\<close>.\<close>

definition undoDisabled :: "EditorState \<Rightarrow> bool" where
  "undoDisabled s = (historyIndex s \<le> 0)"

definition redoDisabled :: "EditorState \<Rightarrow> bool" where
  "redoDisabled s = (historyIndex s \<ge> int (length (history s)) - 1)"

section \<open>The page organizer\<close>

datatype OrganizeType = Rotate | Move | Delete | Duplicate | Blank

text \<open>
  The tail of \<open>organizeAction\<close>: \<open>setPageSequence(newSequence); setElements(newElements);
  saveToHistory(newElements, newSequence)\<close>.
\<close>

definition commitOrganize :: "addr list \<Rightarrow> EditorElement list \<Rightarrow> EditorState \<Rightarrow> EditorState" where
  "commitOrganize newSequence newElements s =
     saveToHistory newElements newSequence
       (s\<lparr> pageSequence := newSequence, elements := newElements \<rparr>)"

text \<open>
  \<open>organizeAction(type, param, specificIndex)\<close>. The identifiers the source draws from
  \<open>Math.random()\<close> and \<open>Date.now()\<close> are arguments: \<open>newId\<close> for the new page of
  \<open>duplicate\<close> and \<open>blank\<close>, \<open>cloneIds k\<close> for the \<open>k\<close>-th copied element.
  \<open>pageSequence[targetIdx].id\<close> throws before anything is changed when the index
  is outside the sequence; \<open>rotate\<close> assigns to the page object itself.
\<close>

definition organizeAction ::
  "OrganizeType \<Rightarrow> string option \<Rightarrow> int option \<Rightarrow> string \<Rightarrow> (nat \<Rightarrow> string)
     \<Rightarrow> EditorState \<Rightarrow> error + EditorState" where
  "organizeAction ty param specificIndex newId cloneIds s =
     (let targetIdx = (case specificIndex of Some i \<Rightarrow> i | None \<Rightarrow> currentPageIndex s)
      in case js_index (pageSequence s) targetIdx of
           None \<Rightarrow> Inl TypeError
         | Some a \<Rightarrow>
            (let pid = id_pm (heap s ! a) in
             case ty of
               Rotate \<Rightarrow>
                 (let r = js_rem (rotation_pm (heap s ! a)
                            + (if param = Some ''cw'' then 90 else - 90) + 360) 360
                  in Inr (commitOrganize (pageSequence s) (elements s)
                       (s\<lparr> heap := (heap s)[a := (heap s ! a)\<lparr> rotation_pm := r \<rparr>] \<rparr>)))
             | Move \<Rightarrow>
                 (let moveTarget = (if param = Some ''up'' then targetIdx - 1 else targetIdx + 1)
                  in if moveTarget \<ge> 0 \<and> moveTarget < int (length (pageSequence s)) then
                       Inr (commitOrganize
                         ((pageSequence s)[nat targetIdx := pageSequence s ! nat moveTarget,
                            nat moveTarget := pageSequence s ! nat targetIdx])
                         (elements s) (s\<lparr> currentPageIndex := moveTarget \<rparr>))
                     else Inr (commitOrganize (pageSequence s) (elements s) s))
             | Delete \<Rightarrow>
                 (if length (pageSequence s) > 1 then
                    Inr (commitOrganize (snd (js_splice1 (pageSequence s) targetIdx))
                      (filter (\<lambda>el. pageId el \<noteq> pid) (elements s))
                      (s\<lparr> currentPageIndex := max 0 (targetIdx - 1) \<rparr>))
                  else Inr (s\<lparr> alerts := alerts s @ [''Document must have at least one page.''] \<rparr>))
             | Duplicate \<Rightarrow>
                 (let originalPage = heap s ! a;
                      a' = length (heap s);
                      currentElements = filter (\<lambda>el. pageId el = id_pm originalPage) (elements s);
                      clonedElements = map (\<lambda>(k, el). el\<lparr> id_el := cloneIds k, pageId := newId \<rparr>)
                                         (zip [0 ..< length currentElements] currentElements)
                  in Inr (commitOrganize (js_insert (pageSequence s) (targetIdx + 1) a')
                       (elements s @ clonedElements)
                       (s\<lparr> heap := heap s @ [originalPage\<lparr> id_pm := newId \<rparr>],
                          currentPageIndex := targetIdx + 1 \<rparr>)))
             | Blank \<Rightarrow>
                 (let a' = length (heap s)
                  in Inr (commitOrganize (js_insert (pageSequence s) (targetIdx + 1) a')
                       (elements s)
                       (s\<lparr> heap := heap s @ [\<lparr> id_pm = newId, originalIndex = - 1, rotation_pm = 0 \<rparr>],
                          currentPageIndex := targetIdx + 1 \<rparr>)))))"

text \<open>
  \<open>handlePageDrop(e, targetIndex)\<close>; \<open>sourceIndex\<close> is what \<open>parseInt\<close> made of the
  drag data (\<open>None\<close> is \<open>NaN\<close>). When \<open>splice\<close> removes nothing the source goes on with
  \<open>undefined\<close> as the moved page; a sequence of addresses cannot hold it, and the model
  reports \<open>UndefinedEntry\<close>.
\<close>

definition handlePageDrop :: "int option \<Rightarrow> int \<Rightarrow> EditorState \<Rightarrow> error + EditorState" where
  "handlePageDrop sourceIndex targetIndex s =
     (case sourceIndex of
        None \<Rightarrow> Inr s
      | Some si \<Rightarrow>
          if si = targetIndex then Inr s
          else (case js_splice1 (pageSequence s) si of
                  ([], rest) \<Rightarrow> Inl UndefinedEntry
                | (movedPage # _, rest) \<Rightarrow>
                    (let newSequence = js_insert rest targetIndex movedPage
                     in Inr ((saveToHistory (elements s) newSequence
                               (s\<lparr> pageSequence := newSequence \<rparr>))
                             \<lparr> currentPageIndex := targetIndex \<rparr>))))"

text \<open>The \<open>New Document\<close> entry of the file menu.\<close>

definition newDocument :: "string \<Rightarrow> EditorState \<Rightarrow> EditorState" where
  "newDocument newId s =
     s\<lparr> heap := heap s @ [\<lparr> id_pm = newId, originalIndex = - 1, rotation_pm = 0 \<rparr>],
        pdfDoc := None, pageSequence := [length (heap s)], isFileMenuOpen := False \<rparr>"


section \<open>The PDF libraries\<close>

text \<open>
  The editor builds its output through pdf-lib and reads documents through pdf.js.
  Neither library is part of the repository, so what their calls return is a parameter
  of the model: a record of outcomes, where a call that throws is \<open>False\<close> or \<open>None\<close>.
  The calls that only read or append (\<open>addPage\<close>, \<open>setRotation\<close>, \<open>getWidth\<close>,
  \<open>getHeight\<close>) are taken to return.
\<close>

datatype StandardFont = Helvetica | HelveticaBold | HelveticaOblique | HelveticaBoldOblique

datatype Color = Rgb real real real

text \<open>
  The drawing calls of a page, with their option objects in this order:
  \<open>drawText(text, {x, y, size, color, font, opacity, rotate})\<close>,
  \<open>drawRectangle({x, y, width, height, borderColor, borderWidth, color, opacity, rotate})\<close>,
  \<open>drawEllipse({x, y, xScale, yScale, borderColor, borderWidth, opacity, rotate})\<close>,
  \<open>drawLine({start, end, color, thickness, opacity})\<close> and
  \<open>drawImage(img, {x, y, width, height, opacity, rotate})\<close> for the image embedded from a
  data URL. An option that the call leaves out is \<open>None\<close>; angles are in degrees.
\<close>

datatype DrawOp =
    DrawText string real real real Color StandardFont "real option" "real option"
  | DrawRectangle real real real real "Color option" "real option" "Color option" "real option" real
  | DrawEllipse real real real real Color real real real
  | DrawLine real real real real Color real real
  | DrawImage string real real real real "real option" "real option"

text \<open>
  A page of the output document: made by \<open>addPage([w, h])\<close> or copied from page \<open>i\<close>
  of the document parsed from some bytes, its size as \<open>getWidth\<close> and \<open>getHeight\<close>
  report it, the angle given to \<open>setRotation\<close>, and the drawing calls made on it.
\<close>

datatype PageOrigin = NewPage real real | CopiedPage bytes int

record OutPage =
  origin :: PageOrigin
  pageW :: real
  pageH :: real
  rotationSet :: "int option"
  ops :: "DrawOp list"

text \<open>A document parsed by \<open>PDFDocument.load\<close>: its page count and page sizes.\<close>

record SourceDoc =
  pageCount :: nat
  pageWidth :: "int \<Rightarrow> real"
  pageHeight :: "int \<Rightarrow> real"

record PdfLib =
  load :: "bytes \<Rightarrow> SourceDoc option"
  createOk :: bool
  embedFontOk :: "StandardFont \<Rightarrow> bool"
  widthOfTextAtSize :: "StandardFont \<Rightarrow> string \<Rightarrow> real \<Rightarrow> real"
  copyPagesOk :: "bytes \<Rightarrow> int list \<Rightarrow> bool"
  embedPngOk :: "string \<Rightarrow> bool"
  embedJpgOk :: "string \<Rightarrow> bool"
  imageSize :: "string \<Rightarrow> real \<times> real"
  drawOk :: "DrawOp \<Rightarrow> bool"
  save :: "OutPage list \<Rightarrow> bytes option"

text \<open>
  pdf.js and the canvas: \<open>getDocument\<close>, the text items of a page (\<open>None\<close> when
  \<open>getPage\<close> or \<open>getTextContent\<close> throws), the viewport of a page at a scale (\<open>None\<close>
  when \<open>getPage\<close> throws), whether a 2d context is available, whether rendering a page
  completes, and the JPEG data URL of the rendered canvas at a scale and quality.
\<close>

record PdfJs =
  getDocument :: "bytes \<Rightarrow> PdfJsDocument option"
  pageTextItems :: "PdfJsDocument \<Rightarrow> nat \<Rightarrow> string list option"
  pageViewport :: "PdfJsDocument \<Rightarrow> nat \<Rightarrow> real \<Rightarrow> (real \<times> real) option"
  canvasContextOk :: bool
  renderOk :: "PdfJsDocument \<Rightarrow> nat \<Rightarrow> bool"
  toDataURL :: "PdfJsDocument \<Rightarrow> nat \<Rightarrow> real \<Rightarrow> real \<Rightarrow> string"

text \<open>Sequencing of calls that may throw: the first exception ends the \<open>try\<close> block.\<close>

definition bindE :: "error + 'a \<Rightarrow> ('a \<Rightarrow> error + 'b) \<Rightarrow> error + 'b" where
  "bindE m f = (case m of Inl e \<Rightarrow> Inl e | Inr v \<Rightarrow> f v)"

text \<open>A loop whose body appends to a list and may throw.\<close>

primrec concatMapE :: "('a \<Rightarrow> error + 'b list) \<Rightarrow> 'a list \<Rightarrow> error + 'b list" where
  "concatMapE f [] = Inr []"
| "concatMapE f (v # vs) = bindE (f v) (\<lambda>r. bindE (concatMapE f vs) (\<lambda>rs. Inr (r @ rs)))"

text \<open>\<open>for (let i = ...; i < n; i++)\<close> over the entries of an array, the body given the index.\<close>

primrec forIndexE :: "(nat \<Rightarrow> 'a \<Rightarrow> error + 'b) \<Rightarrow> nat \<Rightarrow> 'a list \<Rightarrow> error + 'b list" where
  "forIndexE f i [] = Inr []"
| "forIndexE f i (v # vs) = bindE (f i v) (\<lambda>r. bindE (forIndexE f (Suc i) vs) (\<lambda>rs. Inr (r # rs)))"

text \<open>A library call that returns nothing the model needs.\<close>

definition call :: "bool \<Rightarrow> string \<Rightarrow> error + unit" where
  "call ok name = (if ok then Inr () else Inl (LibraryError name))"

section \<open>Strings, colours and numbers for the export\<close>

text \<open>\<open>str.includes(sub)\<close>.\<close>

primrec js_includes :: "string \<Rightarrow> string \<Rightarrow> bool" where
  "js_includes [] sub = (sub = [])"
| "js_includes (c # cs) sub = (take (length sub) (c # cs) = sub \<or> js_includes cs sub)"

text \<open>\<open>xs.join(sep)\<close>.\<close>

fun js_join :: "string \<Rightarrow> string list \<Rightarrow> string" where
  "js_join sep [] = []"
| "js_join sep [v] = v"
| "js_join sep (v # w # vs) = v @ sep @ js_join sep (w # vs)"

text \<open>The decimal digits of a natural number, as a template literal prints it.\<close>

fun showNat :: "nat \<Rightarrow> string" where
  "showNat n = (if n < 10 then [char_of (48 + n)] else showNat (n div 10) @ [char_of (48 + n mod 10)])"

text \<open>
  \<open>hexToRgb\<close>: the pattern \<open>/^#?([a-f\d]{2})([a-f\d]{2})([a-f\d]{2})$/i\<close> and
  \<open>parseInt(.., 16) / 255\<close> for each pair; black when the pattern does not match.
\<close>

definition hexDigit :: "char \<Rightarrow> nat option" where
  "hexDigit c =
     (let n = (of_char c :: nat) in
      if 48 \<le> n \<and> n \<le> 57 then Some (n - 48)
      else if 97 \<le> n \<and> n \<le> 102 then Some (n - 87)
      else if 65 \<le> n \<and> n \<le> 70 then Some (n - 55)
      else None)"

definition hexToRgb :: "string \<Rightarrow> Color" where
  "hexToRgb hex =
     (let body = (case hex of c # cs \<Rightarrow> if c = CHR ''#'' then cs else hex | [] \<Rightarrow> hex)
      in case map hexDigit body of
           [Some a, Some b, Some c, Some d, Some e, Some f] \<Rightarrow>
             Rgb (real (16 * a + b) / 255) (real (16 * c + d) / 255) (real (16 * e + f) / 255)
         | _ \<Rightarrow> Rgb 0 0 0)"

declare showNat.simps [simp del]

section \<open>Export: \<open>handleDownload\<close> and \<open>flattenPDF\<close>\<close>

definition blankPage :: OutPage where
  "blankPage = \<lparr> origin = NewPage 612 792, pageW = 612, pageH = 792, rotationSet = None, ops = [] \<rparr>"

definition copiedPage :: "bytes \<Rightarrow> SourceDoc \<Rightarrow> int \<Rightarrow> int \<Rightarrow> OutPage" where
  "copiedPage b sd i angle =
     \<lparr> origin = CopiedPage b i, pageW = pageWidth sd i, pageH = pageHeight sd i,
       rotationSet = Some angle, ops = [] \<rparr>"

text \<open>
  The page \<open>handleDownload\<close> adds for one entry of the sequence. \<open>sourceDoc\<close> is the
  loaded source with the bytes it was parsed from, or \<open>None\<close> for \<open>null\<close>. The inner
  \<open>try\<close> replaces a copy that throws by a blank page.
\<close>

definition downloadNewPage :: "PdfLib \<Rightarrow> (bytes \<times> SourceDoc) option \<Rightarrow> PageMetadata \<Rightarrow> OutPage" where
  "downloadNewPage lib sourceDoc meta =
     (if originalIndex meta = - 1 then blankPage
      else
        let targetIndex = originalIndex meta - 1 in
        case sourceDoc of
          None \<Rightarrow> blankPage
        | Some (b, sd) \<Rightarrow>
            if targetIndex \<ge> 0 \<and> targetIndex < int (pageCount sd) then
              (if copyPagesOk lib b [targetIndex]
               then copiedPage b sd targetIndex (rotation_pm meta)
               else blankPage)
            else blankPage)"

text \<open>The same in \<open>flattenPDF\<close>, whose condition has no lower bound on the index.\<close>

definition flattenNewPage :: "PdfLib \<Rightarrow> (bytes \<times> SourceDoc) option \<Rightarrow> PageMetadata \<Rightarrow> OutPage" where
  "flattenNewPage lib sourceDoc meta =
     (if originalIndex meta = - 1 then blankPage
      else
        case sourceDoc of
          None \<Rightarrow> blankPage
        | Some (b, sd) \<Rightarrow>
            if originalIndex meta - 1 < int (pageCount sd) then
              (if copyPagesOk lib b [originalIndex meta - 1]
               then copiedPage b sd (originalIndex meta - 1) (rotation_pm meta)
               else blankPage)
            else blankPage)"

text \<open>\<open>position.includes('top')\<close>, \<open>'center'\<close>, \<open>'right'\<close> on the six position names.\<close>

definition positionName :: "PageNumberPosition \<Rightarrow> string" where
  "positionName p =
     (case p of TopLeft \<Rightarrow> ''top-left'' | TopCenter \<Rightarrow> ''top-center'' | TopRight \<Rightarrow> ''top-right''
      | BottomLeft \<Rightarrow> ''bottom-left'' | BottomCenter \<Rightarrow> ''bottom-center''
      | BottomRight \<Rightarrow> ''bottom-right'')"

definition pageNumberText :: "PageNumberConfig \<Rightarrow> nat \<Rightarrow> nat \<Rightarrow> string" where
  "pageNumberText cfg i totalPages =
     (let n = i + 1 in
      if format cfg = FormatPageN then ''Page '' @ showNat n
      else if format cfg = FormatPageNOfTotal then ''Page '' @ showNat n @ '' of '' @ showNat totalPages
      else showNat n)"

definition pageNumberOp :: "PdfLib \<Rightarrow> PageNumberConfig \<Rightarrow> nat \<Rightarrow> nat \<Rightarrow> real \<Rightarrow> real \<Rightarrow> DrawOp" where
  "pageNumberOp lib cfg i totalPages w h =
     (let txt = pageNumberText cfg i totalPages;
          fs = fontSize_pn cfg;
          textWidth = widthOfTextAtSize lib Helvetica txt fs;
          m = margin cfg;
          ty = (if js_includes (positionName (position cfg)) ''top'' then h - m - fs else m);
          tx = (if js_includes (positionName (position cfg)) ''center'' then (w - textWidth) / 2
                else if js_includes (positionName (position cfg)) ''right'' then w - m - textWidth
                else m)
      in DrawText txt tx ty fs (hexToRgb (color_pn cfg)) Helvetica None None)"

definition watermarkOp :: "string \<Rightarrow> real \<Rightarrow> DrawOp" where
  "watermarkOp wm h =
     DrawText wm 50 (h / 2) 60 (Rgb (8 / 10) (8 / 10) (8 / 10)) HelveticaBold (Some (25 / 100)) (Some 45)"

text \<open>\<open>getRotatedXY\<close>, with the rotation angle and the centre it closes over.\<close>

definition getRotatedXY :: "real \<Rightarrow> real \<Rightarrow> real \<Rightarrow> real \<Rightarrow> real \<Rightarrow> real \<times> real" where
  "getRotatedXY rotVal cx cy origX origY =
     (let angleRad = (rotVal * pi) / 180;
          c = cos angleRad; sn = sin angleRad;
          dx = origX - cx; dy = origY - cy
      in (cx + (dx * c - dy * sn), cy + (dx * sn + dy * c)))"

text \<open>A drawing call: the call made, or the exception.\<close>

definition draw :: "PdfLib \<Rightarrow> DrawOp \<Rightarrow> error + DrawOp list" where
  "draw lib d = (if drawOk lib d then Inr [d] else Inl (LibraryError ''draw''))"

text \<open>
  The body of the loop over the elements of a page (the same text in both export
  functions): \<open>scale\<close> is the zoom, \<open>h\<close> the page height. A redact element is skipped
  here (\<open>continue\<close>). The image branch has its own \<open>try\<close> with an empty handler, so an
  embed or a draw that throws there leaves nothing drawn and no trace.
\<close>

definition replayElement :: "PdfLib \<Rightarrow> real \<Rightarrow> real \<Rightarrow> EditorElement \<Rightarrow> error + DrawOp list" where
  "replayElement lib sc h el =
     (if type_el el = Redact then Inr []
      else
        let px = x_el el / sc; py = h - (y_el el / sc);
            pw = width el / sc; ph = height el / sc;
            rotVal = - (case rotation_el el of None \<Rightarrow> 0 | Some r \<Rightarrow> r);
            cx = px + pw / 2; cy = py - ph / 2
        in
        if type_el el = Text then
          (let selectedFont =
                 (if isBold el = Some True \<and> isItalic el = Some True then HelveticaBoldOblique
                  else if isBold el = Some True then HelveticaBold
                  else if isItalic el = Some True then HelveticaOblique
                  else Helvetica);
               pos = getRotatedXY rotVal cx cy px (py - (fontSize el / sc))
           in draw lib (DrawText (if truthy (content el) then the (content el) else '' '')
                 (fst pos) (snd pos) (fontSize el / sc) (hexToRgb (color el)) selectedFont
                 (Some (opacity el)) (Some rotVal)))
        else if type_el el = Rect then
          (let pos = getRotatedXY rotVal cx cy px (py - ph)
           in draw lib (DrawRectangle (fst pos) (snd pos) pw ph (Some (hexToRgb (color el)))
                 (Some (strokeWidth el / sc)) None (Some (opacity el)) rotVal))
        else if type_el el = Circle then
          draw lib (DrawEllipse cx cy (pw / 2) (ph / 2) (hexToRgb (color el))
                 (strokeWidth el / sc) (opacity el) rotVal)
        else if type_el el = Line \<or> type_el el = Arrow then
          (let start = getRotatedXY rotVal cx cy px py;
               fin = getRotatedXY rotVal cx cy (px + pw) (py - ph)
           in draw lib (DrawLine (fst start) (snd start) (fst fin) (snd fin)
                 (hexToRgb (color el)) (strokeWidth el / sc) (opacity el)))
        else if type_el el = Image \<and> truthy (src el) then
          (let data = the (src el);
               embedded = (if js_includes data ''png'' then embedPngOk lib data
                           else embedJpgOk lib data);
               pos = getRotatedXY rotVal cx cy px (py - ph);
               d = DrawImage data (fst pos) (snd pos) pw ph (Some (opacity el)) (Some rotVal)
           in if embedded \<and> drawOk lib d then Inr [d] else Inr [])
        else Inr [])"

text \<open>The body of the second loop, over the redact elements of the page.\<close>

definition redactElement :: "PdfLib \<Rightarrow> real \<Rightarrow> real \<Rightarrow> EditorElement \<Rightarrow> error + DrawOp list" where
  "redactElement lib sc h el =
     (let px = x_el el / sc; py = h - (y_el el / sc);
          pw = width el / sc; ph = height el / sc;
          rotVal = - (case rotation_el el of None \<Rightarrow> 0 | Some r \<Rightarrow> r);
          cx = px + pw / 2; cy = py - ph / 2;
          angleRad = (rotVal * pi) / 180;
          c = cos angleRad; sn = sin angleRad;
          dx = px - cx; dy = (py - ph) - cy;
          rx = cx + (dx * c - dy * sn); ry = cy + (dx * sn + dy * c)
      in draw lib (DrawRectangle rx ry pw ph None None (Some (Rgb 0 0 0)) None rotVal))"

text \<open>
  Everything drawn on the page of entry \<open>i\<close> after the page is made: the page number,
  the watermark, the elements of the page, its redactions.
\<close>

definition drawOverlays :: "PdfLib \<Rightarrow> EditorState \<Rightarrow> nat \<Rightarrow> PageMetadata \<Rightarrow> OutPage \<Rightarrow> error + OutPage" where
  "drawOverlays lib s i meta page =
     (let h = pageH page; w = pageW page;
          pageElements = filter (\<lambda>el. pageId el = id_pm meta) (elements s)
      in
      bindE (if enabled (pageNumbering s)
             then draw lib (pageNumberOp lib (pageNumbering s) i (length (pageSequence s)) w h)
             else Inr []) (\<lambda>o1.
      bindE (if watermarkText s \<noteq> [] then draw lib (watermarkOp (watermarkText s) h) else Inr []) (\<lambda>o2.
      bindE (concatMapE (replayElement lib (scale s) h) pageElements) (\<lambda>o3.
      bindE (concatMapE (redactElement lib (scale s) h)
               (filter (\<lambda>e. type_el e = Redact) pageElements)) (\<lambda>o4.
      Inr (page\<lparr> ops := ops page @ o1 @ o2 @ o3 @ o4 \<rparr>))))))"

text \<open>
  The \<open>try\<close> block of both functions up to \<open>outputDoc.save()\<close>: load the source when there
  are file bytes, create the output, embed the four fonts, one page per entry, save.
  \<open>newPage\<close> is the page construction of the caller.
\<close>

definition loadSource :: "PdfLib \<Rightarrow> bytes option \<Rightarrow> error + (bytes \<times> SourceDoc) option" where
  "loadSource lib fb =
     (case fb of
        None \<Rightarrow> Inr None
      | Some b \<Rightarrow> (case load lib b of None \<Rightarrow> Inl (LibraryError ''load'')
                                     | Some sd \<Rightarrow> Inr (Some (b, sd))))"

definition buildOutput ::
  "(PdfLib \<Rightarrow> (bytes \<times> SourceDoc) option \<Rightarrow> PageMetadata \<Rightarrow> OutPage) \<Rightarrow> PdfLib \<Rightarrow> EditorState
     \<Rightarrow> error + bytes" where
  "buildOutput newPage lib s =
     bindE (loadSource lib (fileBytes s)) (\<lambda>sourceDoc.
     bindE (call (createOk lib) ''create'') (\<lambda>_.
     bindE (call (embedFontOk lib Helvetica) ''embedFont'') (\<lambda>_.
     bindE (call (embedFontOk lib HelveticaBold) ''embedFont'') (\<lambda>_.
     bindE (call (embedFontOk lib HelveticaOblique) ''embedFont'') (\<lambda>_.
     bindE (call (embedFontOk lib HelveticaBoldOblique) ''embedFont'') (\<lambda>_.
     bindE (forIndexE (\<lambda>i meta. drawOverlays lib s i meta (newPage lib sourceDoc meta)) 0
              (pagesOf (heap s) (pageSequence s))) (\<lambda>doc.
     (case save lib doc of None \<Rightarrow> Inl (LibraryError ''save'') | Some bs \<Rightarrow> Inr bs))))))))"

definition handleDownload :: "PdfLib \<Rightarrow> EditorState \<Rightarrow> EditorState" where
  "handleDownload lib s =
     (if pageSequence s = [] then s
      else case buildOutput downloadNewPage lib s of
             Inr bs \<Rightarrow>
               s\<lparr> isSaving := False,
                  downloads := downloads s
                    @ [((if docTitle s = [] then ''document'' else docTitle s) @ ''.pdf'', bs)] \<rparr>
           | Inl e \<Rightarrow>
               s\<lparr> isSaving := False,
                  consoleErrors := consoleErrors s @ [''PDF Gen Error:''],
                  alerts := alerts s @ [''Error generating PDF.''] \<rparr>)"

text \<open>
  \<open>flattenPDF\<close>: the saved bytes become the file bytes, are loaded again, and the pages
  are renumbered; the elements are dropped and the result goes into the history. The
  success message is an alert as well.
\<close>

definition flattenFailed :: "EditorState \<Rightarrow> EditorState" where
  "flattenFailed s =
     s\<lparr> isSaving := False,
        consoleErrors := consoleErrors s @ [''PDF Flatten Error:''],
        alerts := alerts s @ [''Error flattening PDF.''] \<rparr>"

definition flattenPDF :: "PdfLib \<Rightarrow> PdfJs \<Rightarrow> EditorState \<Rightarrow> EditorState" where
  "flattenPDF lib js s =
     (if pageSequence s = [] then s
      else case buildOutput flattenNewPage lib s of
             Inl e \<Rightarrow> flattenFailed s
           | Inr bs \<Rightarrow>
               (case getDocument js bs of
                  None \<Rightarrow> flattenFailed (s\<lparr> fileBytes := Some bs \<rparr>)
                | Some loadedPdf \<Rightarrow>
                    (let n = length (pageSequence s);
                         normalized = map (\<lambda>(idx, p). p\<lparr> originalIndex := int idx + 1, rotation_pm := 0 \<rparr>)
                                        (zip [0 ..< n] (pagesOf (heap s) (pageSequence s)));
                         normalizedSequence = [length (heap s) ..< length (heap s) + n];
                         s1 = saveToHistory [] normalizedSequence
                                (s\<lparr> heap := heap s @ normalized, fileBytes := Some bs,
                                   pdfDoc := Some loadedPdf, pageSequence := normalizedSequence,
                                   elements := [] \<rparr>)
                     in s1\<lparr> isSaving := False,
                            alerts := alerts s1 @ [''PDF successfully flattened. All annotations and page numbers are now part of the base document.''] \<rparr>)))"

section \<open>Opening a file\<close>

text \<open>The chosen file: its name and the bytes \<open>file.arrayBuffer()\<close> resolves to.\<close>

record UploadedFile =
  name_f :: string
  data_f :: bytes

text \<open>
  \<open>name.replace(/\.[^/.]+$/, "")\<close>: drops a last extension, that is a final dot followed
  by at least one character other than a dot or a slash.
\<close>

definition stripExtension :: "string \<Rightarrow> string" where
  "stripExtension nm =
     (let ext = rev (takeWhile (\<lambda>c. c \<noteq> CHR ''.'') (rev nm)) in
      if length ext < length nm \<and> ext \<noteq> [] \<and> CHR ''/'' \<notin> set ext
      then take (length nm - length ext - 1) nm
      else nm)"

text \<open>The loop that reads the text of the first ten pages.\<close>

definition extractText :: "PdfJs \<Rightarrow> PdfJsDocument \<Rightarrow> error + string" where
  "extractText js loadedPdf =
     concatMapE (\<lambda>i. case pageTextItems js loadedPdf i of
                        None \<Rightarrow> Inl (LibraryError ''getPage'')
                      | Some items \<Rightarrow> Inr (js_join '' '' items @ [CHR 0x0A]))
       [1 ..< Suc (min (numPages loadedPdf) 10)]"

text \<open>
  \<open>handleFileUpload\<close> of the editor. \<open>ids i\<close> is the random id of page \<open>i\<close>. The function
  calls \<open>setHistory([])\<close> and \<open>setHistoryIndex(-1)\<close> and then \<open>saveToHistory\<close>, whose
  closure still holds the history of the render the handler started in and sets both
  again: the two resets are overwritten.
\<close>

definition uploadDone :: "EditorState \<Rightarrow> EditorState" where
  "uploadDone s = s\<lparr> isLoading := False, isFileMenuOpen := False \<rparr>"

definition handleFileUpload ::
  "PdfJs \<Rightarrow> UploadedFile option \<Rightarrow> (nat \<Rightarrow> string) \<Rightarrow> EditorState \<Rightarrow> EditorState" where
  "handleFileUpload js file ids s =
     (case file of
        None \<Rightarrow> s
      | Some f \<Rightarrow>
          (let s1 = s\<lparr> isLoading := True, fileName := Some (name_f f),
                       docTitle := stripExtension (name_f f), fileBytes := Some (data_f f) \<rparr>
           in case getDocument js (data_f f) of
                None \<Rightarrow> uploadDone (s1\<lparr> alerts := alerts s1 @ [''Error loading PDF''] \<rparr>)
              | Some loadedPdf \<Rightarrow>
                  (let n = numPages loadedPdf;
                       initialPages = map (\<lambda>i. \<lparr> id_pm = ids i, originalIndex = int i + 1, rotation_pm = 0 \<rparr>)
                                        [0 ..< n];
                       initialSequence = [length (heap s) ..< length (heap s) + n];
                       s2 = saveToHistory [] initialSequence
                              (s1\<lparr> heap := heap s @ initialPages, pdfDoc := Some loadedPdf,
                                  pageSequence := initialSequence, currentPageIndex := 0,
                                  elements := [] \<rparr>)
                   in case extractText js loadedPdf of
                        Inl e \<Rightarrow> uploadDone (s2\<lparr> alerts := alerts s2 @ [''Error loading PDF''] \<rparr>)
                      | Inr txt \<Rightarrow> uploadDone (s2\<lparr> documentText := txt \<rparr>))))"

section \<open>Pointer interactions\<close>

text \<open>
  What the handlers read of a mouse event: the pointer position, the shift key, and the
  left and top of the bounding rectangle of the page container of \<open>activePageId\<close>
  (\<open>None\<close> when there is no such element).
\<close>

record MouseEvent =
  clientX :: real
  clientY :: real
  shiftKey :: bool
  pageRect :: "(real \<times> real) option"

text \<open>\<open>Math.round\<close>, \<open>Math.atan2\<close>, and \<open>Math.min(...xs)\<close>, \<open>Math.max(...xs)\<close> of a non-empty array.\<close>

definition js_round :: "real \<Rightarrow> int" where
  "js_round v = \<lfloor>v + 1 / 2\<rfloor>"

definition js_atan2 :: "real \<Rightarrow> real \<Rightarrow> real" where
  "js_atan2 b a =
     (if a > 0 then arctan (b / a)
      else if a < 0 \<and> b \<ge> 0 then arctan (b / a) + pi
      else if a < 0 \<and> b < 0 then arctan (b / a) - pi
      else if b > 0 then pi / 2
      else if b < 0 then - (pi / 2)
      else 0)"

definition js_min :: "real list \<Rightarrow> real" where
  "js_min xs = foldl min (hd xs) (tl xs)"

definition js_max :: "real list \<Rightarrow> real" where
  "js_max xs = foldl max (hd xs) (tl xs)"

text \<open>The callback mapped over the elements while resizing, for the selected item.\<close>

definition resizeItem :: "string \<Rightarrow> real \<Rightarrow> real \<Rightarrow> EditorElement \<Rightarrow> EditorElement" where
  "resizeItem dir dx dy item =
     (let w1 = (if js_includes dir ''e'' then width item + dx else width item);
          h1 = (if js_includes dir ''s'' then height item + dy else height item);
          ex = (if js_includes dir ''w'' then x_el item + dx else x_el item);
          w2 = (if js_includes dir ''w'' then w1 - dx else w1);
          ey = (if js_includes dir ''n'' then y_el item + dy else y_el item);
          h2 = (if js_includes dir ''n'' then h1 - dy else h1)
      in item\<lparr> x_el := ex, y_el := ey, width := max 10 w2, height := max 10 h2 \<rparr>)"

text \<open>\<open>updateSelectedElement({ rotation })\<close>.\<close>

definition updateSelectedRotation :: "real \<Rightarrow> EditorState \<Rightarrow> EditorState" where
  "updateSelectedRotation r s =
     (if \<not> truthy (selectedId s) then s
      else s\<lparr> elements := map (\<lambda>el. if Some (id_el el) = selectedId s
                                      then el\<lparr> rotation_el := Some r \<rparr> else el) (elements s) \<rparr>)"

definition handleMouseMove :: "MouseEvent \<Rightarrow> EditorState \<Rightarrow> EditorState" where
  "handleMouseMove e s =
     (if \<not> isDragging s then s
      else
        let x = clientX e; y = clientY e in
        if action s = Some Drawing then
          (case pageRect e of
             None \<Rightarrow> s
           | Some (rleft, rtop) \<Rightarrow>
               s\<lparr> currentPoints := currentPoints s @ [\<lparr> px_pt = x - rleft, py_pt = y - rtop \<rparr>] \<rparr>)
        else if action s = Some Moving \<and> truthy (selectedId s) then
          (let dx = x - fst (dragStart s); dy = y - snd (dragStart s)
           in s\<lparr> dragStart := (x, y),
                  elements := map (\<lambda>el. if Some (id_el el) = selectedId s
                                        then el\<lparr> x_el := x_el el + dx, y_el := y_el el + dy \<rparr>
                                        else el) (elements s) \<rparr>)
        else if action s = Some Resizing \<and> truthy (selectedId s) \<and> truthy (resizeDir s) then
          (let dx = x - fst (dragStart s); dy = y - snd (dragStart s)
           in s\<lparr> dragStart := (x, y),
                  elements := map (\<lambda>item. if Some (id_el item) \<noteq> selectedId s then item
                                          else resizeItem (the (resizeDir s)) dx dy item)
                                (elements s) \<rparr>)
        else if action s = Some Rotating \<and> truthy (selectedId s) \<and> truthy (activePageId s) then
          (case (find (\<lambda>el. Some (id_el el) = selectedId s) (elements s), pageRect e) of
             (Some el, Some (rleft, rtop)) \<Rightarrow>
               (let centerX = rleft + x_el el + width el / 2;
                    centerY = rtop + y_el el + height el / 2;
                    angle = js_atan2 (y - centerY) (x - centerX) * (180 / pi);
                    finalAngle = (if shiftKey e then real_of_int (js_round ((angle + 90) / 15)) * 15
                                  else angle + 90)
                in updateSelectedRotation
                     (real_of_int (js_rem (js_round finalAngle + 360) 360)) s)
           | _ \<Rightarrow> s)
        else s)"

text \<open>
  The element \<open>handleMouseUp\<close> builds for a finished drag of a shape tool: \<open>(x, y)\<close> is the
  pointer relative to the page, \<open>now\<close> is \<open>Date.now().toString()\<close>.
\<close>

definition createdElement :: "string \<Rightarrow> string \<Rightarrow> real \<Rightarrow> real \<Rightarrow> EditorState \<Rightarrow> EditorElement" where
  "createdElement now pid x y s =
     (let w = x - fst (newElStart s); h = y - snd (newElStart s);
          isLine = (toolMode s = Line \<or> toolMode s = Arrow)
      in \<lparr> id_el = now, pageId = pid, type_el = toolMode s,
            x_el = (if isLine then fst (newElStart s) else min x (fst (newElStart s))),
            y_el = (if isLine then snd (newElStart s) else min y (snd (newElStart s))),
            width = (if isLine then max 20 w else max 20 \<bar>w\<bar>),
            height = (if isLine then max 20 h else max 20 \<bar>h\<bar>),
            content = (if toolMode s = Text then Some ''Type here...'' else None),
            src = None,
            color = (if toolMode s = Redact then ''#000000'' else currentColor s),
            fontSize = currentFontSize s,
            isBold = Some False, isItalic = Some False, textAlign = Some AlignLeft,
            opacity = (if toolMode s = Redact then 1 else currentOpacity s),
            rotation_el = Some 0, points = None,
            strokeWidth = (if toolMode s = Redact then 1 else currentStrokeWidth s) \<rparr>)"

text \<open>The element built for a finished freehand stroke.\<close>

definition drawnElement :: "string \<Rightarrow> string \<Rightarrow> EditorState \<Rightarrow> EditorElement" where
  "drawnElement now pid s =
     (let minX = js_min (map px_pt (currentPoints s));
          minY = js_min (map py_pt (currentPoints s));
          maxX = js_max (map px_pt (currentPoints s));
          maxY = js_max (map py_pt (currentPoints s))
      in \<lparr> id_el = now, pageId = pid,
            type_el = (if toolMode s = Highlight then Highlight else Draw),
            x_el = minX, y_el = minY, width = maxX - minX, height = maxY - minY,
            content = None, src = None, color = currentColor s, fontSize = currentFontSize s,
            isBold = None, isItalic = None, textAlign = None,
            opacity = (if toolMode s = Highlight then 35 / 100 else currentOpacity s),
            rotation_el = Some 0, points = Some (currentPoints s),
            strokeWidth = (if toolMode s = Highlight then 20 else currentStrokeWidth s) \<rparr>)"

definition handleMouseUp :: "MouseEvent \<Rightarrow> string \<Rightarrow> EditorState \<Rightarrow> EditorState" where
  "handleMouseUp e now s =
     (if \<not> isDragging s then s
      else
        let s1 =
          (if action s = Some Drawing \<and> truthy (activePageId s) \<and> length (currentPoints s) > 2 then
             (let updated = elements s @ [drawnElement now (the (activePageId s)) s]
              in saveToHistory updated (pageSequence s) (s\<lparr> elements := updated \<rparr>))
           else if action s = Some Creating \<and> truthy (activePageId s) then
             (case pageRect e of
                None \<Rightarrow> s
              | Some (rleft, rtop) \<Rightarrow>
                  (let x = clientX e - rleft; y = clientY e - rtop;
                       w = x - fst (newElStart s); h = y - snd (newElStart s);
                       newEl = createdElement now (the (activePageId s)) x y s
                   in if toolMode s = Text \<or> \<bar>w\<bar> > 5 \<or> \<bar>h\<bar> > 5 then
                        (let updated = elements s @ [newEl]
                         in saveToHistory updated (pageSequence s)
                              (s\<lparr> elements := updated,
                                 toolMode := (if toolMode s \<noteq> Text then Select else toolMode s),
                                 selectedId := Some (id_el newEl) \<rparr>))
                      else s))
           else if action s = Some Moving \<or> action s = Some Resizing \<or> action s = Some Rotating then
             saveToHistory (elements s) (pageSequence s) s
           else s)
        in s1\<lparr> isDragging := False, action := None, resizeDir := None,
               currentPoints := [], activePageId := None \<rparr>)"

section \<open>The merge tool\<close>




section \<open>The compression tool\<close>








section \<open>The editor as a transition system\<close>

text \<open>
  The user actions that change the page store, the page sequence, the elements, the
  history or the zoom. \<open>SetElements\<close> stands for every handler that only replaces the
  element list (typing, the property panel, \<open>Reset\<close>), \<open>SaveToHistory\<close> for a call of
  \<open>saveToHistory\<close> with some element list (a handler that does both is the two in a row,
  since the callback reads the history of the current render). A handler that throws
  leaves the state as it was.
\<close>

datatype Event =
    FileUpload PdfJs "UploadedFile option" "nat \<Rightarrow> string"
  | NewDocument string
  | Organize OrganizeType "string option" "int option" string "nat \<Rightarrow> string"
  | PageDrop "int option" int
  | Undo
  | Redo
  | ActionStart DragAction "string option" "real \<times> real" string
  | MouseMove MouseEvent
  | MouseUp MouseEvent string
  | SetElements "EditorElement list"
  | SaveToHistory "EditorElement list"
  | SelectElement "string option"
  | SetCurrentPage int
  | SetToolMode ToolMode
  | ZoomOut
  | ZoomIn
  | SetWatermark string
  | SetPageNumbering PageNumberConfig
  | Flatten PdfLib PdfJs
  | Download PdfLib

text \<open>\<open>onActionStart\<close>, as the editor passes it to each page.\<close>

definition actionStart :: "DragAction \<Rightarrow> string option \<Rightarrow> real \<times> real \<Rightarrow> string \<Rightarrow> EditorState \<Rightarrow> EditorState" where
  "actionStart act dir start pId s =
     s\<lparr> action := Some act, resizeDir := dir, newElStart := start, dragStart := start,
        isDragging := True, activePageId := Some pId,
        currentPoints := (if act = Drawing then [\<lparr> px_pt = fst start, py_pt = snd start \<rparr>]
                          else currentPoints s) \<rparr>"

definition orElse :: "EditorState \<Rightarrow> error + EditorState \<Rightarrow> EditorState" where
  "orElse s r = (case r of Inl e \<Rightarrow> s | Inr s' \<Rightarrow> s')"

fun step :: "EditorState \<Rightarrow> Event \<Rightarrow> EditorState" where
  "step s (FileUpload js file ids) = handleFileUpload js file ids s"
| "step s (NewDocument newId) = newDocument newId s"
| "step s (Organize ty param specificIndex newId cloneIds) =
     orElse s (organizeAction ty param specificIndex newId cloneIds s)"
| "step s (PageDrop sourceIndex targetIndex) = orElse s (handlePageDrop sourceIndex targetIndex s)"
| "step s Undo = orElse s (undo s)"
| "step s Redo = orElse s (redo s)"
| "step s (ActionStart act dir start pId) = actionStart act dir start pId s"
| "step s (MouseMove e) = handleMouseMove e s"
| "step s (MouseUp e now) = handleMouseUp e now s"
| "step s (SetElements els) = s\<lparr> elements := els \<rparr>"
| "step s (SaveToHistory els) = saveToHistory els (pageSequence s) s"
| "step s (SelectElement sid) = s\<lparr> selectedId := sid \<rparr>"
| "step s (SetCurrentPage i) = s\<lparr> currentPageIndex := i \<rparr>"
| "step s (SetToolMode m) = s\<lparr> toolMode := m \<rparr>"
| "step s ZoomOut = s\<lparr> scale := max (2 / 10) (scale s - 1 / 10) \<rparr>"
| "step s ZoomIn = s\<lparr> scale := min 4 (scale s + 1 / 10) \<rparr>"
| "step s (SetWatermark wm) = s\<lparr> watermarkText := wm \<rparr>"
| "step s (SetPageNumbering cfg) = s\<lparr> pageNumbering := cfg \<rparr>"
| "step s (Flatten lib js) = flattenPDF lib js s"
| "step s (Download lib) = handleDownload lib s"

text \<open>The state after a sequence of actions on the freshly mounted editor.\<close>

definition run :: "Event list \<Rightarrow> EditorState" where
  "run evs = foldl step initialState evs"

text \<open>Every address in the page sequence and in the history points into the store.\<close>

definition wellFormed :: "EditorState \<Rightarrow> bool" where
  "wellFormed s =
     (list_all (\<lambda>a. a < length (heap s)) (pageSequence s)
      \<and> list_all (\<lambda>snap. list_all (\<lambda>a. a < length (heap s)) (sequence_h snap)) (history s))"

text \<open>The rotation values the interface of a page names.\<close>

definition rotationOk :: "PageMetadata \<Rightarrow> bool" where
  "rotationOk p = (rotation_pm p = 0 \<or> rotation_pm p = 90 \<or> rotation_pm p = 180 \<or> rotation_pm p = 270)"

text \<open>
  The history index of a reachable state: \<open>-1\<close> with no history, a valid index
  otherwise (see \<open>reachable_historyOk\<close>).
\<close>

definition historyOk :: "EditorState \<Rightarrow> bool" where
  "historyOk s = (- 1 \<le> historyIndex s \<and> historyIndex s < int (length (history s)))"

section \<open>Example states\<close>

definition exEl :: EditorElement where
  "exEl = \<lparr> id_el = ''e1'', pageId = ''p1'', type_el = Rect, x_el = 10, y_el = 20,
     width = 100, height = 50, content = None, src = None, color = ''#000000'',
     fontSize = 16, isBold = Some False, isItalic = Some False, textAlign = Some AlignLeft,
     opacity = 1, rotation_el = Some 0, points = None, strokeWidth = 2 \<rparr>"

definition exState2 :: EditorState where
  "exState2 = initialState\<lparr>
      heap := [\<lparr> id_pm = ''p1'', originalIndex = 1, rotation_pm = 0 \<rparr>,
               \<lparr> id_pm = ''p1'', originalIndex = 1, rotation_pm = 0 \<rparr>,
               \<lparr> id_pm = ''p1'', originalIndex = 1, rotation_pm = 0 \<rparr>],
      pageSequence := [0], elements := [exEl], selectedId := Some ''e1'',
      history := [\<lparr> elements_h = [], sequence_h = [1] \<rparr>,
                  \<lparr> elements_h = [exEl], sequence_h = [2] \<rparr>],
      historyIndex := 1 \<rparr>"

definition exPageA :: PageMetadata where
  "exPageA = \<lparr> id_pm = ''pA'', originalIndex = 1, rotation_pm = 0 \<rparr>"

definition exPageB :: PageMetadata where
  "exPageB = \<lparr> id_pm = ''pB'', originalIndex = 2, rotation_pm = 90 \<rparr>"

definition exOnePage :: EditorState where
  "exOnePage = initialState\<lparr> heap := [exPageA], pageSequence := [0],
      elements := [exEl\<lparr> pageId := ''pA'' \<rparr>] \<rparr>"

definition exTwoPages :: EditorState where
  "exTwoPages = initialState\<lparr> heap := [exPageA, exPageB], pageSequence := [0, 1],
      elements := [exEl\<lparr> pageId := ''pA'' \<rparr>, exEl\<lparr> id_el := ''e2'', pageId := ''pB'' \<rparr>] \<rparr>"

definition exResizing :: EditorState where
  "exResizing = initialState\<lparr> heap := [exPageA], pageSequence := [0],
      elements := [exEl\<lparr> pageId := ''pA'' \<rparr>], selectedId := Some ''e1'', isDragging := True,
      dragStart := (100, 100), action := Some Resizing, resizeDir := Some ''nw'',
      activePageId := Some ''pA'' \<rparr>"

definition exCreating :: EditorState where
  "exCreating = initialState\<lparr> heap := [exPageA], pageSequence := [0], toolMode := Rect,
      isDragging := True, dragStart := (50, 50), action := Some Creating,
      newElStart := (50, 50), activePageId := Some ''pA'' \<rparr>"

definition exMouse :: "real \<Rightarrow> real \<Rightarrow> MouseEvent" where
  "exMouse cx cy = \<lparr> clientX = cx, clientY = cy, shiftKey = False, pageRect = Some (100, 100) \<rparr>"

section \<open>Snapshots and the invariant\<close>

text \<open>
  The history after a snapshot of the given elements and pages has been pushed: the
  entries up to the current index, then the snapshot, whose pages are the next free
  objects of the store. A history of more than 30 entries loses its oldest.
\<close>

definition pushed :: "EditorElement list \<Rightarrow> addr list \<Rightarrow> EditorState \<Rightarrow> Snapshot list" where
  "pushed es sq s = js_slice0 (history s) (historyIndex s + 1)
      @ [\<lparr> elements_h = es, sequence_h = [length (heap s) ..< length (heap s) + length sq] \<rparr>]"

definition capped :: "Snapshot list \<Rightarrow> Snapshot list" where
  "capped hs = (if length hs > 30 then tl hs else hs)"

text \<open>
  The invariant of the reachable states: the store is well formed, every rotation is one
  of the four, the history is bounded and its index valid, the zoom scale is in range.
\<close>

definition inv :: "EditorState \<Rightarrow> bool" where
  "inv s = (wellFormed s \<and> list_all rotationOk (heap s) \<and> length (history s) \<le> 30
            \<and> historyOk s \<and> 2 / 10 \<le> scale s \<and> scale s \<le> 4)"

text \<open>
  An operation has recorded its result when the alerts are as before, the history is the
  old one up to its index followed by one new snapshot (less the oldest entry beyond 30),
  the index is the last position, and the new snapshot holds the elements of the new state
  and, as the newest objects of the store, pages equal to those of its page sequence.
\<close>

definition recordsResult :: "EditorState \<Rightarrow> EditorState \<Rightarrow> bool" where
  "recordsResult s s' =
     (alerts s' = alerts s
      \<and> history s' = capped (js_slice0 (history s) (historyIndex s + 1) @ [last (history s')])
      \<and> historyIndex s' = int (length (history s')) - 1
      \<and> elements_h (last (history s')) = elements s'
      \<and> sequence_h (last (history s'))
          = [length (heap s') - length (pageSequence s') ..< length (heap s')]
      \<and> length (heap s) + length (pageSequence s') \<le> length (heap s')
      \<and> pagesOf (heap s') (sequence_h (last (history s'))) = pagesOf (heap s') (pageSequence s'))"

section \<open>Example runs\<close>

text \<open>
  Thirty edits in a row; a new document with a second page and three rotations; and an
  uploaded file of two pages, which pdf.js and the example library below both load.
\<close>

definition exBusy :: "Event list" where
  "exBusy = replicate 30 (SaveToHistory [])"

definition exEvents :: "Event list" where
  "exEvents = [NewDocument ''p1'', Organize Blank None None ''p2'' (\<lambda>k. ''c''),
               Organize Rotate (Some ''ccw'') (Some 0) ''n'' (\<lambda>k. ''c''),
               Organize Rotate (Some ''cw'') None ''n'' (\<lambda>k. ''c''),
               Organize Rotate (Some ''cw'') None ''n'' (\<lambda>k. ''c'')]"

definition exBytes :: bytes where
  "exBytes = [37, 80, 68, 70]"

definition exFile :: UploadedFile where
  "exFile = \<lparr> name_f = ''report.pdf'', data_f = exBytes \<rparr>"

definition exJs :: PdfJs where
  "exJs = \<lparr> getDocument = (\<lambda>b. if b = exBytes then Some \<lparr> numPages = 2, source_bytes = b \<rparr> else None),
      pageTextItems = (\<lambda>d i. Some [''Hello'', ''world'']),
      pageViewport = (\<lambda>d i sc. Some (612 * sc, 792 * sc)),
      canvasContextOk = True,
      renderOk = (\<lambda>d i. True),
      toDataURL = (\<lambda>d i sc q. ''data:image/jpeg;base64,AAAA'') \<rparr>"

definition exIds :: "nat \<Rightarrow> string" where
  "exIds i = (if i = 0 then ''pA'' else ''pB'')"

definition exLoaded :: EditorState where
  "exLoaded = run [FileUpload exJs (Some exFile) exIds]"

section \<open>The replayed geometry as the specification words it\<close>

text \<open>
  The definitions of this section are not taken from the code. They write down what the
  specification says about the export, so that the code can be compared with them:
  \<open>rotateAbout c deg p\<close> is the point \<open>p\<close> turned by \<open>deg\<close> degrees about the centre \<open>c\<close>.
\<close>

definition rotateAbout :: "real \<times> real \<Rightarrow> real \<Rightarrow> real \<times> real \<Rightarrow> real \<times> real" where
  "rotateAbout c deg p =
     (fst c + (fst p - fst c) * cos (deg * pi / 180) - (snd p - snd c) * sin (deg * pi / 180),
      snd c + (fst p - fst c) * sin (deg * pi / 180) + (snd p - snd c) * cos (deg * pi / 180))"

text \<open>
  The box of an element in PDF space, as the specification gives it: the on-screen
  geometry divided by the zoom scale, with the y-axis flipped against the page height.
\<close>

definition claimedBox :: "real \<Rightarrow> real \<Rightarrow> EditorElement \<Rightarrow> real \<times> real \<times> real \<times> real" where
  "claimedBox sc h el = (x_el el / sc, h - y_el el / sc, width el / sc, height el / sc)"

text \<open>
  The rotation of the drawing is the rotation of the element, negated; an element
  without a rotation counts as unrotated.
\<close>

definition claimedAngle :: "EditorElement \<Rightarrow> real" where
  "claimedAngle el = - (case rotation_el el of None \<Rightarrow> 0 | Some r \<Rightarrow> r)"

text \<open>
  The centre of the box: half a width to the right of its corner and half a height below.
\<close>

definition claimedCenter :: "real \<Rightarrow> real \<Rightarrow> EditorElement \<Rightarrow> real \<times> real" where
  "claimedCenter sc h el =
     (case claimedBox sc h el of (x', y', w', h') \<Rightarrow> (x' + w' / 2, y' - h' / 2))"

text \<open>
  The font of a text element, by its bold and italic marks.
\<close>

definition elementFont :: "EditorElement \<Rightarrow> StandardFont" where
  "elementFont el =
     (if isBold el = Some True \<and> isItalic el = Some True then HelveticaBoldOblique
      else if isBold el = Some True then HelveticaBold
      else if isItalic el = Some True then HelveticaOblique
      else Helvetica)"

text \<open>
  The one drawing the specification expects for a non-redact element: the text at its
  baseline, the rectangle and the image at their lower left corner, the ellipse at the
  centre, the line between two opposite corners, every position turned about the centre
  of the element. The other element types have none here.
\<close>

definition claimedDrawing :: "real \<Rightarrow> real \<Rightarrow> EditorElement \<Rightarrow> DrawOp option" where
  "claimedDrawing sc h el =
     (case claimedBox sc h el of (x', y', w', h') \<Rightarrow>
        let c = claimedCenter sc h el; a = claimedAngle el;
            corner = rotateAbout c a (x', y' - h')
        in case type_el el of
             Text \<Rightarrow>
               (let pos = rotateAbout c a (x', y' - fontSize el / sc)
                in Some (DrawText (if truthy (content el) then the (content el) else '' '')
                     (fst pos) (snd pos) (fontSize el / sc) (hexToRgb (color el)) (elementFont el)
                     (Some (opacity el)) (Some a)))
           | Rect \<Rightarrow>
               Some (DrawRectangle (fst corner) (snd corner) w' h' (Some (hexToRgb (color el)))
                 (Some (strokeWidth el / sc)) None (Some (opacity el)) a)
           | Circle \<Rightarrow>
               Some (DrawEllipse (fst c) (snd c) (w' / 2) (h' / 2) (hexToRgb (color el))
                 (strokeWidth el / sc) (opacity el) a)
           | Line \<Rightarrow>
               Some (DrawLine (fst (rotateAbout c a (x', y'))) (snd (rotateAbout c a (x', y')))
                 (fst (rotateAbout c a (x' + w', y' - h'))) (snd (rotateAbout c a (x' + w', y' - h')))
                 (hexToRgb (color el)) (strokeWidth el / sc) (opacity el))
           | Arrow \<Rightarrow>
               Some (DrawLine (fst (rotateAbout c a (x', y'))) (snd (rotateAbout c a (x', y')))
                 (fst (rotateAbout c a (x' + w', y' - h'))) (snd (rotateAbout c a (x' + w', y' - h')))
                 (hexToRgb (color el)) (strokeWidth el / sc) (opacity el))
           | Image \<Rightarrow>
               (if truthy (src el)
                then Some (DrawImage (the (src el)) (fst corner) (snd corner) w' h'
                       (Some (opacity el)) (Some a))
                else None)
           | _ \<Rightarrow> None)"

text \<open>
  The black rectangle the specification expects for a redact element.
\<close>

definition claimedRedaction :: "real \<Rightarrow> real \<Rightarrow> EditorElement \<Rightarrow> DrawOp" where
  "claimedRedaction sc h el =
     (case claimedBox sc h el of (x', y', w', h') \<Rightarrow>
        let corner = rotateAbout (claimedCenter sc h el) (claimedAngle el) (x', y' - h')
        in DrawRectangle (fst corner) (snd corner) w' h' None None (Some (Rgb 0 0 0)) None
             (claimedAngle el))"

section \<open>What a completed export contains\<close>

text \<open>
  These definitions describe, page by page, the document that the loop of the export
  builds when no call fails; the lemmas of the last section prove that the code builds
  exactly this. An image can be embedded when it has a source and the embedding call for
  its format succeeds.
\<close>

definition imageEmbeds :: "PdfLib \<Rightarrow> EditorElement \<Rightarrow> bool" where
  "imageEmbeds lib el =
     (truthy (src el)
      \<and> (if js_includes (the (src el)) ''png'' then embedPngOk lib (the (src el))
          else embedJpgOk lib (the (src el))))"

text \<open>
  The drawings that reach the page for one element: the claimed drawing, except that an
  image whose embedding or drawing fails leaves nothing.
\<close>

definition drawnFor :: "PdfLib \<Rightarrow> real \<Rightarrow> real \<Rightarrow> EditorElement \<Rightarrow> DrawOp list" where
  "drawnFor lib sc h el =
     (case claimedDrawing sc h el of
        None \<Rightarrow> []
      | Some d \<Rightarrow> if type_el el = Image \<and> \<not> (imageEmbeds lib el \<and> drawOk lib d) then [] else [d])"

text \<open>
  The drawings whose failure ends the export: all but those of images, whose failures
  are caught on the spot.
\<close>

definition requiredDrawing :: "real \<Rightarrow> real \<Rightarrow> EditorElement \<Rightarrow> DrawOp list" where
  "requiredDrawing sc h el =
     (case claimedDrawing sc h el of
        None \<Rightarrow> []
      | Some d \<Rightarrow> if type_el el = Image then [] else [d])"

text \<open>
  The page number, when numbering is enabled, then the watermark, when there is one.
\<close>

definition headerOps :: "PdfLib \<Rightarrow> EditorState \<Rightarrow> nat \<Rightarrow> real \<Rightarrow> real \<Rightarrow> DrawOp list" where
  "headerOps lib s i w h =
     (if enabled (pageNumbering s)
      then [pageNumberOp lib (pageNumbering s) i (length (pageSequence s)) w h] else [])
     @ (if watermarkText s \<noteq> [] then [watermarkOp (watermarkText s) h] else [])"

text \<open>
  Everything drawn onto page \<open>i\<close>: the header, the elements of the page that are not
  redactions, in the order of the elements list, then the redactions.
\<close>

definition overlayOps :: "PdfLib \<Rightarrow> EditorState \<Rightarrow> nat \<Rightarrow> PageMetadata \<Rightarrow> real \<Rightarrow> real \<Rightarrow> DrawOp list" where
  "overlayOps lib s i meta w h =
     (let pageElements = filter (\<lambda>el. pageId el = id_pm meta) (elements s) in
      headerOps lib s i w h
      @ concat (map (drawnFor lib (scale s) h) (filter (\<lambda>el. type_el el \<noteq> Redact) pageElements))
      @ map (claimedRedaction (scale s) h) (filter (\<lambda>el. type_el el = Redact) pageElements))"

definition requiredOps :: "PdfLib \<Rightarrow> EditorState \<Rightarrow> nat \<Rightarrow> PageMetadata \<Rightarrow> real \<Rightarrow> real \<Rightarrow> DrawOp list" where
  "requiredOps lib s i meta w h =
     (let pageElements = filter (\<lambda>el. pageId el = id_pm meta) (elements s) in
      headerOps lib s i w h
      @ concat (map (requiredDrawing (scale s) h) (filter (\<lambda>el. type_el el \<noteq> Redact) pageElements))
      @ map (claimedRedaction (scale s) h) (filter (\<lambda>el. type_el el = Redact) pageElements))"

text \<open>
  The source document, when there are file bytes and they load.
\<close>

definition sourceOf :: "PdfLib \<Rightarrow> EditorState \<Rightarrow> (bytes \<times> SourceDoc) option" where
  "sourceOf lib s =
     (case fileBytes s of
        None \<Rightarrow> None
      | Some b \<Rightarrow> (case load lib b of None \<Rightarrow> None | Some sd \<Rightarrow> Some (b, sd)))"

text \<open>
  The pages that are copied from the source rather than added blank: the entry names an
  original page, the source is loaded, the index is one of its pages and the copy succeeds.
\<close>

definition copiesPage :: "PdfLib \<Rightarrow> EditorState \<Rightarrow> PageMetadata \<Rightarrow> bool" where
  "copiesPage lib s meta =
     (originalIndex meta \<noteq> - 1
      \<and> (case fileBytes s of
            None \<Rightarrow> False
          | Some b \<Rightarrow>
              (case load lib b of
                 None \<Rightarrow> False
               | Some sd \<Rightarrow>
                   0 \<le> originalIndex meta - 1 \<and> originalIndex meta - 1 < int (pageCount sd)
                   \<and> copyPagesOk lib b [originalIndex meta - 1])))"

text \<open>
  Page \<open>i\<close> of the output, and the whole output; \<open>newPage\<close> is \<open>downloadNewPage\<close> for the
  download and \<open>flattenNewPage\<close> for flattening.
\<close>

definition expectedPage ::
  "(PdfLib \<Rightarrow> (bytes \<times> SourceDoc) option \<Rightarrow> PageMetadata \<Rightarrow> OutPage) \<Rightarrow> PdfLib \<Rightarrow> EditorState
     \<Rightarrow> nat \<Rightarrow> OutPage" where
  "expectedPage newPage lib s i =
     (let meta = heap s ! (pageSequence s ! i);
          page = newPage lib (sourceOf lib s) meta
      in page\<lparr> ops := ops page @ overlayOps lib s i meta (pageW page) (pageH page) \<rparr>)"

definition expectedDoc ::
  "(PdfLib \<Rightarrow> (bytes \<times> SourceDoc) option \<Rightarrow> PageMetadata \<Rightarrow> OutPage) \<Rightarrow> PdfLib \<Rightarrow> EditorState
     \<Rightarrow> OutPage list" where
  "expectedDoc newPage lib s = map (expectedPage newPage lib s) [0 ..< length (pageSequence s)]"

text \<open>
  The export completes when the source loads (if there is one), the document is created,
  the four fonts embed, every required drawing succeeds and the document is saved.
\<close>

definition pageDrawsOk ::
  "(PdfLib \<Rightarrow> (bytes \<times> SourceDoc) option \<Rightarrow> PageMetadata \<Rightarrow> OutPage) \<Rightarrow> PdfLib \<Rightarrow> EditorState
     \<Rightarrow> nat \<Rightarrow> bool" where
  "pageDrawsOk newPage lib s i =
     (let meta = heap s ! (pageSequence s ! i);
          page = newPage lib (sourceOf lib s) meta
      in list_all (drawOk lib) (requiredOps lib s i meta (pageW page) (pageH page)))"

definition exportCompletes ::
  "(PdfLib \<Rightarrow> (bytes \<times> SourceDoc) option \<Rightarrow> PageMetadata \<Rightarrow> OutPage) \<Rightarrow> PdfLib \<Rightarrow> EditorState
     \<Rightarrow> bool" where
  "exportCompletes newPage lib s =
     ((case fileBytes s of None \<Rightarrow> True | Some b \<Rightarrow> load lib b \<noteq> None)
      \<and> createOk lib
      \<and> list_all (embedFontOk lib) [Helvetica, HelveticaBold, HelveticaOblique, HelveticaBoldOblique]
      \<and> list_all (pageDrawsOk newPage lib s) [0 ..< length (pageSequence s)]
      \<and> save lib (expectedDoc newPage lib s) \<noteq> None)"

section \<open>When the other actions complete\<close>








section \<open>Example libraries and documents\<close>

text \<open>
  A library in which every call succeeds and only the example bytes load, as a document
  of two A4 pages. \<open>exLib\<close> saves a document as two bytes per page, for its origin (1 for
  a copied page, 0 for a new one) and for the number of its drawings. \<open>exLib2\<close> saves more:
  per page the byte of its origin, a byte per drawing for its kind, and a closing 255.
\<close>

definition exLib :: PdfLib where
  "exLib = \<lparr> load = (\<lambda>b. if b = exBytes
                         then Some \<lparr> pageCount = 2, pageWidth = (\<lambda>i. 595), pageHeight = (\<lambda>i. 842) \<rparr>
                         else None),
      createOk = True,
      embedFontOk = (\<lambda>f. True),
      widthOfTextAtSize = (\<lambda>f t sz. sz * real (length t) / 2),
      copyPagesOk = (\<lambda>b is. True),
      embedPngOk = (\<lambda>d. True),
      embedJpgOk = (\<lambda>d. True),
      imageSize = (\<lambda>d. (918, 1188)),
      drawOk = (\<lambda>d. True),
      save = (\<lambda>doc. Some (concat (map (\<lambda>p. [case origin p of NewPage w h \<Rightarrow> 0 | CopiedPage b i \<Rightarrow> 1,
                                               of_nat (length (ops p))]) doc))) \<rparr>"

definition opCode :: "DrawOp \<Rightarrow> 8 word" where
  "opCode d = (case d of DrawText _ _ _ _ _ _ _ _ \<Rightarrow> 1 | DrawRectangle _ _ _ _ _ _ _ _ _ \<Rightarrow> 2
     | DrawEllipse _ _ _ _ _ _ _ _ \<Rightarrow> 3 | DrawLine _ _ _ _ _ _ _ \<Rightarrow> 4 | DrawImage _ _ _ _ _ _ _ \<Rightarrow> 5)"

definition exSave :: "OutPage list \<Rightarrow> bytes option" where
  "exSave doc =
     Some (concat (map (\<lambda>p. (case origin p of NewPage w h \<Rightarrow> 0 | CopiedPage b i \<Rightarrow> 1)
                             # map opCode (ops p) @ [255]) doc))"

definition exLib2 :: PdfLib where
  "exLib2 = exLib\<lparr> save := exSave \<rparr>"

text \<open>
  The loaded example document with an image on its first page, and with a rectangle and
  a redaction on its first page, a text on its second, a watermark and page numbers.
\<close>

definition exImage :: EditorElement where
  "exImage = exEl\<lparr> id_el := ''img1'', pageId := ''pA'', type_el := Image,
     src := Some ''data:image/png;base64,iVBORw0KGgo='' \<rparr>"

definition exWithImage :: EditorState where
  "exWithImage = exLoaded\<lparr> elements := [exImage] \<rparr>"

definition exWithShapes :: EditorState where
  "exWithShapes = exLoaded\<lparr>
      elements := [exEl\<lparr> pageId := ''pA'' \<rparr>,
                   exEl\<lparr> id_el := ''e2'', pageId := ''pA'', type_el := Redact \<rparr>,
                   exEl\<lparr> id_el := ''e3'', pageId := ''pB'', type_el := Text, content := Some ''Hi'' \<rparr>],
      watermarkText := ''DRAFT'',
      pageNumbering := (pageNumbering exLoaded)\<lparr> enabled := True \<rparr> \<rparr>"



text \<open>
  Opening the example file, rotating its first page, undoing that and rotating again; and
  opening a file of one page, adding a blank page and undoing that.
\<close>

definition exRotateUndo :: "Event list" where
  "exRotateUndo = [FileUpload exJs (Some exFile) exIds,
                   Organize Rotate (Some ''cw'') (Some 0) ''n'' (\<lambda>k. ''c''),
                   Undo,
                   Organize Rotate (Some ''cw'') (Some 0) ''n'' (\<lambda>k. ''c'')]"

definition exJs1 :: PdfJs where
  "exJs1 = exJs\<lparr> getDocument :=
      (\<lambda>b. if b = exBytes then Some \<lparr> numPages = 1, source_bytes = b \<rparr> else None) \<rparr>"

definition exBlankUndo :: "Event list" where
  "exBlankUndo = [FileUpload exJs1 (Some exFile) exIds,
                  Organize Blank None None ''b1'' (\<lambda>k. ''c''),
                  Undo]"

section \<open>Properties\<close>

lemma cloneElement_id: "cloneElement el = el"
  by (cases "points el") (simp_all add: cloneElement_def)

lemma js_index_Some: "0 \<le> i \<Longrightarrow> i < int (length xs) \<Longrightarrow> js_index xs i = Some (xs ! nat i)"
  by (simp add: js_index_def)

lemma js_slice0_nonneg: "0 \<le> e \<Longrightarrow> js_slice0 xs e = take (nat e) xs"
  by (simp add: js_slice0_def)

lemma js_start_valid: "0 \<le> i \<Longrightarrow> i < int (length xs) \<Longrightarrow> js_start xs i = nat i"
  by (auto simp: js_start_def min_def)

lemma js_splice1_valid:
  "0 \<le> i \<Longrightarrow> i < int (length xs) \<Longrightarrow>
     js_splice1 xs i = ([xs ! nat i], take (nat i) xs @ drop (Suc (nat i)) xs)"
  by (simp add: js_splice1_def js_start_valid Let_def take_Suc_conv_app_nth
      hd_drop_conv_nth take_Suc)

subsection \<open>Undo and redo\<close>

text \<open>
  In a state whose history index is valid, the undo button is enabled exactly when the
  index is positive, and \<open>undo\<close> then installs the elements and the page sequence of
  the previous history entry, steps the index back and clears the selection; otherwise
  \<open>undo\<close> does nothing. \<open>redo\<close> is enabled exactly when the index is below the last
  entry and installs the next entry in the same way. Neither changes the history or the
  page store. What is installed is the list of page objects of the entry, not a copy of
  them: from then on the page sequence and the entry hold the same objects.
\<close>

lemma undo_redo_restore:
  assumes "historyOk s"
  shows "(\<not> undoDisabled s \<longleftrightarrow> 0 < historyIndex s)
     \<and> (0 < historyIndex s \<longrightarrow>
          (\<exists>s'. undo s = Inr s'
             \<and> elements s' = elements_h (history s ! nat (historyIndex s - 1))
             \<and> pageSequence s' = sequence_h (history s ! nat (historyIndex s - 1))
             \<and> historyIndex s' = historyIndex s - 1
             \<and> selectedId s' = None \<and> history s' = history s \<and> heap s' = heap s))
     \<and> (\<not> 0 < historyIndex s \<longrightarrow> undo s = Inr s)
     \<and> (\<not> redoDisabled s \<longleftrightarrow> historyIndex s < int (length (history s)) - 1)
     \<and> (historyIndex s < int (length (history s)) - 1 \<longrightarrow>
          (\<exists>s'. redo s = Inr s'
             \<and> elements s' = elements_h (history s ! nat (historyIndex s + 1))
             \<and> pageSequence s' = sequence_h (history s ! nat (historyIndex s + 1))
             \<and> historyIndex s' = historyIndex s + 1
             \<and> selectedId s' = None \<and> history s' = history s \<and> heap s' = heap s))
     \<and> (\<not> historyIndex s < int (length (history s)) - 1 \<longrightarrow> redo s = Inr s)"
  using assms
  by (auto simp: historyOk_def undo_def redo_def undoDisabled_def redoDisabled_def js_index_def)

lemma undo_redo_restore_example:
  "historyOk exState2
   \<and> undo exState2 = Inr (exState2\<lparr> elements := [], pageSequence := [1],
                                     historyIndex := 0, selectedId := None \<rparr>)
   \<and> redo exState2 = Inr exState2
   \<and> redo (exState2\<lparr> elements := [], pageSequence := [1],
                                     historyIndex := 0, selectedId := None \<rparr>)
       = Inr (exState2\<lparr> pageSequence := [2], selectedId := None \<rparr>)"
  using undo_redo_restore [of exState2]
  by (simp add: historyOk_def exState2_def initialState_def undo_def redo_def js_index_def
      undoDisabled_def redoDisabled_def)

subsection \<open>Deleting a page\<close>

text \<open>
  For a target index inside the page sequence: with exactly one page, \<open>delete\<close> only
  appends the alert (page sequence, elements and history stay as they are); with more
  than one page it removes the page at the target position and the elements whose
  \<open>pageId\<close> is that page's id, keeps the other elements in order, and leaves every page
  object that existed unchanged.
\<close>

lemma delete_atomic:
  assumes "t = (case specificIndex of Some i \<Rightarrow> i | None \<Rightarrow> currentPageIndex s)"
    and "0 \<le> t" and "t < int (length (pageSequence s))"
  shows "(length (pageSequence s) = 1 \<longrightarrow>
            organizeAction Delete param specificIndex newId cloneIds s
              = Inr (s\<lparr> alerts := alerts s @ [''Document must have at least one page.''] \<rparr>))
     \<and> (1 < length (pageSequence s) \<longrightarrow>
            (\<exists>s'. organizeAction Delete param specificIndex newId cloneIds s = Inr s'
               \<and> pageSequence s' = take (nat t) (pageSequence s) @ drop (Suc (nat t)) (pageSequence s)
               \<and> elements s' = filter (\<lambda>el. pageId el \<noteq> id_pm (heap s ! (pageSequence s ! nat t)))
                                  (elements s)
               \<and> (\<forall>a < length (heap s). heap s' ! a = heap s ! a)
               \<and> alerts s' = alerts s))"
  using assms
  by (auto simp: organizeAction_def js_index_def js_splice1_valid commitOrganize_def
      saveToHistory_def clonePages_def Let_def nth_append split: option.splits)

lemma delete_atomic_example:
  "organizeAction Delete None None ''n'' (\<lambda>k. ''c'') exOnePage
     = Inr (exOnePage\<lparr> alerts := [''Document must have at least one page.''] \<rparr>)
   \<and> (\<exists>s'. organizeAction Delete None (Some 0) ''n'' (\<lambda>k. ''c'') exTwoPages = Inr s'
          \<and> pageSequence s' = [1]
          \<and> elements s' = [exEl\<lparr> id_el := ''e2'', pageId := ''pB'' \<rparr>]
          \<and> heap s' ! 1 = exPageB)"
  using delete_atomic [where t = 0 and specificIndex = None and s = exOnePage
      and param = None and newId = "''n''" and cloneIds = "\<lambda>k. ''c''"]
    delete_atomic [where t = 0 and specificIndex = "Some 0" and s = exTwoPages
      and param = None and newId = "''n''" and cloneIds = "\<lambda>k. ''c''"]
  by (auto simp: exOnePage_def exTwoPages_def initialState_def exPageA_def exPageB_def exEl_def)

lemma resizeItem_min: "10 \<le> width (resizeItem dir dx dy item) \<and> 10 \<le> height (resizeItem dir dx dy item)"
  by (simp add: resizeItem_def Let_def)

lemma createdElement_min:
  "20 \<le> width (createdElement now pid x y s) \<and> 20 \<le> height (createdElement now pid x y s)"
  by (simp add: createdElement_def Let_def)

lemma saveToHistory_elements: "elements (saveToHistory es sq s) = elements s"
  by (simp add: saveToHistory_def Let_def split: prod.splits)

subsection \<open>Minimum element size\<close>

text \<open>
  C2. Resizing clamps the selected element: whatever the handle and the pointer movement,
  the resized element is at least 10 wide and 10 high, and so is every element carrying
  the selected id after a resizing mouse move. The element built at the end of a creating
  drag is at least 20 wide and 20 high, and a creating mouse-up either leaves the
  elements as they are or appends exactly one such element.
\<close>

theorem minimum_element_size:
  "10 \<le> width (resizeItem dir dx dy item) \<and> 10 \<le> height (resizeItem dir dx dy item)
   \<and> (isDragging s \<and> action s = Some Resizing \<and> truthy (selectedId s) \<and> truthy (resizeDir s)
        \<longrightarrow> (\<forall>el \<in> set (elements (handleMouseMove e s)).
               Some (id_el el) = selectedId s \<longrightarrow> 10 \<le> width el \<and> 10 \<le> height el))
   \<and> 20 \<le> width (createdElement now pid x y s) \<and> 20 \<le> height (createdElement now pid x y s)
   \<and> (isDragging s \<and> action s = Some Creating
        \<longrightarrow> elements (handleMouseUp e now s) = elements s
            \<or> (\<exists>newEl. elements (handleMouseUp e now s) = elements s @ [newEl]
                  \<and> 20 \<le> width newEl \<and> 20 \<le> height newEl))"
proof -
  have mv: "isDragging s \<and> action s = Some Resizing \<and> truthy (selectedId s) \<and> truthy (resizeDir s)
        \<longrightarrow> (\<forall>el \<in> set (elements (handleMouseMove e s)).
               Some (id_el el) = selectedId s \<longrightarrow> 10 \<le> width el \<and> 10 \<le> height el)"
    by (auto simp: handleMouseMove_def Let_def resizeItem_min)
  have up: "isDragging s \<and> action s = Some Creating
        \<longrightarrow> elements (handleMouseUp e now s) = elements s
            \<or> (\<exists>newEl. elements (handleMouseUp e now s) = elements s @ [newEl]
                  \<and> 20 \<le> width newEl \<and> 20 \<le> height newEl)"
    by (auto simp: handleMouseUp_def Let_def saveToHistory_elements createdElement_min
        split: option.splits)
  show ?thesis using mv up resizeItem_min createdElement_min by blast
qed

theorem minimum_element_size_witness:
  "isDragging exResizing \<and> action exResizing = Some Resizing
   \<and> truthy (selectedId exResizing) \<and> truthy (resizeDir exResizing)
   \<and> elements (handleMouseMove (exMouse 300 300) exResizing)
       = [exEl\<lparr> pageId := ''pA'', x_el := 210, y_el := 220, width := 10, height := 10 \<rparr>]
   \<and> isDragging exCreating \<and> action exCreating = Some Creating
   \<and> map width (elements (handleMouseUp (exMouse 156 153) ''1700000000000'' exCreating)) = [20]
   \<and> map height (elements (handleMouseUp (exMouse 156 153) ''1700000000000'' exCreating)) = [20]"
  using minimum_element_size [where s = exResizing and e = "exMouse 300 300"
      and dir = "''nw''" and dx = 200 and dy = 200 and item = exEl and now = "''1''"
      and pid = "''pA''" and x = 56 and y = 53]
    minimum_element_size [where s = exCreating and e = "exMouse 156 153"
      and dir = "''nw''" and dx = 200 and dy = 200 and item = exEl and now = "''1700000000000''"
      and pid = "''pA''" and x = 56 and y = 53]
  by (simp add: exResizing_def exCreating_def exMouse_def initialState_def exEl_def exPageA_def
      handleMouseMove_def handleMouseUp_def truthy_def resizeItem_def createdElement_def
      saveToHistory_elements Let_def)

subsection \<open>Invariants of every reachable state\<close>

lemma map_cloneElement: "map cloneElement es = es"
  by (induction es) (simp_all add: cloneElement_id)

lemma saveToHistory_eq:
  "saveToHistory es sq s =
     s\<lparr> heap := heap s @ pagesOf (heap s) sq,
        history := capped (pushed es sq s),
        historyIndex := int (length (capped (pushed es sq s))) - 1 \<rparr>"
  by (simp add: saveToHistory_def clonePages_def pushed_def capped_def Let_def map_cloneElement
      pagesOf_def)

lemma js_slice0_prefix: "\<exists>k. js_slice0 xs e = take k xs"
  by (auto simp: js_slice0_def)

lemma js_slice0_length: "length (js_slice0 xs e) \<le> length xs"
  using js_slice0_prefix [of xs e] by auto

lemma js_slice0_set: "set (js_slice0 xs e) \<subseteq> set xs"
  using js_slice0_prefix [of xs e] by (auto dest: in_set_takeD)

lemma capped_length: "length hs \<le> 31 \<Longrightarrow> length (capped hs) \<le> 30"
  by (auto simp: capped_def)

lemma capped_nonempty: "hs \<noteq> [] \<Longrightarrow> capped hs \<noteq> []"
  by (cases hs) (auto simp: capped_def)

lemma capped_set: "set (capped hs) \<subseteq> set hs"
  by (cases hs) (auto simp: capped_def)

lemma capped_last: "hs \<noteq> [] \<Longrightarrow> last (capped hs) = last hs"
  by (cases hs) (auto simp: capped_def last_tl)

lemma pushed_length: "length (history s) \<le> 30 \<Longrightarrow> length (pushed es sq s) \<le> 31"
  using js_slice0_length [of "history s" "historyIndex s + 1"] by (simp add: pushed_def)

lemma pushed_nonempty: "pushed es sq s \<noteq> []"
  by (simp add: pushed_def)

lemma saveToHistory_inv:
  assumes "inv s" and "list_all (\<lambda>a. a < length (heap s)) sq"
  shows "inv (saveToHistory es sq s)"
proof -
  let ?H = "capped (pushed es sq s)"
  have len: "length ?H \<le> 30"
    using assms(1) by (simp add: inv_def capped_length pushed_length)
  have ne: "?H \<noteq> []" by (simp add: capped_nonempty pushed_nonempty)
  have sub: "set ?H \<subseteq> insert \<lparr> elements_h = es, sequence_h = [length (heap s) ..< length (heap s) + length sq] \<rparr> (set (history s))"
    using capped_set [of "pushed es sq s"] js_slice0_set [of "history s" "historyIndex s + 1"]
    by (auto simp: pushed_def)
  have rot: "list_all rotationOk (heap s @ pagesOf (heap s) sq)"
    using assms by (auto simp: inv_def list_all_iff pagesOf_def)
  have wf: "wellFormed (saveToHistory es sq s)"
    using assms(1) sub
    by (fastforce simp: saveToHistory_eq inv_def wellFormed_def list_all_iff pagesOf_def)
  show ?thesis
    using assms(1) len ne rot wf
    by (simp add: inv_def saveToHistory_eq historyOk_def)
qed

lemma invI:
  assumes "inv s" and "length (heap s) \<le> length (heap s')" and "list_all rotationOk (heap s')"
    and "list_all (\<lambda>a. a < length (heap s')) (pageSequence s')"
    and "history s' = history s" and "historyIndex s' = historyIndex s" and "scale s' = scale s"
  shows "inv s'"
  using assms by (fastforce simp: inv_def wellFormed_def list_all_iff historyOk_def)

lemma inv_pageSequence: "inv s \<Longrightarrow> list_all (\<lambda>a. a < length (heap s)) (pageSequence s)"
  by (simp add: inv_def wellFormed_def)

lemma inv_rotationOk: "inv s \<Longrightarrow> a < length (heap s) \<Longrightarrow> rotationOk (heap s ! a)"
  by (simp add: inv_def list_all_length)

lemma js_splice1_rest_set: "set (snd (js_splice1 xs i)) \<subseteq> set xs"
  by (auto simp: js_splice1_def Let_def dest: in_set_takeD in_set_dropD)

lemma js_splice1_removed_set: "set (fst (js_splice1 xs i)) \<subseteq> set xs"
  by (auto simp: js_splice1_def Let_def dest: in_set_takeD in_set_dropD)

lemma js_insert_set: "set (js_insert xs i v) = insert v (set xs)"
proof -
  have "set (take k xs) \<union> set (drop k xs) = set xs" for k
    by (metis append_take_drop_id set_append)
  then show ?thesis by (auto simp: js_insert_def Let_def)
qed

lemma js_rem_rotation:
  assumes "r = 0 \<or> r = 90 \<or> r = 180 \<or> r = (270::int)" and "d = 90 \<or> d = - 90"
  shows "js_rem (r + d + 360) 360 = 0 \<or> js_rem (r + d + 360) 360 = 90
       \<or> js_rem (r + d + 360) 360 = 180 \<or> js_rem (r + d + 360) 360 = 270"
  using assms by (auto simp: js_rem_def)

lemma commitOrganize_inv:
  assumes "inv s" and "list_all (\<lambda>a. a < length (heap s)) sq"
  shows "inv (commitOrganize sq es s)"
proof -
  have "inv (s\<lparr> pageSequence := sq, elements := es \<rparr>)"
    by (rule invI [of s]) (use assms in \<open>simp_all add: inv_def\<close>)
  then show ?thesis
    using assms(2) by (simp add: commitOrganize_def saveToHistory_inv)
qed

lemma undo_cases:
  assumes "undo s = Inr s'"
  shows "s' = s \<or> (0 < historyIndex s \<and> historyIndex s - 1 < int (length (history s))
           \<and> s' = s\<lparr> elements := elements_h (history s ! nat (historyIndex s - 1)),
                      pageSequence := sequence_h (history s ! nat (historyIndex s - 1)),
                      historyIndex := historyIndex s - 1, selectedId := None \<rparr>)"
  using assms by (auto simp: undo_def js_index_def split: if_splits)

lemma redo_cases:
  assumes "redo s = Inr s'"
  shows "s' = s \<or> (0 \<le> historyIndex s + 1 \<and> historyIndex s + 1 < int (length (history s))
           \<and> s' = s\<lparr> elements := elements_h (history s ! nat (historyIndex s + 1)),
                      pageSequence := sequence_h (history s ! nat (historyIndex s + 1)),
                      historyIndex := historyIndex s + 1, selectedId := None \<rparr>)"
  using assms by (auto simp: redo_def js_index_def split: if_splits)

lemma inv_restore:
  assumes "inv s" and "0 \<le> k" and "k < int (length (history s))"
  shows "inv (s\<lparr> elements := es, pageSequence := sequence_h (history s ! nat k),
                 historyIndex := k, selectedId := sel \<rparr>)"
proof -
  have "history s ! nat k \<in> set (history s)" using assms by simp
  then have "list_all (\<lambda>a. a < length (heap s)) (sequence_h (history s ! nat k))"
    using assms(1) by (simp add: inv_def wellFormed_def list_all_iff)
  then show ?thesis
    using assms by (simp add: inv_def wellFormed_def historyOk_def)
qed

lemma undo_inv: "inv s \<Longrightarrow> undo s = Inr s' \<Longrightarrow> inv s'"
  using undo_cases [of s s'] inv_restore [of s "historyIndex s - 1"] by auto

lemma redo_inv: "inv s \<Longrightarrow> redo s = Inr s' \<Longrightarrow> inv s'"
  using redo_cases [of s s'] inv_restore [of s "historyIndex s + 1"] by auto

lemma list_all_mono_len:
  "list_all (\<lambda>a. a < n) xs \<Longrightarrow> n \<le> m \<Longrightarrow> list_all (\<lambda>a. a < (m::nat)) xs"
  by (auto simp: list_all_iff)

lemma list_all_subset: "list_all P xs \<Longrightarrow> set ys \<subseteq> set xs \<Longrightarrow> list_all P ys"
  by (auto simp: list_all_iff)

lemma rotate_inv:
  assumes "inv s" and "a < length (heap s)" and "d = 90 \<or> d = - 90"
  shows "inv (s\<lparr> heap := (heap s)[a := (heap s ! a)\<lparr> rotation_pm := js_rem (rotation_pm (heap s ! a) + d + 360) 360 \<rparr>] \<rparr>)"
proof (rule invI [of s])
  have "rotationOk (heap s ! a)" using assms by (simp add: inv_rotationOk)
  then have "rotationOk ((heap s ! a)\<lparr> rotation_pm := js_rem (rotation_pm (heap s ! a) + d + 360) 360 \<rparr>)"
    using js_rem_rotation [of "rotation_pm (heap s ! a)" d] assms(3) by (simp add: rotationOk_def)
  moreover have "list_all rotationOk (heap s)" using assms(1) by (simp add: inv_def)
  ultimately show "list_all rotationOk (heap (s\<lparr> heap := (heap s)[a := (heap s ! a)\<lparr> rotation_pm := js_rem (rotation_pm (heap s ! a) + d + 360) 360 \<rparr>] \<rparr>))"
    by (auto simp: list_all_iff dest!: set_update_subset_insert [THEN subsetD])
qed (use assms in \<open>simp_all add: inv_def wellFormed_def\<close>)

lemma organizeAction_inv:
  assumes "inv s" and "organizeAction ty param specificIndex newId cloneIds s = Inr s'"
  shows "inv s'"
proof -
  define t where "t = (case specificIndex of Some i \<Rightarrow> i | None \<Rightarrow> currentPageIndex s)"
  obtain a where ja: "js_index (pageSequence s) t = Some a"
    using assms(2) by (auto simp: organizeAction_def t_def Let_def split: option.splits)
  then have t: "0 \<le> t" "t < int (length (pageSequence s))" and a: "a = pageSequence s ! nat t"
    by (auto simp: js_index_def split: if_splits)
  have valid: "list_all (\<lambda>a. a < length (heap s)) (pageSequence s)"
    using assms(1) by (rule inv_pageSequence)
  have av: "a < length (heap s)" using valid t a by (simp add: list_all_length)
  show ?thesis
  proof (cases ty)
    case Rotate
    let ?d = "if param = Some ''cw'' then 90 else - 90 :: int"
    let ?s1 = "s\<lparr> heap := (heap s)[a := (heap s ! a)\<lparr> rotation_pm := js_rem (rotation_pm (heap s ! a) + ?d + 360) 360 \<rparr>] \<rparr>"
    have "inv ?s1" by (rule rotate_inv) (use assms(1) av in auto)
    moreover have "list_all (\<lambda>a. a < length (heap ?s1)) (pageSequence s)" using valid by simp
    ultimately have "inv (commitOrganize (pageSequence s) (elements s) ?s1)"
      by (rule commitOrganize_inv)
    moreover have "s' = commitOrganize (pageSequence s) (elements s) ?s1"
      using assms(2) ja Rotate by (simp add: organizeAction_def t_def [symmetric] Let_def)
    ultimately show ?thesis by simp
  next
    case Move
    let ?m = "if param = Some ''up'' then t - 1 else t + 1"
    show ?thesis
    proof (cases "?m \<ge> 0 \<and> ?m < int (length (pageSequence s))")
      case True
      let ?sq = "(pageSequence s)[nat t := pageSequence s ! nat ?m, nat ?m := pageSequence s ! nat t]"
      have "set ?sq \<subseteq> set (pageSequence s)"
      proof
        fix v assume "v \<in> set ?sq"
        then have "v = pageSequence s ! nat t \<or> v \<in> set ((pageSequence s)[nat t := pageSequence s ! nat ?m])"
          using set_update_subset_insert by fastforce
        then have "v = pageSequence s ! nat t \<or> v = pageSequence s ! nat ?m \<or> v \<in> set (pageSequence s)"
          using set_update_subset_insert by fastforce
        then show "v \<in> set (pageSequence s)" using t True by auto
      qed
      then have sqv: "list_all (\<lambda>a. a < length (heap s)) ?sq" using valid by (rule list_all_subset [rotated])
      have "inv (s\<lparr> currentPageIndex := ?m \<rparr>)"
        by (rule invI [of s]) (use assms(1) valid in \<open>simp_all add: inv_def\<close>)
      then have "inv (commitOrganize ?sq (elements s) (s\<lparr> currentPageIndex := ?m \<rparr>))"
        by (rule commitOrganize_inv) (use sqv in simp_all)
      moreover have "s' = commitOrganize ?sq (elements s) (s\<lparr> currentPageIndex := ?m \<rparr>)"
        using assms(2) ja Move True by (simp add: organizeAction_def t_def [symmetric] Let_def)
      ultimately show ?thesis by simp
    next
      case False
      have "s' = commitOrganize (pageSequence s) (elements s) s"
        using assms(2) ja Move False by (simp add: organizeAction_def t_def [symmetric] Let_def)
      then show ?thesis using assms(1) valid by (simp add: commitOrganize_inv)
    qed
  next
    case Delete
    show ?thesis
    proof (cases "length (pageSequence s) > 1")
      case True
      let ?sq = "snd (js_splice1 (pageSequence s) t)"
      let ?s1 = "s\<lparr> currentPageIndex := max 0 (t - 1) \<rparr>"
      have sqv: "list_all (\<lambda>a. a < length (heap s)) ?sq"
        using valid js_splice1_rest_set by (rule list_all_subset)
      have "inv ?s1"
        by (rule invI [of s]) (use assms(1) valid in \<open>simp_all add: inv_def\<close>)
      then have "inv (commitOrganize ?sq (filter (\<lambda>el. pageId el \<noteq> id_pm (heap s ! a)) (elements s)) ?s1)"
        by (rule commitOrganize_inv) (use sqv in simp_all)
      moreover have "s' = commitOrganize ?sq (filter (\<lambda>el. pageId el \<noteq> id_pm (heap s ! a)) (elements s)) ?s1"
        using assms(2) ja Delete True by (simp add: organizeAction_def t_def [symmetric] Let_def)
      ultimately show ?thesis by simp
    next
      case False
      have "s' = s\<lparr> alerts := alerts s @ [''Document must have at least one page.''] \<rparr>"
        using assms(2) ja Delete False by (simp add: organizeAction_def t_def [symmetric] Let_def)
      moreover have "inv (s\<lparr> alerts := alerts s @ [''Document must have at least one page.''] \<rparr>)"
        by (rule invI [of s]) (use assms(1) valid in \<open>simp_all add: inv_def\<close>)
      ultimately show ?thesis by simp
    qed
  next
    case Duplicate
    let ?s1 = "s\<lparr> heap := heap s @ [(heap s ! a)\<lparr> id_pm := newId \<rparr>], currentPageIndex := t + 1 \<rparr>"
    let ?sq = "js_insert (pageSequence s) (t + 1) (length (heap s))"
    have "rotationOk (heap s ! a)" using assms(1) av by (rule inv_rotationOk)
    then have r: "list_all rotationOk (heap ?s1)"
      using assms(1) by (simp add: inv_def rotationOk_def)
    have v1: "list_all (\<lambda>a. a < length (heap ?s1)) (pageSequence s)"
      using valid by (auto simp: list_all_iff)
    have i1: "inv ?s1"
      by (rule invI [of s]) (use assms(1) r v1 in \<open>simp_all\<close>)
    have sqv: "list_all (\<lambda>a. a < length (heap ?s1)) ?sq"
      using valid by (auto simp: list_all_iff js_insert_set)
    have "\<exists>es. s' = commitOrganize ?sq es ?s1"
      using assms(2) ja Duplicate by (auto simp: organizeAction_def t_def [symmetric] Let_def)
    then obtain es where "s' = commitOrganize ?sq es ?s1" by blast
    then show ?thesis using i1 sqv by (simp add: commitOrganize_inv)
  next
    case Blank
    let ?s1 = "s\<lparr> heap := heap s @ [\<lparr> id_pm = newId, originalIndex = - 1, rotation_pm = 0 \<rparr>], currentPageIndex := t + 1 \<rparr>"
    let ?sq = "js_insert (pageSequence s) (t + 1) (length (heap s))"
    have r: "list_all rotationOk (heap ?s1)"
      using assms(1) by (simp add: inv_def rotationOk_def)
    have v1: "list_all (\<lambda>a. a < length (heap ?s1)) (pageSequence s)"
      using valid by (auto simp: list_all_iff)
    have i1: "inv ?s1"
      by (rule invI [of s]) (use assms(1) r v1 in \<open>simp_all\<close>)
    have sqv: "list_all (\<lambda>a. a < length (heap ?s1)) ?sq"
      using valid by (auto simp: list_all_iff js_insert_set)
    have "s' = commitOrganize ?sq (elements s) ?s1"
      using assms(2) ja Blank by (simp add: organizeAction_def t_def [symmetric] Let_def)
    then show ?thesis using i1 sqv by (simp add: commitOrganize_inv)
  qed
qed

lemma handlePageDrop_inv:
  assumes "inv s" and "handlePageDrop sourceIndex targetIndex s = Inr s'"
  shows "inv s'"
proof (cases "s' = s")
  case True
  then show ?thesis using assms(1) by simp
next
  case False
  then obtain si moved removed where si: "sourceIndex = Some si"
    and sp: "fst (js_splice1 (pageSequence s) si) = moved # removed"
    and s': "s' = (saveToHistory (elements s)
                    (js_insert (snd (js_splice1 (pageSequence s) si)) targetIndex moved)
                    (s\<lparr> pageSequence := js_insert (snd (js_splice1 (pageSequence s) si)) targetIndex moved \<rparr>))
                  \<lparr> currentPageIndex := targetIndex \<rparr>"
    using assms(2)
    by (auto simp: handlePageDrop_def Let_def split: option.splits if_splits prod.splits list.splits)
  let ?sq = "js_insert (snd (js_splice1 (pageSequence s) si)) targetIndex moved"
  have valid: "list_all (\<lambda>a. a < length (heap s)) (pageSequence s)"
    using assms(1) by (rule inv_pageSequence)
  have "moved \<in> set (pageSequence s)"
    using js_splice1_removed_set [of "pageSequence s" si] sp by auto
  then have sqv: "list_all (\<lambda>a. a < length (heap s)) ?sq"
    using valid js_splice1_rest_set [of "pageSequence s" si]
    by (auto simp: list_all_iff js_insert_set)
  have "inv (s\<lparr> pageSequence := ?sq \<rparr>)"
    by (rule invI [of s]) (use assms(1) sqv in \<open>simp_all add: inv_def\<close>)
  then have i2: "inv (saveToHistory (elements s) ?sq (s\<lparr> pageSequence := ?sq \<rparr>))"
    by (rule saveToHistory_inv) (use sqv in simp)
  have "inv ((saveToHistory (elements s) ?sq (s\<lparr> pageSequence := ?sq \<rparr>))\<lparr> currentPageIndex := targetIndex \<rparr>)"
    by (rule invI [OF i2]) (use i2 in \<open>simp_all add: inv_def wellFormed_def\<close>)
  then show ?thesis using s' by simp
qed

lemma newDocument_inv: "inv s \<Longrightarrow> inv (newDocument newId s)"
  by (rule invI [of s]) (simp_all add: newDocument_def inv_def rotationOk_def)

lemma upt_valid: "list_all (\<lambda>a. a < n + k) [n ..< n + k]"
  by (simp add: list_all_iff)

lemma handleFileUpload_inv:
  assumes "inv s"
  shows "inv (handleFileUpload js file ids s)"
proof (cases "file")
  case None
  then show ?thesis using assms by (simp add: handleFileUpload_def)
next
  case (Some f)
  note fileSome = Some
  let ?s1 = "s\<lparr> isLoading := True, fileName := Some (name_f f),
                docTitle := stripExtension (name_f f), fileBytes := Some (data_f f) \<rparr>"
  have i1: "inv ?s1"
    by (rule invI [of s]) (use assms in \<open>simp_all add: inv_def wellFormed_def\<close>)
  show ?thesis
  proof (cases "getDocument js (data_f f)")
    case None
    have "inv (uploadDone (?s1\<lparr> alerts := alerts ?s1 @ [''Error loading PDF''] \<rparr>))"
      by (rule invI [OF i1]) (use i1 in \<open>simp_all add: inv_def wellFormed_def uploadDone_def\<close>)
    then show ?thesis using fileSome None by (simp add: handleFileUpload_def Let_def)
  next
    case (Some loadedPdf)
    let ?n = "numPages loadedPdf"
    let ?pages = "map (\<lambda>i. \<lparr> id_pm = ids i, originalIndex = int i + 1, rotation_pm = 0 \<rparr>) [0 ..< ?n]"
    let ?sq = "[length (heap s) ..< length (heap s) + ?n]"
    let ?s1' = "?s1\<lparr> heap := heap s @ ?pages, pdfDoc := Some loadedPdf, pageSequence := ?sq,
                     currentPageIndex := 0, elements := [] \<rparr>"
    have r: "list_all rotationOk (heap s @ ?pages)"
      using assms by (auto simp: inv_def list_all_iff rotationOk_def)
    have i1': "inv ?s1'"
      by (rule invI [of s]) (use assms r in \<open>simp_all add: upt_valid\<close>)
    have i2: "inv (saveToHistory [] ?sq ?s1')"
      by (rule saveToHistory_inv [OF i1']) (simp add: upt_valid)
    let ?s2 = "saveToHistory [] ?sq ?s1'"
    have a: "inv (uploadDone (?s2\<lparr> alerts := alerts ?s2 @ [''Error loading PDF''] \<rparr>))"
      by (rule invI [OF i2]) (use i2 in \<open>simp_all add: inv_def wellFormed_def uploadDone_def\<close>)
    have b: "inv (uploadDone (?s2\<lparr> documentText := dt \<rparr>))" for dt
      by (rule invI [OF i2]) (use i2 in \<open>simp_all add: inv_def wellFormed_def uploadDone_def\<close>)
    show ?thesis
      using fileSome Some a b
      by (simp add: handleFileUpload_def Let_def split: sum.splits)
  qed
qed

lemma handleDownload_inv: "inv s \<Longrightarrow> inv (handleDownload lib s)"
  by (rule invI [of s]) (simp_all add: handleDownload_def inv_def wellFormed_def split: sum.splits)

lemma flattenPDF_inv:
  assumes "inv s"
  shows "inv (flattenPDF lib js s)"
proof -
  have f1: "inv (flattenFailed s)"
    by (rule invI [of s]) (use assms in \<open>simp_all add: inv_def wellFormed_def flattenFailed_def\<close>)
  have f2: "inv (flattenFailed (s\<lparr> fileBytes := Some bs \<rparr>))" for bs
    by (rule invI [of s]) (use assms in \<open>simp_all add: inv_def wellFormed_def flattenFailed_def\<close>)
  have ok: "inv ((saveToHistory [] sq (s\<lparr> heap := heap s @ normalized, fileBytes := Some bs,
                     pdfDoc := Some loadedPdf, pageSequence := sq, elements := [] \<rparr>))
                   \<lparr> isSaving := False, alerts := al \<rparr>)"
    if "sq = [length (heap s) ..< length (heap s) + length (pageSequence s)]"
      and "normalized = map (\<lambda>(idx, p). p\<lparr> originalIndex := int idx + 1, rotation_pm := 0 \<rparr>)
                            (zip [0 ..< length (pageSequence s)] (pagesOf (heap s) (pageSequence s)))"
    for sq normalized bs loadedPdf al
  proof -
    let ?s1 = "s\<lparr> heap := heap s @ normalized, fileBytes := Some bs,
                     pdfDoc := Some loadedPdf, pageSequence := sq, elements := [] \<rparr>"
    have ln: "length normalized = length (pageSequence s)" using that by (simp add: pagesOf_def)
    have r: "list_all rotationOk (heap s @ normalized)"
      using assms that by (auto simp: inv_def list_all_iff rotationOk_def dest!: set_zip_rightD)
    have v: "list_all (\<lambda>a. a < length (heap s @ normalized)) sq"
      using that ln by (simp add: list_all_iff)
    have i1: "inv ?s1"
      by (rule invI [of s]) (use assms r v in simp_all)
    have i2: "inv (saveToHistory [] sq ?s1)"
      by (rule saveToHistory_inv [OF i1]) (use v in simp)
    show ?thesis
      by (rule invI [OF i2]) (use i2 in \<open>simp_all add: inv_def wellFormed_def\<close>)
  qed
  show ?thesis
    using assms f1 f2 ok
    by (simp add: flattenPDF_def Let_def split: sum.splits option.splits)
qed

lemma handleMouseMove_inv: "inv s \<Longrightarrow> inv (handleMouseMove e s)"
  by (rule invI [of s])
    (simp_all add: handleMouseMove_def updateSelectedRotation_def inv_def wellFormed_def Let_def
      split: option.splits prod.splits)

lemma handleMouseUp_inv:
  assumes "inv s"
  shows "inv (handleMouseUp e now s)"
proof -
  have valid: "list_all (\<lambda>a. a < length (heap s)) (pageSequence s)"
    using assms by (rule inv_pageSequence)
  have fin: "inv (s1\<lparr> isDragging := False, action := None, resizeDir := None,
               currentPoints := [], activePageId := None \<rparr>)" if "inv s1" for s1
    by (rule invI [OF that]) (use that in \<open>simp_all add: inv_def wellFormed_def\<close>)
  have sv: "inv (saveToHistory es (pageSequence s) (s\<lparr> elements := es' \<rparr>))" for es es'
  proof (rule saveToHistory_inv)
    show "inv (s\<lparr> elements := es' \<rparr>)"
      by (rule invI [of s]) (use assms valid in \<open>simp_all add: inv_def\<close>)
  qed (use valid in simp)
  have sv2: "inv (saveToHistory es (pageSequence s)
               (s\<lparr> elements := es', toolMode := tm, selectedId := sel \<rparr>))" for es es' tm sel
  proof (rule saveToHistory_inv)
    show "inv (s\<lparr> elements := es', toolMode := tm, selectedId := sel \<rparr>)"
      by (rule invI [of s]) (use assms valid in \<open>simp_all add: inv_def\<close>)
  qed (use valid in simp)
  have sv3: "inv (saveToHistory es (pageSequence s) s)" for es
    by (rule saveToHistory_inv) (use assms valid in simp_all)
  show ?thesis
    unfolding handleMouseUp_def Let_def
    using assms fin sv sv2 sv3 by (auto split: option.splits prod.splits)
qed

lemma step_inv: "inv s \<Longrightarrow> inv (step s ev)"
proof (cases ev)
  case (Organize ty param specificIndex newId cloneIds)
  assume "inv s"
  then show ?thesis
    using Organize organizeAction_inv [of s ty param specificIndex newId cloneIds]
    by (cases "organizeAction ty param specificIndex newId cloneIds s") (simp_all add: orElse_def)
next
  case (PageDrop si ti)
  assume "inv s"
  then show ?thesis
    using PageDrop handlePageDrop_inv [of s si ti]
    by (cases "handlePageDrop si ti s") (simp_all add: orElse_def)
next
  case Undo
  assume "inv s"
  then show ?thesis using Undo undo_inv [of s] by (cases "undo s") (simp_all add: orElse_def)
next
  case Redo
  assume "inv s"
  then show ?thesis using Redo redo_inv [of s] by (cases "redo s") (simp_all add: orElse_def)
next
  case (SaveToHistory es)
  assume "inv s"
  then show ?thesis using SaveToHistory by (simp add: saveToHistory_inv inv_pageSequence)
next
  case (ActionStart act dir start pId)
  assume i: "inv s"
  have "inv (actionStart act dir start pId s)"
    by (rule invI [OF i]) (use i in \<open>simp_all add: actionStart_def inv_def wellFormed_def\<close>)
  then show ?thesis using ActionStart by simp
next
  case (SetElements es)
  assume i: "inv s"
  have "inv (s\<lparr> elements := es \<rparr>)"
    by (rule invI [OF i]) (use i in \<open>simp_all add: inv_def wellFormed_def\<close>)
  then show ?thesis using SetElements by simp
next
  case (SelectElement sid)
  assume i: "inv s"
  have "inv (s\<lparr> selectedId := sid \<rparr>)"
    by (rule invI [OF i]) (use i in \<open>simp_all add: inv_def wellFormed_def\<close>)
  then show ?thesis using SelectElement by simp
next
  case (SetCurrentPage k)
  assume i: "inv s"
  have "inv (s\<lparr> currentPageIndex := k \<rparr>)"
    by (rule invI [OF i]) (use i in \<open>simp_all add: inv_def wellFormed_def\<close>)
  then show ?thesis using SetCurrentPage by simp
next
  case (SetToolMode m)
  assume i: "inv s"
  have "inv (s\<lparr> toolMode := m \<rparr>)"
    by (rule invI [OF i]) (use i in \<open>simp_all add: inv_def wellFormed_def\<close>)
  then show ?thesis using SetToolMode by simp
next
  case (SetWatermark wm)
  assume i: "inv s"
  have "inv (s\<lparr> watermarkText := wm \<rparr>)"
    by (rule invI [OF i]) (use i in \<open>simp_all add: inv_def wellFormed_def\<close>)
  then show ?thesis using SetWatermark by simp
next
  case (SetPageNumbering cfg)
  assume i: "inv s"
  have "inv (s\<lparr> pageNumbering := cfg \<rparr>)"
    by (rule invI [OF i]) (use i in \<open>simp_all add: inv_def wellFormed_def\<close>)
  then show ?thesis using SetPageNumbering by simp
next
  case ZoomOut
  assume i: "inv s"
  then show ?thesis using ZoomOut by (simp add: inv_def wellFormed_def historyOk_def)
next
  case ZoomIn
  assume i: "inv s"
  then show ?thesis using ZoomIn by (simp add: inv_def wellFormed_def historyOk_def)
qed (simp_all add: handleFileUpload_inv newDocument_inv handleMouseMove_inv handleMouseUp_inv
      flattenPDF_inv handleDownload_inv)

lemma initialState_inv: "inv initialState"
  by (simp add: inv_def initialState_def wellFormed_def historyOk_def)

lemma foldl_step_inv: "inv s \<Longrightarrow> inv (foldl step s evs)"
  by (induction evs arbitrary: s) (simp_all add: step_inv)

lemma run_inv: "inv (run evs)"
  by (simp add: run_def foldl_step_inv initialState_inv)

lemma reachable_historyOk: "historyOk (run evs)"
  using run_inv [of evs] by (simp add: inv_def)

lemma reachable_wellFormed: "wellFormed (run evs)"
  using run_inv [of evs] by (simp add: inv_def)

lemma pagesOf_append: "list_all (\<lambda>a. a < length h) sq \<Longrightarrow> pagesOf (h @ h') sq = pagesOf h sq"
  by (auto simp: pagesOf_def list_all_iff nth_append)

lemma pagesOf_clones:
  "list_all (\<lambda>a. a < length h) sq \<Longrightarrow>
     pagesOf (h @ pagesOf h sq) [length h ..< length h + length sq] = pagesOf h sq"
  by (rule nth_equalityI) (simp_all add: pagesOf_def nth_append)

lemma saveToHistory_last:
  "last (history (saveToHistory es sq s))
     = \<lparr> elements_h = es, sequence_h = [length (heap s) ..< length (heap s) + length sq] \<rparr>"
  by (simp add: saveToHistory_eq capped_last pushed_nonempty) (simp add: pushed_def)

lemma saveToHistory_index:
  "historyIndex (saveToHistory es sq s) = int (length (history (saveToHistory es sq s))) - 1
   \<and> history (saveToHistory es sq s) \<noteq> []"
  by (simp add: saveToHistory_eq capped_nonempty pushed_nonempty)

subsection \<open>The bounded history\<close>

text \<open>
  C10. In every state the editor reaches, the history holds at most 30 snapshots.
  \<open>saveToHistory\<close> on such a state keeps the entries up to the current index, appends
  one snapshot and drops the oldest entry when that makes 31, so the history still holds
  at most 30; the history index is the last position, and the entry there is the one
  just appended. That snapshot holds the given elements and, for the given page sequence,
  page objects that are equal to the originals but are new objects of the store.
\<close>

theorem history_bounded:
  assumes "s = run evs" and "s' = saveToHistory newElements newSequence s"
    and "list_all (\<lambda>a. a < length (heap s)) newSequence"
  shows "length (history s) \<le> 30 \<and> length (history s') \<le> 30
     \<and> history s' =
         (let kept = take (nat (historyIndex s + 1)) (history s) @ [last (history s')]
          in if length kept > 30 then tl kept else kept)
     \<and> historyIndex s' = int (length (history s')) - 1
     \<and> history s' ! nat (historyIndex s') = last (history s')
     \<and> elements_h (last (history s')) = newElements
     \<and> pagesOf (heap s') (sequence_h (last (history s'))) = pagesOf (heap s) newSequence
     \<and> list_all (\<lambda>a. length (heap s) \<le> a) (sequence_h (last (history s')))"
proof -
  have i: "inv s" using assms(1) run_inv by simp
  then have i': "inv s'" using assms(2,3) by (simp add: saveToHistory_inv)
  have ok: "- 1 \<le> historyIndex s" using i by (simp add: inv_def historyOk_def)
  have l: "last (history s') = \<lparr> elements_h = newElements,
      sequence_h = [length (heap s) ..< length (heap s) + length newSequence] \<rparr>"
    using assms(2) by (simp add: saveToHistory_last)
  have h: "history s' =
         (let kept = take (nat (historyIndex s + 1)) (history s) @ [last (history s')]
          in if length kept > 30 then tl kept else kept)"
    unfolding l using assms(2) ok
    by (simp add: saveToHistory_eq capped_def pushed_def js_slice0_nonneg Let_def)
  have idx: "historyIndex s' = int (length (history s')) - 1" "history s' \<noteq> []"
    using assms(2) saveToHistory_index by simp_all
  have nth: "history s' ! nat (historyIndex s') = last (history s')"
  proof -
    have "nat (int (length (history s')) - 1) = length (history s') - 1" by arith
    then show ?thesis using idx by (simp add: last_conv_nth)
  qed
  have hp: "heap s' = heap s @ pagesOf (heap s) newSequence"
    using assms(2) by (simp add: saveToHistory_eq)
  have pg: "pagesOf (heap s') (sequence_h (last (history s'))) = pagesOf (heap s) newSequence"
    unfolding l hp using assms(3) by (simp add: pagesOf_clones)
  have fresh: "list_all (\<lambda>a. length (heap s) \<le> a) (sequence_h (last (history s')))"
    unfolding l by (simp add: list_all_iff)
  show ?thesis
    using i i' h idx(1) nth l pg fresh by (simp add: inv_def)
qed

lemma exBusy_vals:
  "length (history (run exBusy)) = 30 \<and> historyIndex (run exBusy) = 29
   \<and> length (history (saveToHistory [exEl] [] (run exBusy))) = 30
   \<and> historyIndex (saveToHistory [exEl] [] (run exBusy)) = 29
   \<and> map elements_h (drop 28 (history (saveToHistory [exEl] [] (run exBusy)))) = [[], [exEl]]"
  by (simp add: exBusy_def run_def initialState_def saveToHistory_eq pushed_def capped_def
      js_slice0_def pagesOf_def eval_nat_numeral)

theorem history_bounded_witness:
  "list_all (\<lambda>a. a < length (heap (run exBusy))) []
   \<and> length (history (run exBusy)) = 30
   \<and> length (history (saveToHistory [exEl] [] (run exBusy))) = 30
   \<and> historyIndex (saveToHistory [exEl] [] (run exBusy)) = 29
   \<and> elements_h (last (history (saveToHistory [exEl] [] (run exBusy)))) = [exEl]"
  using history_bounded [where s = "run exBusy" and evs = exBusy
      and s' = "saveToHistory [exEl] [] (run exBusy)" and newElements = "[exEl]" and newSequence = "[]"]
    exBusy_vals
  by simp

lemma commitOrganize_fields:
  "heap (commitOrganize sq es s) = heap s @ pagesOf (heap s) sq
   \<and> pageSequence (commitOrganize sq es s) = sq
   \<and> elements (commitOrganize sq es s) = es"
  by (simp add: commitOrganize_def saveToHistory_eq)

lemma rotate_effect:
  assumes "js_index (pageSequence s) (case specificIndex of Some i \<Rightarrow> i | None \<Rightarrow> currentPageIndex s) = Some a"
    and "a < length (heap s)"
  shows "\<exists>s'. organizeAction Rotate param specificIndex newId cloneIds s = Inr s'
           \<and> rotation_pm (heap s' ! a)
               = js_rem (rotation_pm (heap s ! a) + (if param = Some ''cw'' then 90 else - 90) + 360) 360"
  using assms
  by (simp add: organizeAction_def Let_def commitOrganize_fields nth_append)

lemma upload_pages:
  assumes "getDocument js (data_f f) = Some loadedPdf"
  shows "pagesOf (heap (handleFileUpload js (Some f) ids s)) (pageSequence (handleFileUpload js (Some f) ids s))
           = map (\<lambda>i. \<lparr> id_pm = ids i, originalIndex = int i + 1, rotation_pm = 0 \<rparr>) [0 ..< numPages loadedPdf]"
proof -
  let ?n = "numPages loadedPdf"
  let ?pages = "map (\<lambda>i. \<lparr> id_pm = ids i, originalIndex = int i + 1, rotation_pm = 0 \<rparr>) [0 ..< ?n]"
  let ?sq = "[length (heap s) ..< length (heap s) + ?n]"
  have "pagesOf ((heap s @ ?pages) @ h') ?sq = ?pages" for h'
    by (rule nth_equalityI) (simp_all add: pagesOf_def nth_append)
  then show ?thesis
    using assms
    by (simp add: handleFileUpload_def Let_def uploadDone_def saveToHistory_eq split: sum.splits)
qed

subsection \<open>Page rotation\<close>

text \<open>
  C8. In every state the editor reaches, every page of the page sequence and of every
  history entry is an object of the store whose rotation is 0, 90, 180 or 270. The
  remainder \<open>(r + d + 360) % 360\<close> stays in that set for \<open>d\<close> = 90 and -90; the rotate
  action sets the rotation of its target page to that remainder, with 90 for \<open>'cw'\<close> and
  -90 otherwise; the pages of an opened file and of a new document have rotation 0.
\<close>

theorem page_rotation_invariant:
  "(\<forall>a \<in> set (pageSequence (run evs)).
      a < length (heap (run evs)) \<and> rotation_pm (heap (run evs) ! a) \<in> {0, 90, 180, 270})
   \<and> (\<forall>snap \<in> set (history (run evs)). \<forall>a \<in> set (sequence_h snap).
         a < length (heap (run evs)) \<and> rotation_pm (heap (run evs) ! a) \<in> {0, 90, 180, 270})
   \<and> (\<forall>r \<in> {0, 90, 180, 270}. \<forall>d \<in> {90, - 90}. js_rem (r + d + 360) 360 \<in> {0, 90, 180, 270})
   \<and> (js_index (pageSequence (run evs))
         (case specificIndex of Some i \<Rightarrow> i | None \<Rightarrow> currentPageIndex (run evs)) = Some a
       \<longrightarrow> (\<exists>s'. organizeAction Rotate param specificIndex newId cloneIds (run evs) = Inr s'
              \<and> rotation_pm (heap s' ! a)
                  = js_rem (rotation_pm (heap (run evs) ! a)
                      + (if param = Some ''cw'' then 90 else - 90) + 360) 360))
   \<and> (getDocument js (data_f f) = Some loadedPdf
       \<longrightarrow> list_all (\<lambda>p. rotation_pm p = 0)
             (pagesOf (heap (handleFileUpload js (Some f) ids s))
                (pageSequence (handleFileUpload js (Some f) ids s))))
   \<and> rotation_pm (heap (newDocument newId s) ! hd (pageSequence (newDocument newId s))) = 0"
proof -
  have i: "inv (run evs)" by (rule run_inv)
  have v: "\<forall>a \<in> set (pageSequence (run evs)). a < length (heap (run evs))"
    using i by (simp add: inv_def wellFormed_def list_all_iff)
  have hv: "\<forall>snap \<in> set (history (run evs)). \<forall>a \<in> set (sequence_h snap). a < length (heap (run evs))"
    using i by (simp add: inv_def wellFormed_def list_all_iff)
  have r: "a < length (heap (run evs)) \<Longrightarrow> rotation_pm (heap (run evs) ! a) \<in> {0, 90, 180, 270}" for a
    using inv_rotationOk [OF i, of a] by (simp add: rotationOk_def)
  have m: "\<forall>r \<in> {0, 90, 180, 270}. \<forall>d \<in> {90, - 90}. js_rem (r + d + 360) 360 \<in> {0, 90, 180, 270}"
    by (simp add: js_rem_def)
  have rot: "js_index (pageSequence (run evs))
         (case specificIndex of Some i \<Rightarrow> i | None \<Rightarrow> currentPageIndex (run evs)) = Some a
       \<longrightarrow> (\<exists>s'. organizeAction Rotate param specificIndex newId cloneIds (run evs) = Inr s'
              \<and> rotation_pm (heap s' ! a)
                  = js_rem (rotation_pm (heap (run evs) ! a)
                      + (if param = Some ''cw'' then 90 else - 90) + 360) 360)"
  proof
    assume j: "js_index (pageSequence (run evs))
         (case specificIndex of Some i \<Rightarrow> i | None \<Rightarrow> currentPageIndex (run evs)) = Some a"
    then have "a \<in> set (pageSequence (run evs))"
      by (auto simp: js_index_def split: if_splits)
    then have "a < length (heap (run evs))" using v by simp
    then show "\<exists>s'. organizeAction Rotate param specificIndex newId cloneIds (run evs) = Inr s'
              \<and> rotation_pm (heap s' ! a)
                  = js_rem (rotation_pm (heap (run evs) ! a)
                      + (if param = Some ''cw'' then 90 else - 90) + 360) 360"
      using j by (rule rotate_effect [rotated])
  qed
  have up: "getDocument js (data_f f) = Some loadedPdf
       \<longrightarrow> list_all (\<lambda>p. rotation_pm p = 0)
             (pagesOf (heap (handleFileUpload js (Some f) ids s))
                (pageSequence (handleFileUpload js (Some f) ids s)))"
    by (simp add: upload_pages list_all_iff)
  have nd: "rotation_pm (heap (newDocument newId s) ! hd (pageSequence (newDocument newId s))) = 0"
    by (simp add: newDocument_def)
  show ?thesis using v hv r m rot up nd by blast
qed

lemma exEvents_run:
  "pageSequence (run exEvents) = [0, 1] \<and> currentPageIndex (run exEvents) = 1
   \<and> map rotation_pm (take 2 (heap (run exEvents))) = [270, 180]
   \<and> length (heap (run exEvents)) = 10"
  by (simp add: exEvents_def run_def initialState_def newDocument_def organizeAction_def
      js_index_def js_insert_def js_start_def js_rem_def commitOrganize_def saveToHistory_eq
      pushed_def capped_def js_slice0_def pagesOf_def orElse_def Let_def)

lemma organizeAction_shape:
  assumes valid: "list_all (\<lambda>a. a < length (heap s)) (pageSequence s)"
    and res: "organizeAction ty param specificIndex newId cloneIds s = Inr s'"
  shows "s' = s\<lparr> alerts := alerts s @ [''Document must have at least one page.''] \<rparr>
       \<or> (\<exists>h1 sq es c. s' = (commitOrganize sq es (s\<lparr> heap := h1 \<rparr>))\<lparr> currentPageIndex := c \<rparr>
             \<and> list_all (\<lambda>a. a < length h1) sq)"
proof -
  define t where "t = (case specificIndex of Some i \<Rightarrow> i | None \<Rightarrow> currentPageIndex s)"
  obtain a where ja: "js_index (pageSequence s) t = Some a"
    using res by (auto simp: organizeAction_def t_def Let_def split: option.splits)
  then have t: "0 \<le> t" "t < int (length (pageSequence s))" and a: "a = pageSequence s ! nat t"
    by (auto simp: js_index_def split: if_splits)
  have shape: "\<exists>h1 sq es c. s' = (commitOrganize sq es (s\<lparr> heap := h1 \<rparr>))\<lparr> currentPageIndex := c \<rparr>
             \<and> list_all (\<lambda>a. a < length h1) sq"
    if "s' = commitOrganize sq es (s\<lparr> heap := h1, currentPageIndex := c \<rparr>)"
      and "list_all (\<lambda>a. a < length h1) sq" for h1 sq es c
  proof -
    have "commitOrganize sq es (s\<lparr> heap := h1, currentPageIndex := c \<rparr>)
            = (commitOrganize sq es (s\<lparr> heap := h1 \<rparr>))\<lparr> currentPageIndex := c \<rparr>"
      by (simp add: commitOrganize_def saveToHistory_eq pushed_def)
    then show ?thesis using that by metis
  qed
  show ?thesis
  proof (cases ty)
    case Rotate
    let ?h1 = "(heap s)[a := (heap s ! a)\<lparr> rotation_pm := js_rem (rotation_pm (heap s ! a)
                  + (if param = Some ''cw'' then 90 else - 90) + 360) 360 \<rparr>]"
    have "s' = commitOrganize (pageSequence s) (elements s)
                 (s\<lparr> heap := ?h1, currentPageIndex := currentPageIndex s \<rparr>)"
      using res ja Rotate by (simp add: organizeAction_def t_def [symmetric] Let_def)
    moreover have "list_all (\<lambda>a. a < length ?h1) (pageSequence s)" using valid by simp
    ultimately show ?thesis using shape by blast
  next
    case Move
    let ?m = "if param = Some ''up'' then t - 1 else t + 1"
    show ?thesis
    proof (cases "?m \<ge> 0 \<and> ?m < int (length (pageSequence s))")
      case True
      let ?sq = "(pageSequence s)[nat t := pageSequence s ! nat ?m, nat ?m := pageSequence s ! nat t]"
      have "set ?sq \<subseteq> set (pageSequence s)"
      proof
        fix v assume "v \<in> set ?sq"
        then have "v = pageSequence s ! nat t \<or> v \<in> set ((pageSequence s)[nat t := pageSequence s ! nat ?m])"
          using set_update_subset_insert by fastforce
        then have "v = pageSequence s ! nat t \<or> v = pageSequence s ! nat ?m \<or> v \<in> set (pageSequence s)"
          using set_update_subset_insert by fastforce
        then show "v \<in> set (pageSequence s)" using t True by auto
      qed
      then have sqv: "list_all (\<lambda>a. a < length (heap s)) ?sq" using valid by (rule list_all_subset [rotated])
      have "s' = commitOrganize ?sq (elements s) (s\<lparr> heap := heap s, currentPageIndex := ?m \<rparr>)"
        using res ja Move True by (simp add: organizeAction_def t_def [symmetric] Let_def)
      then show ?thesis using shape sqv by blast
    next
      case False
      have "s' = commitOrganize (pageSequence s) (elements s)
                   (s\<lparr> heap := heap s, currentPageIndex := currentPageIndex s \<rparr>)"
        using res ja Move False by (simp add: organizeAction_def t_def [symmetric] Let_def)
      then show ?thesis using shape valid by blast
    qed
  next
    case Delete
    show ?thesis
    proof (cases "length (pageSequence s) > 1")
      case True
      let ?sq = "snd (js_splice1 (pageSequence s) t)"
      have sqv: "list_all (\<lambda>a. a < length (heap s)) ?sq"
        using valid js_splice1_rest_set by (rule list_all_subset)
      have "s' = commitOrganize ?sq (filter (\<lambda>el. pageId el \<noteq> id_pm (heap s ! a)) (elements s))
                   (s\<lparr> heap := heap s, currentPageIndex := max 0 (t - 1) \<rparr>)"
        using res ja Delete True by (simp add: organizeAction_def t_def [symmetric] Let_def)
      then show ?thesis using shape sqv by blast
    next
      case False
      have "s' = s\<lparr> alerts := alerts s @ [''Document must have at least one page.''] \<rparr>"
        using res ja Delete False by (simp add: organizeAction_def t_def [symmetric] Let_def)
      then show ?thesis by simp
    qed
  next
    case Duplicate
    let ?h1 = "heap s @ [(heap s ! a)\<lparr> id_pm := newId \<rparr>]"
    let ?sq = "js_insert (pageSequence s) (t + 1) (length (heap s))"
    have sqv: "list_all (\<lambda>a. a < length ?h1) ?sq"
      using valid by (auto simp: list_all_iff js_insert_set)
    have "\<exists>es. s' = commitOrganize ?sq es (s\<lparr> heap := ?h1, currentPageIndex := t + 1 \<rparr>)"
      using res ja Duplicate by (auto simp: organizeAction_def t_def [symmetric] Let_def)
    then show ?thesis using shape sqv by blast
  next
    case Blank
    let ?h1 = "heap s @ [\<lparr> id_pm = newId, originalIndex = - 1, rotation_pm = 0 \<rparr>]"
    let ?sq = "js_insert (pageSequence s) (t + 1) (length (heap s))"
    have sqv: "list_all (\<lambda>a. a < length ?h1) ?sq"
      using valid by (auto simp: list_all_iff js_insert_set)
    have "s' = commitOrganize ?sq (elements s) (s\<lparr> heap := ?h1, currentPageIndex := t + 1 \<rparr>)"
      using res ja Blank by (simp add: organizeAction_def t_def [symmetric] Let_def)
    then show ?thesis using shape sqv by blast
  qed
qed

lemma handlePageDrop_shape:
  assumes valid: "list_all (\<lambda>a. a < length (heap s)) (pageSequence s)"
    and res: "handlePageDrop sourceIndex targetIndex s = Inr s'"
  shows "s' = s
       \<or> (\<exists>h1 sq es c. s' = (commitOrganize sq es (s\<lparr> heap := h1 \<rparr>))\<lparr> currentPageIndex := c \<rparr>
             \<and> list_all (\<lambda>a. a < length h1) sq)"
proof (cases "s' = s")
  case True
  then show ?thesis by simp
next
  case False
  then obtain si moved removed where si: "sourceIndex = Some si"
    and sp: "fst (js_splice1 (pageSequence s) si) = moved # removed"
    and s': "s' = (saveToHistory (elements s)
                    (js_insert (snd (js_splice1 (pageSequence s) si)) targetIndex moved)
                    (s\<lparr> pageSequence := js_insert (snd (js_splice1 (pageSequence s) si)) targetIndex moved \<rparr>))
                  \<lparr> currentPageIndex := targetIndex \<rparr>"
    using res
    by (auto simp: handlePageDrop_def Let_def split: option.splits if_splits prod.splits list.splits)
  let ?sq = "js_insert (snd (js_splice1 (pageSequence s) si)) targetIndex moved"
  have "moved \<in> set (pageSequence s)"
    using js_splice1_removed_set [of "pageSequence s" si] sp by auto
  then have sqv: "list_all (\<lambda>a. a < length (heap s)) ?sq"
    using valid js_splice1_rest_set [of "pageSequence s" si]
    by (auto simp: list_all_iff js_insert_set)
  have "s' = (commitOrganize ?sq (elements s) (s\<lparr> heap := heap s \<rparr>))\<lparr> currentPageIndex := targetIndex \<rparr>"
    using s' by (simp add: commitOrganize_def saveToHistory_eq pushed_def)
  then show ?thesis using sqv by blast
qed

lemma committed_frame:
  assumes "s' = (commitOrganize sq es (s\<lparr> heap := h1 \<rparr>))\<lparr> currentPageIndex := c \<rparr>"
    and "list_all (\<lambda>a. a < length h1) sq"
  shows "fileBytes s' = fileBytes s \<and> pdfDoc s' = pdfDoc s
     \<and> s' = s\<lparr> heap := heap s', pageSequence := pageSequence s', elements := elements s',
                history := history s', historyIndex := historyIndex s',
                currentPageIndex := currentPageIndex s', alerts := alerts s' \<rparr>
     \<and> alerts s' = alerts s
     \<and> history s' \<noteq> [] \<and> historyIndex s' = int (length (history s')) - 1
     \<and> elements_h (last (history s')) = elements s'
     \<and> pagesOf (heap s') (sequence_h (last (history s'))) = pagesOf (heap s') (pageSequence s')"
proof -
  have l: "last (history s') = \<lparr> elements_h = es, sequence_h = [length h1 ..< length h1 + length sq] \<rparr>"
    using assms(1) saveToHistory_last [of es sq "s\<lparr> heap := h1, pageSequence := sq, elements := es \<rparr>"]
    by (simp add: commitOrganize_def)
  have idx: "history s' \<noteq> [] \<and> historyIndex s' = int (length (history s')) - 1"
    using assms(1) saveToHistory_index [of es sq "s\<lparr> heap := h1, pageSequence := sq, elements := es \<rparr>"]
    by (simp add: commitOrganize_def)
  have f: "heap s' = h1 @ pagesOf h1 sq" "pageSequence s' = sq" "elements s' = es"
    using assms(1) by (simp_all add: commitOrganize_fields)
  have pg: "pagesOf (heap s') (sequence_h (last (history s'))) = pagesOf (heap s') (pageSequence s')"
    unfolding l f using assms(2) by (simp add: pagesOf_clones pagesOf_append)
  have fr: "fileBytes s' = fileBytes s \<and> pdfDoc s' = pdfDoc s \<and> alerts s' = alerts s
     \<and> s' = s\<lparr> heap := heap s', pageSequence := pageSequence s', elements := elements s',
                history := history s', historyIndex := historyIndex s',
                currentPageIndex := currentPageIndex s', alerts := alerts s' \<rparr>"
    using assms(1) by (simp add: commitOrganize_def saveToHistory_eq)
  have el: "elements_h (last (history s')) = elements s'" using l f by simp
  show ?thesis using idx pg fr el by blast
qed

subsection \<open>The example document\<close>

lemma exLoaded_eq:
  "exLoaded = initialState\<lparr>
      heap := [\<lparr> id_pm = ''pA'', originalIndex = 1, rotation_pm = 0 \<rparr>,
               \<lparr> id_pm = ''pB'', originalIndex = 2, rotation_pm = 0 \<rparr>,
               \<lparr> id_pm = ''pA'', originalIndex = 1, rotation_pm = 0 \<rparr>,
               \<lparr> id_pm = ''pB'', originalIndex = 2, rotation_pm = 0 \<rparr>],
      pdfDoc := Some \<lparr> numPages = 2, source_bytes = exBytes \<rparr>,
      fileBytes := Some exBytes, pageSequence := [0, 1],
      docTitle := ''report'', fileName := Some ''report.pdf'',
      documentText := ''Hello world'' @ [CHR 0x0A] @ ''Hello world'' @ [CHR 0x0A],
      history := [\<lparr> elements_h = [], sequence_h = [2, 3] \<rparr>], historyIndex := 0 \<rparr>"
  by (simp add: exLoaded_def run_def handleFileUpload_def exJs_def exFile_def exIds_def
      initialState_def uploadDone_def extractText_def stripExtension_def saveToHistory_eq
      pushed_def capped_def js_slice0_def pagesOf_def bindE_def Let_def upt_rec)

theorem page_rotation_invariant_witness:
  "pageSequence (run exEvents) = [0, 1]
   \<and> map (\<lambda>a. rotation_pm (heap (run exEvents) ! a)) (pageSequence (run exEvents)) = [270, 180]
   \<and> js_index (pageSequence (run exEvents)) 0 = Some 0
   \<and> (\<exists>s'. organizeAction Rotate (Some ''cw'') (Some 0) ''n'' (\<lambda>k. ''c'') (run exEvents) = Inr s'
         \<and> rotation_pm (heap s' ! 0) = 0)
   \<and> getDocument exJs (data_f exFile) = Some \<lparr> numPages = 2, source_bytes = exBytes \<rparr>
   \<and> map rotation_pm (pagesOf (heap exLoaded) (pageSequence exLoaded)) = [0, 0]"
proof -
  have r: "rotation_pm (heap (run exEvents) ! 0) = 270 \<and> rotation_pm (heap (run exEvents) ! 1) = 180"
    using exEvents_run by (cases "heap (run exEvents)"; cases "tl (heap (run exEvents))"; simp)
  have j: "js_index (pageSequence (run exEvents)) 0 = Some 0"
    using exEvents_run by (simp add: js_index_def)
  have g: "getDocument exJs (data_f exFile) = Some \<lparr> numPages = 2, source_bytes = exBytes \<rparr>"
    by (simp add: exJs_def exFile_def)
  from page_rotation_invariant [where evs = exEvents and specificIndex = "Some 0" and a = 0
      and param = "Some ''cw''" and newId = "''n''" and cloneIds = "\<lambda>k. ''c''"
      and js = exJs and f = exFile and loadedPdf = "\<lparr> numPages = 2, source_bytes = exBytes \<rparr>"
      and ids = exIds and s = initialState]
    r j g exEvents_run
  show ?thesis
    by (auto simp: js_rem_def exLoaded_eq initialState_def pagesOf_def)
qed

subsection \<open>The steps of the export\<close>

text \<open>
  Calls in sequence succeed exactly when each of them does.
\<close>

lemma bindE_Inr: "bindE m f = Inr r \<longleftrightarrow> (\<exists>v. m = Inr v \<and> f v = Inr r)"
  by (cases m) (simp_all add: bindE_def)

lemma bindE_isl: "isl (bindE m f) \<longleftrightarrow> isl m \<or> isl (f (projr m))"
  by (cases m) (simp_all add: bindE_def)



lemma forIndexE_Inr:
  "forIndexE f i xs = Inr r \<longleftrightarrow>
     (\<forall>k < length xs. \<not> isl (f (i + k) (xs ! k)))
     \<and> r = map (\<lambda>k. projr (f (i + k) (xs ! k))) [0 ..< length xs]"
proof (induction xs arbitrary: i r)
  case Nil
  then show ?case by auto
next
  case (Cons v vs)
  have split_all: "(\<forall>k < Suc (length vs). P k) \<longleftrightarrow> P 0 \<and> (\<forall>k < length vs. P (Suc k))" for P
    by (auto simp: less_Suc_eq_0_disj)
  have map_eq: "map g [0 ..< Suc (length vs)] = g 0 # map (\<lambda>k. g (Suc k)) [0 ..< length vs]" for g :: "nat \<Rightarrow> 'c"
    by (simp add: upt_conv_Cons map_Suc_upt [symmetric] del: upt_Suc)
  show ?case
  proof (cases "f i v")
    case (Inl e)
    then show ?thesis by (auto simp: bindE_def)
  next
    case (Inr p)
    show ?thesis
      using Inr Cons.IH [of "Suc i"]
      by (cases "forIndexE f (Suc i) vs")
         (auto simp: bindE_def split_all map_eq simp del: upt_Suc)
  qed
qed

lemma forIndexE_isl:
  "isl (forIndexE f i xs) \<longleftrightarrow> (\<exists>k < length xs. isl (f (i + k) (xs ! k)))"
proof (cases "forIndexE f i xs")
  case (Inl e)
  then have "\<not> (\<forall>k < length xs. \<not> isl (f (i + k) (xs ! k)))"
    using forIndexE_Inr [of f i xs] by (metis sum.distinct(1))
  then show ?thesis using Inl by auto
next
  case (Inr r)
  then show ?thesis using forIndexE_Inr [of f i xs r] by auto
qed

text \<open>
  The code agrees with the geometry of the specification: \<open>getRotatedXY\<close> turns a point
  about the centre of the element, and the drawing calls of an element are the claimed
  drawing.
\<close>

lemma getRotatedXY_rotateAbout:
  "getRotatedXY a cx cy px py = rotateAbout (cx, cy) a (px, py)"
  by (simp add: getRotatedXY_def rotateAbout_def Let_def algebra_simps)

lemma replayElement_claimed:
  "replayElement lib sc h el =
     (case claimedDrawing sc h el of
        None \<Rightarrow> Inr []
      | Some d \<Rightarrow>
          if type_el el = Image then
            (if (if js_includes (the (src el)) ''png'' then embedPngOk lib (the (src el))
                 else embedJpgOk lib (the (src el))) \<and> drawOk lib d
             then Inr [d] else Inr [])
          else draw lib d)"
  by (cases "type_el el")
     (simp_all add: replayElement_def claimedDrawing_def claimedBox_def claimedCenter_def
       claimedAngle_def elementFont_def getRotatedXY_rotateAbout Let_def)

lemma redactElement_claimed:
  "redactElement lib sc h el = draw lib (claimedRedaction sc h el)"
  by (simp add: redactElement_def claimedRedaction_def claimedBox_def claimedCenter_def
      claimedAngle_def rotateAbout_def Let_def algebra_simps)




subsection \<open>Replayed geometry\<close>



subsection \<open>The export, page by page\<close>

text \<open>
  The replay of one element fails only on a required drawing; otherwise it yields the
  drawings of \<open>drawnFor\<close>.
\<close>

lemma replayElement_cases:
  "replayElement lib sc h el =
     (if list_all (drawOk lib) (requiredDrawing sc h el) then Inr (drawnFor lib sc h el)
      else Inl (LibraryError ''draw''))"
  unfolding replayElement_claimed
  by (cases "claimedDrawing sc h el")
     (auto simp: requiredDrawing_def drawnFor_def imageEmbeds_def draw_def claimedDrawing_def
       Let_def split: prod.splits ToolMode.splits if_splits)

lemma redactElement_cases:
  "redactElement lib sc h el =
     (if drawOk lib (claimedRedaction sc h el) then Inr [claimedRedaction sc h el]
      else Inl (LibraryError ''draw''))"
  by (simp add: redactElement_claimed draw_def)

lemma concat_singletons: "concat (map (\<lambda>v. [g v]) xs) = map g xs"
  by (induction xs) simp_all

lemma concatMapE_all:
  assumes "\<And>v. f v = (if P v then Inr (g v) else Inl e)"
  shows "concatMapE f xs = (if list_all P xs then Inr (concat (map g xs)) else Inl e)"
proof (induction xs)
  case Nil
  then show ?case by simp
next
  case (Cons v vs)
  then show ?case by (simp add: assms bindE_def)
qed

lemma concat_skip:
  assumes "\<And>v. \<not> Q v \<Longrightarrow> g v = []"
  shows "concat (map g xs) = concat (map g (filter Q xs))"
  by (induction xs) (simp_all add: assms)

lemma list_all_concat_skip:
  assumes "\<And>v. \<not> Q v \<Longrightarrow> g v = []"
  shows "list_all (\<lambda>v. list_all P (g v)) xs = list_all P (concat (map g (filter Q xs)))"
  by (induction xs) (simp_all add: assms)

lemma drawOverlays_cases:
  "drawOverlays lib s i meta page =
     (if list_all (drawOk lib) (requiredOps lib s i meta (pageW page) (pageH page))
      then Inr (page\<lparr> ops := ops page @ overlayOps lib s i meta (pageW page) (pageH page) \<rparr>)
      else Inl (LibraryError ''draw''))"
proof -
  let ?els = "filter (\<lambda>el. pageId el = id_pm meta) (elements s)"
  let ?h = "pageH page"
  have a: "concatMapE (replayElement lib (scale s) ?h) ?els
      = (if list_all (\<lambda>el. list_all (drawOk lib) (requiredDrawing (scale s) ?h el)) ?els
         then Inr (concat (map (drawnFor lib (scale s) ?h) ?els)) else Inl (LibraryError ''draw''))"
    by (rule concatMapE_all) (rule replayElement_cases)
  have b: "concatMapE (redactElement lib (scale s) ?h) (filter (\<lambda>e. type_el e = Redact) ?els)
      = (if list_all (\<lambda>el. drawOk lib (claimedRedaction (scale s) ?h el)) (filter (\<lambda>e. type_el e = Redact) ?els)
         then Inr (concat (map (\<lambda>el. [claimedRedaction (scale s) ?h el]) (filter (\<lambda>e. type_el e = Redact) ?els)))
         else Inl (LibraryError ''draw''))"
    by (rule concatMapE_all) (rule redactElement_cases)
  have red_none: "type_el el = Redact \<Longrightarrow> requiredDrawing sc h el = [] \<and> drawnFor lib sc h el = []" for el sc h
    by (simp add: requiredDrawing_def drawnFor_def claimedDrawing_def Let_def split: prod.splits)
  have c: "list_all (\<lambda>el. list_all (drawOk lib) (requiredDrawing (scale s) ?h el)) ?els
      = list_all (drawOk lib) (concat (map (requiredDrawing (scale s) ?h) (filter (\<lambda>el. type_el el \<noteq> Redact) ?els)))"
    by (rule list_all_concat_skip) (simp add: red_none)
  have d: "concat (map (drawnFor lib (scale s) ?h) ?els)
      = concat (map (drawnFor lib (scale s) ?h) (filter (\<lambda>el. type_el el \<noteq> Redact) ?els))"
    by (rule concat_skip) (simp add: red_none)
  show ?thesis
    unfolding drawOverlays_def Let_def a b c d
    by (auto simp: bindE_def draw_def requiredOps_def overlayOps_def headerOps_def Let_def
        concat_singletons list_all_iff)
qed

text \<open>
  The loop over the pages yields the expected document, or fails on the first page with a
  failing required drawing.
\<close>

lemma forIndexE_all:
  assumes "\<And>k v. f k v = (if P k v then Inr (g k v) else Inl e)"
  shows "forIndexE f i xs =
     (if list_all (\<lambda>k. P (i + k) (xs ! k)) [0 ..< length xs]
      then Inr (map (\<lambda>k. g (i + k) (xs ! k)) [0 ..< length xs]) else Inl e)"
proof (induction xs arbitrary: i)
  case Nil
  then show ?case by simp
next
  case (Cons v vs)
  have la: "list_all Q [0 ..< Suc n] = (Q 0 \<and> list_all (\<lambda>k. Q (Suc k)) [0 ..< n])" for Q n
    by (simp add: upt_conv_Cons map_Suc_upt [symmetric] list.pred_map comp_def del: upt_Suc)
  have mp: "map h [0 ..< Suc n] = h 0 # map (\<lambda>k. h (Suc k)) [0 ..< n]" for h :: "nat \<Rightarrow> 'c" and n
    by (simp add: upt_conv_Cons map_Suc_upt [symmetric] del: upt_Suc)
  show ?case
    using Cons.IH [of "Suc i"]
    by (simp add: assms bindE_def la mp del: upt_Suc)
qed

lemma loadSource_cases:
  "loadSource lib (fileBytes s)
      = (if (case fileBytes s of None \<Rightarrow> True | Some b \<Rightarrow> load lib b \<noteq> None)
         then Inr (sourceOf lib s) else Inl (LibraryError ''load''))"
  by (simp add: loadSource_def sourceOf_def split: option.splits)

lemma pageLoop_cases:
  "forIndexE (\<lambda>i meta. drawOverlays lib s i meta (newPage lib (sourceOf lib s) meta)) 0
                 (pagesOf (heap s) (pageSequence s))
      = (if list_all (pageDrawsOk newPage lib s) [0 ..< length (pageSequence s)]
         then Inr (expectedDoc newPage lib s) else Inl (LibraryError ''draw''))"
proof -
  let ?src = "sourceOf lib s"
  let ?n = "length (pageSequence s)"
  have "forIndexE (\<lambda>i meta. drawOverlays lib s i meta (newPage lib ?src meta)) 0
               (pagesOf (heap s) (pageSequence s))
    = (if list_all (\<lambda>k. list_all (drawOk lib)
               (requiredOps lib s (0 + k) (pagesOf (heap s) (pageSequence s) ! k)
                  (pageW (newPage lib ?src (pagesOf (heap s) (pageSequence s) ! k)))
                  (pageH (newPage lib ?src (pagesOf (heap s) (pageSequence s) ! k)))))
            [0 ..< length (pagesOf (heap s) (pageSequence s))]
       then Inr (map (\<lambda>k. (newPage lib ?src (pagesOf (heap s) (pageSequence s) ! k))
               \<lparr> ops := ops (newPage lib ?src (pagesOf (heap s) (pageSequence s) ! k))
                   @ overlayOps lib s (0 + k) (pagesOf (heap s) (pageSequence s) ! k)
                  (pageW (newPage lib ?src (pagesOf (heap s) (pageSequence s) ! k)))
                  (pageH (newPage lib ?src (pagesOf (heap s) (pageSequence s) ! k))) \<rparr>)
            [0 ..< length (pagesOf (heap s) (pageSequence s))])
       else Inl (LibraryError ''draw''))"
    by (rule forIndexE_all) (rule drawOverlays_cases)
  moreover have "list_all (\<lambda>k. list_all (drawOk lib)
               (requiredOps lib s (0 + k) (pagesOf (heap s) (pageSequence s) ! k)
                  (pageW (newPage lib ?src (pagesOf (heap s) (pageSequence s) ! k)))
                  (pageH (newPage lib ?src (pagesOf (heap s) (pageSequence s) ! k)))))
            [0 ..< length (pagesOf (heap s) (pageSequence s))]
      = list_all (pageDrawsOk newPage lib s) [0 ..< ?n]"
    by (simp add: list_all_iff pagesOf_def pageDrawsOk_def Let_def)
  moreover have "map (\<lambda>k. (newPage lib ?src (pagesOf (heap s) (pageSequence s) ! k))
               \<lparr> ops := ops (newPage lib ?src (pagesOf (heap s) (pageSequence s) ! k))
                   @ overlayOps lib s (0 + k) (pagesOf (heap s) (pageSequence s) ! k)
                  (pageW (newPage lib ?src (pagesOf (heap s) (pageSequence s) ! k)))
                  (pageH (newPage lib ?src (pagesOf (heap s) (pageSequence s) ! k))) \<rparr>)
            [0 ..< length (pagesOf (heap s) (pageSequence s))]
      = expectedDoc newPage lib s"
    by (simp add: expectedDoc_def expectedPage_def pagesOf_def Let_def)
  ultimately show ?thesis by simp
qed

lemma buildOutput_cases:
  "buildOutput newPage lib s =
     (if exportCompletes newPage lib s
      then Inr (the (save lib (expectedDoc newPage lib s)))
      else Inl (projl (buildOutput newPage lib s)))"
  unfolding buildOutput_def loadSource_cases
  by (auto simp: bindE_def call_def exportCompletes_def pageLoop_cases split: option.splits)

text \<open>
  What each action does to the alerts, by whether it completes.
\<close>

lemma buildOutput_ok:
  "exportCompletes newPage lib s \<Longrightarrow>
     buildOutput newPage lib s = Inr (the (save lib (expectedDoc newPage lib s)))"
  by (subst buildOutput_cases) simp

lemma buildOutput_fails:
  "\<not> exportCompletes newPage lib s \<Longrightarrow> \<exists>e. buildOutput newPage lib s = Inl e"
  by (subst buildOutput_cases) simp

lemma handleDownload_cases:
  "handleDownload lib s =
     (if pageSequence s = [] then s
      else if exportCompletes downloadNewPage lib s then
        s\<lparr> isSaving := False,
           downloads := downloads s
             @ [((if docTitle s = [] then ''document'' else docTitle s) @ ''.pdf'',
                 the (save lib (expectedDoc downloadNewPage lib s)))] \<rparr>
      else s\<lparr> isSaving := False,
              consoleErrors := consoleErrors s @ [''PDF Gen Error:''],
              alerts := alerts s @ [''Error generating PDF.''] \<rparr>)"
proof (cases "exportCompletes downloadNewPage lib s")
  case True
  then show ?thesis by (simp add: handleDownload_def buildOutput_ok)
next
  case False
  then obtain e where "buildOutput downloadNewPage lib s = Inl e"
    using buildOutput_fails by blast
  then show ?thesis using False by (simp add: handleDownload_def)
qed















text \<open>
  The export of the example documents, evaluated.
\<close>

lemmas ex_eval =
  exLoaded_eq initialState_def exLib_def exLib2_def exSave_def opCode_def exImage_def exEl_def
  exWithImage_def exWithShapes_def exBytes_def
  handleDownload_def buildOutput_def loadSource_def call_def bindE_def pagesOf_def
  drawOverlays_def downloadNewPage_def copiedPage_def blankPage_def replayElement_def
  redactElement_def draw_def truthy_def Let_def pageNumberOp_def watermarkOp_def

lemma skipped_image_eval:
  "handleDownload (exLib2\<lparr> embedPngOk := (\<lambda>d. False) \<rparr>) exWithImage
      = exWithImage\<lparr> downloads := [(''report.pdf'', [1, 255, 1, 255])] \<rparr>"
  by (simp add: ex_eval)

lemma kept_image_eval:
  "handleDownload exLib2 exWithImage
      = exWithImage\<lparr> downloads := [(''report.pdf'', [1, 5, 255, 1, 255])] \<rparr>"
  by (simp add: ex_eval)

lemma shapes_eval:
  "handleDownload exLib2 exWithShapes
      = exWithShapes\<lparr> downloads := [(''report.pdf'', [1, 1, 1, 2, 2, 255, 1, 1, 1, 1, 255])] \<rparr>"
  by (simp add: ex_eval)


lemma expectedDoc_nth:
  "i < length (pageSequence s) \<Longrightarrow>
     expectedDoc newPage lib s ! i = expectedPage newPage lib s i"
  by (simp add: expectedDoc_def)

lemma downloadNewPage_cases:
  "downloadNewPage lib (sourceOf lib s) meta =
     (if copiesPage lib s meta
      then copiedPage (the (fileBytes s)) (the (load lib (the (fileBytes s))))
             (originalIndex meta - 1) (rotation_pm meta)
      else blankPage)"
  by (auto simp: downloadNewPage_def sourceOf_def copiesPage_def Let_def split: option.splits)

lemma drawnFor_single:
  "type_el el = Text \<or> type_el el = Rect \<or> type_el el = Circle \<or> type_el el = Line
     \<or> type_el el = Arrow
   \<Longrightarrow> \<exists>d. claimedDrawing sc h el = Some d \<and> drawnFor lib sc h el = [d]"
  by (auto simp: drawnFor_def claimedDrawing_def Let_def split: prod.splits)

lemma drawnFor_image:
  "type_el el = Image \<Longrightarrow>
     drawnFor lib sc h el =
       (if imageEmbeds lib el \<and> drawOk lib (the (claimedDrawing sc h el))
        then [the (claimedDrawing sc h el)] else [])"
  by (auto simp: drawnFor_def claimedDrawing_def imageEmbeds_def Let_def split: prod.splits)

subsection \<open>The sequence of the export\<close>

text \<open>
  C1, as amended. Let the page sequence be non-empty. If no call fails outside the inner
  handlers, \<open>handleDownload\<close> loads the source, runs the page loop, saves the document the
  loop has built and offers the bytes for download under the document title. The document
  has one page per entry of the page sequence, in order: the copy of the source page
  \<open>originalIndex - 1\<close> with the rotation of the entry where that page can be copied, and a
  new blank page of 612 by 792 points otherwise (also when the copy fails). The drawings on
  a page are the page number if enabled, the watermark if there is one, the drawings of the
  non-redact elements of the page and then the redactions. A text, rect, circle, line or
  arrow element has exactly its claimed drawing; an image element has it when the image
  can be embedded and drawn, and nothing otherwise. If a call fails outside the inner
  handlers, nothing is downloaded and the user is alerted.
\<close>

theorem export_steps:
  assumes "pageSequence s \<noteq> []"
  shows "(exportCompletes downloadNewPage lib s \<longrightarrow>
           (\<exists>src doc bs. loadSource lib (fileBytes s) = Inr src
              \<and> forIndexE (\<lambda>i meta. drawOverlays lib s i meta (downloadNewPage lib src meta)) 0
                    (pagesOf (heap s) (pageSequence s)) = Inr doc
              \<and> save lib doc = Some bs
              \<and> handleDownload lib s
                  = s\<lparr> isSaving := False,
                       downloads := downloads s
                         @ [((if docTitle s = [] then ''document'' else docTitle s) @ ''.pdf'', bs)] \<rparr>
              \<and> length doc = length (pageSequence s)
              \<and> (\<forall>i < length (pageSequence s).
                    (copiesPage lib s (heap s ! (pageSequence s ! i))
                     \<longrightarrow> origin (doc ! i)
                           = CopiedPage (the (fileBytes s)) (originalIndex (heap s ! (pageSequence s ! i)) - 1)
                         \<and> rotationSet (doc ! i) = Some (rotation_pm (heap s ! (pageSequence s ! i))))
                  \<and> (\<not> copiesPage lib s (heap s ! (pageSequence s ! i))
                     \<longrightarrow> origin (doc ! i) = NewPage 612 792 \<and> rotationSet (doc ! i) = None
                         \<and> pageW (doc ! i) = 612 \<and> pageH (doc ! i) = 792)
                  \<and> ops (doc ! i)
                      = (if enabled (pageNumbering s)
                         then [pageNumberOp lib (pageNumbering s) i (length (pageSequence s))
                                 (pageW (doc ! i)) (pageH (doc ! i))] else [])
                        @ (if watermarkText s \<noteq> [] then [watermarkOp (watermarkText s) (pageH (doc ! i))] else [])
                        @ concat (map (drawnFor lib (scale s) (pageH (doc ! i)))
                            (filter (\<lambda>el. type_el el \<noteq> Redact)
                               (filter (\<lambda>el. pageId el = id_pm (heap s ! (pageSequence s ! i))) (elements s))))
                        @ map (claimedRedaction (scale s) (pageH (doc ! i)))
                            (filter (\<lambda>el. type_el el = Redact)
                               (filter (\<lambda>el. pageId el = id_pm (heap s ! (pageSequence s ! i))) (elements s))))))
     \<and> (\<not> exportCompletes downloadNewPage lib s \<longrightarrow>
           handleDownload lib s
             = s\<lparr> isSaving := False,
                  consoleErrors := consoleErrors s @ [''PDF Gen Error:''],
                  alerts := alerts s @ [''Error generating PDF.''] \<rparr>)
     \<and> (type_el el = Text \<or> type_el el = Rect \<or> type_el el = Circle \<or> type_el el = Line
           \<or> type_el el = Arrow
         \<longrightarrow> (\<exists>d. claimedDrawing sc h el = Some d \<and> drawnFor lib sc h el = [d]))
     \<and> (type_el el = Image \<longrightarrow>
           drawnFor lib sc h el =
             (if imageEmbeds lib el \<and> drawOk lib (the (claimedDrawing sc h el))
              then [the (claimedDrawing sc h el)] else []))"
proof -
  let ?doc = "expectedDoc downloadNewPage lib s"
  have page: "\<forall>i < length (pageSequence s).
                    (copiesPage lib s (heap s ! (pageSequence s ! i))
                     \<longrightarrow> origin (?doc ! i)
                           = CopiedPage (the (fileBytes s)) (originalIndex (heap s ! (pageSequence s ! i)) - 1)
                         \<and> rotationSet (?doc ! i) = Some (rotation_pm (heap s ! (pageSequence s ! i))))
                  \<and> (\<not> copiesPage lib s (heap s ! (pageSequence s ! i))
                     \<longrightarrow> origin (?doc ! i) = NewPage 612 792 \<and> rotationSet (?doc ! i) = None
                         \<and> pageW (?doc ! i) = 612 \<and> pageH (?doc ! i) = 792)
                  \<and> ops (?doc ! i)
                      = (if enabled (pageNumbering s)
                         then [pageNumberOp lib (pageNumbering s) i (length (pageSequence s))
                                 (pageW (?doc ! i)) (pageH (?doc ! i))] else [])
                        @ (if watermarkText s \<noteq> [] then [watermarkOp (watermarkText s) (pageH (?doc ! i))] else [])
                        @ concat (map (drawnFor lib (scale s) (pageH (?doc ! i)))
                            (filter (\<lambda>el. type_el el \<noteq> Redact)
                               (filter (\<lambda>el. pageId el = id_pm (heap s ! (pageSequence s ! i))) (elements s))))
                        @ map (claimedRedaction (scale s) (pageH (?doc ! i)))
                            (filter (\<lambda>el. type_el el = Redact)
                               (filter (\<lambda>el. pageId el = id_pm (heap s ! (pageSequence s ! i))) (elements s)))"
  proof (intro allI impI)
    fix i assume i: "i < length (pageSequence s)"
    let ?meta = "heap s ! (pageSequence s ! i)"
    let ?c = "copiesPage lib s ?meta"
    have np: "downloadNewPage lib (sourceOf lib s) ?meta =
        (if ?c then copiedPage (the (fileBytes s)) (the (load lib (the (fileBytes s))))
             (originalIndex ?meta - 1) (rotation_pm ?meta) else blankPage)"
      by (rule downloadNewPage_cases)
    show "(?c \<longrightarrow> origin (?doc ! i) = CopiedPage (the (fileBytes s)) (originalIndex ?meta - 1)
                         \<and> rotationSet (?doc ! i) = Some (rotation_pm ?meta))
                  \<and> (\<not> ?c \<longrightarrow> origin (?doc ! i) = NewPage 612 792 \<and> rotationSet (?doc ! i) = None
                         \<and> pageW (?doc ! i) = 612 \<and> pageH (?doc ! i) = 792)
                  \<and> ops (?doc ! i)
                      = (if enabled (pageNumbering s)
                         then [pageNumberOp lib (pageNumbering s) i (length (pageSequence s))
                                 (pageW (?doc ! i)) (pageH (?doc ! i))] else [])
                        @ (if watermarkText s \<noteq> [] then [watermarkOp (watermarkText s) (pageH (?doc ! i))] else [])
                        @ concat (map (drawnFor lib (scale s) (pageH (?doc ! i)))
                            (filter (\<lambda>el. type_el el \<noteq> Redact)
                               (filter (\<lambda>el. pageId el = id_pm ?meta) (elements s))))
                        @ map (claimedRedaction (scale s) (pageH (?doc ! i)))
                            (filter (\<lambda>el. type_el el = Redact)
                               (filter (\<lambda>el. pageId el = id_pm ?meta) (elements s)))"
    proof (cases ?c)
      case True
      then show ?thesis
        using i np
        by (simp add: expectedDoc_nth expectedPage_def Let_def overlayOps_def headerOps_def
            copiedPage_def)
    next
      case False
      then show ?thesis
        using i np
        by (simp add: expectedDoc_nth expectedPage_def Let_def overlayOps_def headerOps_def
            blankPage_def)
    qed
  qed
  have ok: "exportCompletes downloadNewPage lib s \<longrightarrow>
      (\<exists>bs. save lib ?doc = Some bs
         \<and> handleDownload lib s
             = s\<lparr> isSaving := False,
                  downloads := downloads s
                    @ [((if docTitle s = [] then ''document'' else docTitle s) @ ''.pdf'', bs)] \<rparr>)"
    using assms(1) by (auto simp: handleDownload_cases exportCompletes_def)
  have src: "exportCompletes downloadNewPage lib s \<longrightarrow>
      loadSource lib (fileBytes s) = Inr (sourceOf lib s)"
    by (simp add: loadSource_cases exportCompletes_def)
  have loop: "exportCompletes downloadNewPage lib s \<longrightarrow>
      forIndexE (\<lambda>i meta. drawOverlays lib s i meta (downloadNewPage lib (sourceOf lib s) meta)) 0
        (pagesOf (heap s) (pageSequence s)) = Inr ?doc"
    by (simp add: pageLoop_cases exportCompletes_def)
  have len: "length ?doc = length (pageSequence s)" by (simp add: expectedDoc_def)
  have bad: "\<not> exportCompletes downloadNewPage lib s \<longrightarrow>
           handleDownload lib s
             = s\<lparr> isSaving := False,
                  consoleErrors := consoleErrors s @ [''PDF Gen Error:''],
                  alerts := alerts s @ [''Error generating PDF.''] \<rparr>"
    using assms(1) by (simp add: handleDownload_cases)
  have one: "type_el el = Text \<or> type_el el = Rect \<or> type_el el = Circle \<or> type_el el = Line
           \<or> type_el el = Arrow
         \<longrightarrow> (\<exists>d. claimedDrawing sc h el = Some d \<and> drawnFor lib sc h el = [d])"
    using drawnFor_single by blast
  have img: "type_el el = Image \<longrightarrow>
           drawnFor lib sc h el =
             (if imageEmbeds lib el \<and> drawOk lib (the (claimedDrawing sc h el))
              then [the (claimedDrawing sc h el)] else [])"
    using drawnFor_image by blast
  have good: "exportCompletes downloadNewPage lib s \<longrightarrow>
           (\<exists>src doc bs. loadSource lib (fileBytes s) = Inr src
              \<and> forIndexE (\<lambda>i meta. drawOverlays lib s i meta (downloadNewPage lib src meta)) 0
                    (pagesOf (heap s) (pageSequence s)) = Inr doc
              \<and> save lib doc = Some bs
              \<and> handleDownload lib s
                  = s\<lparr> isSaving := False,
                       downloads := downloads s
                         @ [((if docTitle s = [] then ''document'' else docTitle s) @ ''.pdf'', bs)] \<rparr>
              \<and> length doc = length (pageSequence s)
              \<and> (\<forall>i < length (pageSequence s).
                    (copiesPage lib s (heap s ! (pageSequence s ! i))
                     \<longrightarrow> origin (doc ! i)
                           = CopiedPage (the (fileBytes s)) (originalIndex (heap s ! (pageSequence s ! i)) - 1)
                         \<and> rotationSet (doc ! i) = Some (rotation_pm (heap s ! (pageSequence s ! i))))
                  \<and> (\<not> copiesPage lib s (heap s ! (pageSequence s ! i))
                     \<longrightarrow> origin (doc ! i) = NewPage 612 792 \<and> rotationSet (doc ! i) = None
                         \<and> pageW (doc ! i) = 612 \<and> pageH (doc ! i) = 792)
                  \<and> ops (doc ! i)
                      = (if enabled (pageNumbering s)
                         then [pageNumberOp lib (pageNumbering s) i (length (pageSequence s))
                                 (pageW (doc ! i)) (pageH (doc ! i))] else [])
                        @ (if watermarkText s \<noteq> [] then [watermarkOp (watermarkText s) (pageH (doc ! i))] else [])
                        @ concat (map (drawnFor lib (scale s) (pageH (doc ! i)))
                            (filter (\<lambda>el. type_el el \<noteq> Redact)
                               (filter (\<lambda>el. pageId el = id_pm (heap s ! (pageSequence s ! i))) (elements s))))
                        @ map (claimedRedaction (scale s) (pageH (doc ! i)))
                            (filter (\<lambda>el. type_el el = Redact)
                               (filter (\<lambda>el. pageId el = id_pm (heap s ! (pageSequence s ! i))) (elements s)))))"
  proof
    assume c: "exportCompletes downloadNewPage lib s"
    with ok obtain bs where bs: "save lib ?doc = Some bs"
      "handleDownload lib s
             = s\<lparr> isSaving := False,
                  downloads := downloads s
                    @ [((if docTitle s = [] then ''document'' else docTitle s) @ ''.pdf'', bs)] \<rparr>"
      by blast
    from c src have s1: "loadSource lib (fileBytes s) = Inr (sourceOf lib s)" by blast
    from c loop have s2: "forIndexE (\<lambda>i meta. drawOverlays lib s i meta (downloadNewPage lib (sourceOf lib s) meta)) 0
        (pagesOf (heap s) (pageSequence s)) = Inr ?doc" by blast
    show "\<exists>src doc bs. loadSource lib (fileBytes s) = Inr src
              \<and> forIndexE (\<lambda>i meta. drawOverlays lib s i meta (downloadNewPage lib src meta)) 0
                    (pagesOf (heap s) (pageSequence s)) = Inr doc
              \<and> save lib doc = Some bs
              \<and> handleDownload lib s
                  = s\<lparr> isSaving := False,
                       downloads := downloads s
                         @ [((if docTitle s = [] then ''document'' else docTitle s) @ ''.pdf'', bs)] \<rparr>
              \<and> length doc = length (pageSequence s)
              \<and> (\<forall>i < length (pageSequence s).
                    (copiesPage lib s (heap s ! (pageSequence s ! i))
                     \<longrightarrow> origin (doc ! i)
                           = CopiedPage (the (fileBytes s)) (originalIndex (heap s ! (pageSequence s ! i)) - 1)
                         \<and> rotationSet (doc ! i) = Some (rotation_pm (heap s ! (pageSequence s ! i))))
                  \<and> (\<not> copiesPage lib s (heap s ! (pageSequence s ! i))
                     \<longrightarrow> origin (doc ! i) = NewPage 612 792 \<and> rotationSet (doc ! i) = None
                         \<and> pageW (doc ! i) = 612 \<and> pageH (doc ! i) = 792)
                  \<and> ops (doc ! i)
                      = (if enabled (pageNumbering s)
                         then [pageNumberOp lib (pageNumbering s) i (length (pageSequence s))
                                 (pageW (doc ! i)) (pageH (doc ! i))] else [])
                        @ (if watermarkText s \<noteq> [] then [watermarkOp (watermarkText s) (pageH (doc ! i))] else [])
                        @ concat (map (drawnFor lib (scale s) (pageH (doc ! i)))
                            (filter (\<lambda>el. type_el el \<noteq> Redact)
                               (filter (\<lambda>el. pageId el = id_pm (heap s ! (pageSequence s ! i))) (elements s))))
                        @ map (claimedRedaction (scale s) (pageH (doc ! i)))
                            (filter (\<lambda>el. type_el el = Redact)
                               (filter (\<lambda>el. pageId el = id_pm (heap s ! (pageSequence s ! i))) (elements s))))"
      apply (rule exI [of _ "sourceOf lib s"])
      apply (rule exI [of _ ?doc])
      apply (rule exI [of _ bs])
      using s1 s2 bs len page by blast
  qed
  show ?thesis
    using good bad one img by blast
qed

text \<open>
  The claim as stated fails for an image that cannot be embedded: the export completes
  and the first page carries no drawing, where the same document with a working library
  carries the image.
\<close>

theorem export_steps_counterexample:
  "type_el exImage = Image \<and> pageId exImage = ''pA'' \<and> elements exWithImage = [exImage]
   \<and> handleDownload (exLib2\<lparr> embedPngOk := (\<lambda>d. False) \<rparr>) exWithImage
       = exWithImage\<lparr> downloads := [(''report.pdf'', [1, 255, 1, 255])] \<rparr>
   \<and> handleDownload exLib2 exWithImage
       = exWithImage\<lparr> downloads := [(''report.pdf'', [1, 5, 255, 1, 255])] \<rparr>"
  using skipped_image_eval kept_image_eval by (simp add: exImage_def exWithImage_def exEl_def)

lemma exWithShapes_completes: "exportCompletes downloadNewPage exLib2 exWithShapes"
proof (rule ccontr)
  assume "\<not> exportCompletes downloadNewPage exLib2 exWithShapes"
  then have "downloads (handleDownload exLib2 exWithShapes) = downloads exWithShapes"
    by (simp add: handleDownload_cases)
  then show False
    using shapes_eval by (simp add: exWithShapes_def exLoaded_eq initialState_def)
qed

theorem export_steps_witness:
  "pageSequence exWithShapes \<noteq> []
   \<and> exportCompletes downloadNewPage exLib2 exWithShapes
   \<and> handleDownload exLib2 exWithShapes
       = exWithShapes\<lparr> downloads := [(''report.pdf'', [1, 1, 1, 2, 2, 255, 1, 1, 1, 1, 255])] \<rparr>
   \<and> (\<exists>doc bs. save exLib2 doc = Some bs \<and> length doc = 2
         \<and> handleDownload exLib2 exWithShapes = exWithShapes\<lparr> downloads := [(''report.pdf'', bs)] \<rparr>
         \<and> origin (doc ! 0) = CopiedPage exBytes 0 \<and> rotationSet (doc ! 0) = Some 0)"
proof -
  have p: "pageSequence exWithShapes \<noteq> []"
    by (simp add: exWithShapes_def exLoaded_eq initialState_def)
  have c0: "copiesPage exLib2 exWithShapes (heap exWithShapes ! (pageSequence exWithShapes ! 0))"
    by (simp add: copiesPage_def exLib2_def exLib_def exWithShapes_def exLoaded_eq initialState_def)
  have vals: "length (pageSequence exWithShapes) = 2" "fileBytes exWithShapes = Some exBytes"
    "docTitle exWithShapes = ''report''" "downloads exWithShapes = []"
    "isSaving exWithShapes = False" "enabled (pageNumbering exWithShapes)"
    "watermarkText exWithShapes = ''DRAFT''"
    "originalIndex (heap exWithShapes ! (pageSequence exWithShapes ! 0)) = 1"
    "rotation_pm (heap exWithShapes ! (pageSequence exWithShapes ! 0)) = 0"
    by (simp_all add: exWithShapes_def exLoaded_eq initialState_def)
  from export_steps [OF p, of exLib2 exEl 1 792] exWithShapes_completes
  obtain src doc bs where d: "save exLib2 doc = Some bs"
    "handleDownload exLib2 exWithShapes
       = exWithShapes\<lparr> isSaving := False, downloads := downloads exWithShapes
            @ [((if docTitle exWithShapes = [] then ''document'' else docTitle exWithShapes) @ ''.pdf'', bs)] \<rparr>"
    "length doc = length (pageSequence exWithShapes)"
    and pages: "\<forall>i < length (pageSequence exWithShapes).
        (copiesPage exLib2 exWithShapes (heap exWithShapes ! (pageSequence exWithShapes ! i))
           \<longrightarrow> origin (doc ! i)
                 = CopiedPage (the (fileBytes exWithShapes))
                     (originalIndex (heap exWithShapes ! (pageSequence exWithShapes ! i)) - 1)
               \<and> rotationSet (doc ! i) = Some (rotation_pm (heap exWithShapes ! (pageSequence exWithShapes ! i))))"
    by blast
  have o0: "origin (doc ! 0) = CopiedPage exBytes 0 \<and> rotationSet (doc ! 0) = Some 0"
    using pages c0 vals by auto
  have eq: "handleDownload exLib2 exWithShapes = exWithShapes\<lparr> downloads := [(''report.pdf'', bs)] \<rparr>"
    using d(2) vals by simp
  have "length doc = 2" using d(3) vals by simp
  show ?thesis
    using p exWithShapes_completes shapes_eval d(1) eq o0 \<open>length doc = 2\<close> by blast
qed

subsection \<open>Alerts on library failures\<close>




subsection \<open>What the organizer changes\<close>

text \<open>
  A delete of the only page and a drop without effect are refused; every other organizer
  operation that returns has recorded its result.
\<close>

lemma committed_records:
  assumes "s' = (commitOrganize sq es (s\<lparr> heap := h1 \<rparr>))\<lparr> currentPageIndex := c \<rparr>"
    and "list_all (\<lambda>a. a < length h1) sq"
    and "length (heap s) \<le> length h1"
  shows "recordsResult s s'"
proof -
  let ?snap = "\<lparr> elements_h = es, sequence_h = [length h1 ..< length h1 + length sq] \<rparr>"
  have l: "last (history s') = ?snap"
    using assms(1) saveToHistory_last [of es sq "s\<lparr> heap := h1, pageSequence := sq, elements := es \<rparr>"]
    by (simp add: commitOrganize_def)
  have f: "heap s' = h1 @ pagesOf h1 sq" "pageSequence s' = sq" "elements s' = es"
    using assms(1) by (simp_all add: commitOrganize_fields)
  have len: "length (heap s') = length h1 + length sq" by (simp add: f pagesOf_def)
  have h: "history s' = capped (js_slice0 (history s) (historyIndex s + 1) @ [?snap])"
    using assms(1) by (simp add: commitOrganize_def saveToHistory_eq pushed_def)
  from committed_frame [OF assms(1,2)]
  have fr: "alerts s' = alerts s" "historyIndex s' = int (length (history s')) - 1"
    "elements_h (last (history s')) = elements s'"
    "pagesOf (heap s') (sequence_h (last (history s'))) = pagesOf (heap s') (pageSequence s')"
    by blast+
  have sq: "sequence_h (last (history s'))
          = [length (heap s') - length (pageSequence s') ..< length (heap s')]"
    by (simp add: l len f(2))
  have gr: "length (heap s) + length (pageSequence s') \<le> length (heap s')"
    using assms(3) by (simp add: len f(2))
  have h': "history s' = capped (js_slice0 (history s) (historyIndex s + 1) @ [last (history s')])"
    using h l by simp
  show ?thesis
    unfolding recordsResult_def using fr sq gr h' by blast
qed

lemma organizeAction_refused:
  assumes "organizeAction Delete param specificIndex newId cloneIds s = Inr s'"
    and "length (pageSequence s) \<le> 1"
  shows "s' = s\<lparr> alerts := alerts s @ [''Document must have at least one page.''] \<rparr>"
  using assms by (auto simp: organizeAction_def Let_def split: option.splits)

lemma organizeAction_grows:
  assumes "organizeAction ty param specificIndex newId cloneIds s = Inr s'"
    and "\<not> (ty = Delete \<and> length (pageSequence s) \<le> 1)"
  shows "length (heap s) + length (pageSequence s') \<le> length (heap s') \<and> alerts s' = alerts s"
proof (cases ty)
  case Delete
  then show ?thesis using assms
    by (auto simp: organizeAction_def Let_def commitOrganize_def saveToHistory_eq pagesOf_def
        split: option.splits)
next
  case Rotate
  then show ?thesis using assms
    by (auto simp: organizeAction_def Let_def commitOrganize_def saveToHistory_eq pagesOf_def
        split: option.splits)
next
  case Move
  then show ?thesis using assms
    by (auto simp: organizeAction_def Let_def commitOrganize_def saveToHistory_eq pagesOf_def
        split: option.splits if_splits)
next
  case Duplicate
  then show ?thesis using assms
    by (auto simp: organizeAction_def Let_def commitOrganize_def saveToHistory_eq pagesOf_def
        split: option.splits)
next
  case Blank
  then show ?thesis using assms
    by (auto simp: organizeAction_def Let_def commitOrganize_def saveToHistory_eq pagesOf_def
        split: option.splits)
qed

lemma organizeAction_records:
  assumes valid: "list_all (\<lambda>a. a < length (heap s)) (pageSequence s)"
    and res: "organizeAction ty param specificIndex newId cloneIds s = Inr s'"
    and nr: "\<not> (ty = Delete \<and> length (pageSequence s) \<le> 1)"
  shows "recordsResult s s'"
proof -
  from organizeAction_grows [OF res nr]
  have g: "length (heap s) + length (pageSequence s') \<le> length (heap s')" "alerts s' = alerts s"
    by simp_all
  have "s' \<noteq> s\<lparr> alerts := alerts s @ [''Document must have at least one page.''] \<rparr>"
  proof
    assume "s' = s\<lparr> alerts := alerts s @ [''Document must have at least one page.''] \<rparr>"
    then have "alerts s' = alerts s @ [''Document must have at least one page.'']" by simp
    with g(2) show False by simp
  qed
  with organizeAction_shape [OF valid res]
  obtain h1 sq es c where s': "s' = (commitOrganize sq es (s\<lparr> heap := h1 \<rparr>))\<lparr> currentPageIndex := c \<rparr>"
    and v: "list_all (\<lambda>a. a < length h1) sq"
    by blast
  have "heap s' = h1 @ pagesOf h1 sq" "pageSequence s' = sq"
    using s' by (simp_all add: commitOrganize_fields)
  then have "length (heap s') = length h1 + length (pageSequence s')" by (simp add: pagesOf_def)
  with g(1) have "length (heap s) \<le> length h1" by simp
  from committed_records [OF s' v this] show ?thesis .
qed

lemma handlePageDrop_records:
  assumes valid: "list_all (\<lambda>a. a < length (heap s)) (pageSequence s)"
    and res: "handlePageDrop sourceIndex targetIndex s = Inr s'"
    and nr: "\<not> (sourceIndex = None \<or> sourceIndex = Some targetIndex)"
  shows "recordsResult s s'"
proof -
  obtain si moved removed where si: "sourceIndex = Some si"
    and sp: "fst (js_splice1 (pageSequence s) si) = moved # removed"
    and s': "s' = (saveToHistory (elements s)
                    (js_insert (snd (js_splice1 (pageSequence s) si)) targetIndex moved)
                    (s\<lparr> pageSequence := js_insert (snd (js_splice1 (pageSequence s) si)) targetIndex moved \<rparr>))
                  \<lparr> currentPageIndex := targetIndex \<rparr>"
    using res nr
    by (auto simp: handlePageDrop_def Let_def split: option.splits if_splits prod.splits list.splits)
  let ?sq = "js_insert (snd (js_splice1 (pageSequence s) si)) targetIndex moved"
  have "moved \<in> set (pageSequence s)"
    using js_splice1_removed_set [of "pageSequence s" si] sp by auto
  then have sqv: "list_all (\<lambda>a. a < length (heap s)) ?sq"
    using valid js_splice1_rest_set [of "pageSequence s" si]
    by (auto simp: list_all_iff js_insert_set)
  have "s' = (commitOrganize ?sq (elements s) (s\<lparr> heap := heap s \<rparr>))\<lparr> currentPageIndex := targetIndex \<rparr>"
    using s' by (simp add: commitOrganize_def saveToHistory_eq pushed_def)
  from committed_records [OF this sqv] show ?thesis by simp
qed

lemma handlePageDrop_refused:
  assumes "handlePageDrop sourceIndex targetIndex s = Inr s'"
    and "sourceIndex = None \<or> sourceIndex = Some targetIndex"
  shows "s' = s"
  using assms by (auto simp: handlePageDrop_def)

lemma organizer_keeps:
  assumes "list_all (\<lambda>a. a < length (heap s)) (pageSequence s)"
    and "organizeAction ty param specificIndex newId cloneIds s = Inr s'
         \<or> handlePageDrop sourceIndex targetIndex s = Inr s'"
  shows "fileBytes s' = fileBytes s \<and> pdfDoc s' = pdfDoc s
     \<and> s' = s\<lparr> heap := heap s', pageSequence := pageSequence s', elements := elements s',
                history := history s', historyIndex := historyIndex s',
                currentPageIndex := currentPageIndex s', alerts := alerts s' \<rparr>"
proof -
  consider "s' = s" | "s' = s\<lparr> alerts := alerts s @ [''Document must have at least one page.''] \<rparr>"
    | h1 sq es c where "s' = (commitOrganize sq es (s\<lparr> heap := h1 \<rparr>))\<lparr> currentPageIndex := c \<rparr>"
        "list_all (\<lambda>a. a < length h1) sq"
    using assms organizeAction_shape [of s ty param specificIndex newId cloneIds s']
      handlePageDrop_shape [of s sourceIndex targetIndex s'] by blast
  then show ?thesis
  proof cases
    case 1
    then show ?thesis by simp
  next
    case 2
    then show ?thesis by simp
  next
    case 3
    from committed_frame [OF 3] show ?thesis by blast
  qed
qed

text \<open>
  C7, as amended. An organizer operation (\<open>organizeAction\<close> of any type, or a page drop)
  that returns leaves the file bytes and the loaded document as they were, and changes
  nothing but the page store, the page sequence, the elements, the history with its index,
  the current page index and the alerts. \<open>organizeAction\<close> is refused exactly when it is a
  delete on a sequence of one page, and then only appends the alert; a page drop is refused
  exactly when the source index is not a number or equals the target, and then changes
  nothing. Every other operation that returns records its result: the history is the old
  one up to its index followed by a new snapshot, the index is its last position, and the
  snapshot holds the new elements and new page objects equal to those of the new sequence.
\<close>

theorem organizer_frame:
  assumes "list_all (\<lambda>a. a < length (heap s)) (pageSequence s)"
    and "organizeAction ty param specificIndex newId cloneIds s = Inr s'
         \<or> handlePageDrop sourceIndex targetIndex s = Inr s'"
  shows "fileBytes s' = fileBytes s \<and> pdfDoc s' = pdfDoc s
     \<and> s' = s\<lparr> heap := heap s', pageSequence := pageSequence s', elements := elements s',
                history := history s', historyIndex := historyIndex s',
                currentPageIndex := currentPageIndex s', alerts := alerts s' \<rparr>
     \<and> (organizeAction ty param specificIndex newId cloneIds s = Inr s' \<longrightarrow>
          (if ty = Delete \<and> length (pageSequence s) \<le> 1
           then s' = s\<lparr> alerts := alerts s @ [''Document must have at least one page.''] \<rparr>
           else recordsResult s s'))
     \<and> (handlePageDrop sourceIndex targetIndex s = Inr s' \<longrightarrow>
          (if sourceIndex = None \<or> sourceIndex = Some targetIndex then s' = s
           else recordsResult s s'))"
proof -
  have a: "organizeAction ty param specificIndex newId cloneIds s = Inr s' \<longrightarrow>
          (if ty = Delete \<and> length (pageSequence s) \<le> 1
           then s' = s\<lparr> alerts := alerts s @ [''Document must have at least one page.''] \<rparr>
           else recordsResult s s')"
    using organizeAction_refused [of param specificIndex newId cloneIds s s']
      organizeAction_records [OF assms(1), of ty param specificIndex newId cloneIds s']
    by auto
  have b: "handlePageDrop sourceIndex targetIndex s = Inr s' \<longrightarrow>
          (if sourceIndex = None \<or> sourceIndex = Some targetIndex then s' = s
           else recordsResult s s')"
    using handlePageDrop_refused [of sourceIndex targetIndex s s']
      handlePageDrop_records [OF assms(1), of sourceIndex targetIndex s']
    by auto
  from organizer_keeps [OF assms] a b show ?thesis by blast
qed

theorem organizer_frame_witness:
  "list_all (\<lambda>a. a < length (heap exLoaded)) (pageSequence exLoaded)
   \<and> (\<exists>s'. organizeAction Delete None (Some 0) ''n'' (\<lambda>k. ''c'') exLoaded = Inr s'
         \<and> fileBytes s' = Some exBytes \<and> pdfDoc s' = Some \<lparr> numPages = 2, source_bytes = exBytes \<rparr>
         \<and> pageSequence s' = [1] \<and> historyIndex s' = 1
         \<and> map sequence_h (history s') = [[2, 3], [4]]
         \<and> recordsResult exLoaded s')
   \<and> (\<exists>s'. handlePageDrop (Some 0) 1 exLoaded = Inr s'
         \<and> fileBytes s' = Some exBytes
         \<and> pageSequence s' = [1, 0] \<and> historyIndex s' = 1
         \<and> map sequence_h (history s') = [[2, 3], [4, 5]]
         \<and> recordsResult exLoaded s')
   \<and> handlePageDrop (Some 1) 1 exLoaded = Inr exLoaded"
proof -
  have v: "list_all (\<lambda>a. a < length (heap exLoaded)) (pageSequence exLoaded)"
    by (simp add: exLoaded_eq initialState_def)
  obtain s' where s': "organizeAction Delete None (Some 0) ''n'' (\<lambda>k. ''c'') exLoaded = Inr s'"
    by (simp add: exLoaded_eq initialState_def organizeAction_def js_index_def)
  have vals: "pageSequence s' = [1] \<and> map sequence_h (history s') = [[2, 3], [4]]"
    using s'
    by (auto simp: exLoaded_eq initialState_def organizeAction_def js_index_def js_splice1_def
        js_start_def commitOrganize_def saveToHistory_eq pushed_def capped_def js_slice0_def
        pagesOf_def Let_def)
  obtain s2 where s2: "handlePageDrop (Some 0) 1 exLoaded = Inr s2"
    by (simp add: exLoaded_eq initialState_def handlePageDrop_def js_splice1_def js_start_def
        Let_def)
  have vals2: "pageSequence s2 = [1, 0] \<and> map sequence_h (history s2) = [[2, 3], [4, 5]]"
    using s2
    by (auto simp: exLoaded_eq initialState_def handlePageDrop_def js_splice1_def js_insert_def
        js_start_def saveToHistory_eq pushed_def capped_def js_slice0_def
        pagesOf_def Let_def upt_rec)
  have l: "length (pageSequence exLoaded) = 2" by (simp add: exLoaded_eq initialState_def)
  have fb: "fileBytes exLoaded = Some exBytes"
    "pdfDoc exLoaded = Some \<lparr> numPages = 2, source_bytes = exBytes \<rparr>"
    by (simp_all add: exLoaded_eq initialState_def)
  have same: "handlePageDrop (Some 1) 1 exLoaded = Inr exLoaded"
    by (simp add: handlePageDrop_def)
  from organizer_frame [OF v disjI1, OF s'] s' l
  have a0: "fileBytes s' = fileBytes exLoaded \<and> pdfDoc s' = pdfDoc exLoaded
      \<and> recordsResult exLoaded s'"
    by simp
  then have a: "historyIndex s' = int (length (history s')) - 1"
    by (simp add: recordsResult_def)
  from organizer_frame [OF v disjI2, OF s2] s2
  have b0: "fileBytes s2 = fileBytes exLoaded \<and> recordsResult exLoaded s2"
    by simp
  then have b: "historyIndex s2 = int (length (history s2)) - 1"
    by (simp add: recordsResult_def)
  have ia: "historyIndex s' = 1"
  proof -
    have "length (history s') = length (map sequence_h (history s'))" by simp
    also have "\<dots> = 2" using vals by simp
    finally show ?thesis using a by simp
  qed
  have ib: "historyIndex s2 = 1"
  proof -
    have "length (history s2) = length (map sequence_h (history s2))" by simp
    also have "\<dots> = 2" using vals2 by simp
    finally show ?thesis using b by simp
  qed
  show ?thesis
    using v s' s2 vals vals2 a0 b0 ia ib fb same by auto
qed

text \<open>
  The claim as stated fails where an operation is refused: on a new document with its
  single page, delete alerts and records nothing, so the history stays empty.
\<close>

theorem organizer_records_counterexample:
  "organizeAction Delete None None ''n'' (\<lambda>k. ''c'') (run [NewDocument ''p1''])
     = Inr ((run [NewDocument ''p1''])\<lparr> alerts := [''Document must have at least one page.''] \<rparr>)
   \<and> pageSequence (run [NewDocument ''p1'']) = [0]
   \<and> history ((run [NewDocument ''p1''])\<lparr> alerts := [''Document must have at least one page.''] \<rparr>) = []"
  by (simp add: run_def newDocument_def initialState_def organizeAction_def js_index_def)

subsection \<open>Undo after a rotation\<close>

lemma exRotateUndo_run:
  "run exRotateUndo = initialState\<lparr>
      heap := [\<lparr> id_pm = ''pA'', originalIndex = 1, rotation_pm = 90 \<rparr>,
               \<lparr> id_pm = ''pB'', originalIndex = 2, rotation_pm = 0 \<rparr>,
               \<lparr> id_pm = ''pA'', originalIndex = 1, rotation_pm = 90 \<rparr>,
               \<lparr> id_pm = ''pB'', originalIndex = 2, rotation_pm = 0 \<rparr>,
               \<lparr> id_pm = ''pA'', originalIndex = 1, rotation_pm = 90 \<rparr>,
               \<lparr> id_pm = ''pB'', originalIndex = 2, rotation_pm = 0 \<rparr>,
               \<lparr> id_pm = ''pA'', originalIndex = 1, rotation_pm = 90 \<rparr>,
               \<lparr> id_pm = ''pB'', originalIndex = 2, rotation_pm = 0 \<rparr>],
      pdfDoc := Some \<lparr> numPages = 2, source_bytes = exBytes \<rparr>,
      fileBytes := Some exBytes, pageSequence := [2, 3],
      docTitle := ''report'', fileName := Some ''report.pdf'',
      documentText := ''Hello world'' @ [CHR 0x0A] @ ''Hello world'' @ [CHR 0x0A],
      history := [\<lparr> elements_h = [], sequence_h = [2, 3] \<rparr>,
                  \<lparr> elements_h = [], sequence_h = [6, 7] \<rparr>], historyIndex := 1 \<rparr>"
proof -
  have "run exRotateUndo = foldl step exLoaded
      [Organize Rotate (Some ''cw'') (Some 0) ''n'' (\<lambda>k. ''c''), Undo,
       Organize Rotate (Some ''cw'') (Some 0) ''n'' (\<lambda>k. ''c'')]"
    by (simp add: exRotateUndo_def exLoaded_def run_def)
  then show ?thesis
    by (simp add: exLoaded_eq initialState_def organizeAction_def undo_def
        js_index_def js_rem_def commitOrganize_def saveToHistory_eq
        pushed_def capped_def js_slice0_def pagesOf_def orElse_def Let_def upt_rec)
qed

text \<open>
  C5. Undo does not restore what was recorded, in a state the editor reaches. After the
  example file of two pages is opened, history entry 0 holds pages with rotations 0 and 0.
  The first page is rotated, the rotation is undone, and the page is rotated again: undo
  had installed the page objects of entry 0 themselves and rotate assigns to the page
  object, so entry 0 now reads 90 and 0. Undo is enabled in that state and installs
  entry 0, and the first page keeps its rotation of 90 degrees.
\<close>

theorem undo_after_rotate_diverges:
  "history exLoaded = [\<lparr> elements_h = [], sequence_h = [2, 3] \<rparr>]
   \<and> map rotation_pm (pagesOf (heap exLoaded) (sequence_h (history exLoaded ! 0))) = [0, 0]
   \<and> historyIndex (run exRotateUndo) = 1
   \<and> undoDisabled (run exRotateUndo) = False
   \<and> history (run exRotateUndo) ! 0 = \<lparr> elements_h = [], sequence_h = [2, 3] \<rparr>
   \<and> map rotation_pm (pagesOf (heap (run exRotateUndo)) (sequence_h (history (run exRotateUndo) ! 0)))
       = [90, 0]
   \<and> undo (run exRotateUndo)
       = Inr ((run exRotateUndo)\<lparr> pageSequence := [2, 3], historyIndex := 0 \<rparr>)
   \<and> map rotation_pm (pagesOf (heap (run (exRotateUndo @ [Undo]))) (pageSequence (run (exRotateUndo @ [Undo]))))
       = [90, 0]"
proof -
  have r: "run (exRotateUndo @ [Undo]) = step (run exRotateUndo) Undo"
    by (simp add: run_def)
  show ?thesis
    unfolding r exRotateUndo_run
    by (simp add: exLoaded_eq initialState_def undo_def undoDisabled_def js_index_def
        pagesOf_def orElse_def)
qed

subsection \<open>Delete after undo\<close>

lemma exBlankUndo_run:
  "run exBlankUndo = initialState\<lparr>
      heap := [\<lparr> id_pm = ''pA'', originalIndex = 1, rotation_pm = 0 \<rparr>,
               \<lparr> id_pm = ''pA'', originalIndex = 1, rotation_pm = 0 \<rparr>,
               \<lparr> id_pm = ''b1'', originalIndex = - 1, rotation_pm = 0 \<rparr>,
               \<lparr> id_pm = ''pA'', originalIndex = 1, rotation_pm = 0 \<rparr>,
               \<lparr> id_pm = ''b1'', originalIndex = - 1, rotation_pm = 0 \<rparr>],
      pdfDoc := Some \<lparr> numPages = 1, source_bytes = exBytes \<rparr>,
      fileBytes := Some exBytes, pageSequence := [1], currentPageIndex := 1,
      docTitle := ''report'', fileName := Some ''report.pdf'',
      documentText := ''Hello world'' @ [CHR 0x0A],
      history := [\<lparr> elements_h = [], sequence_h = [1] \<rparr>,
                  \<lparr> elements_h = [], sequence_h = [3, 4] \<rparr>], historyIndex := 0 \<rparr>"
  by (simp add: exBlankUndo_def run_def handleFileUpload_def exJs1_def exJs_def exFile_def exIds_def
      initialState_def uploadDone_def extractText_def stripExtension_def saveToHistory_eq
      organizeAction_def undo_def js_index_def js_insert_def js_start_def commitOrganize_def
      pushed_def capped_def js_slice0_def pagesOf_def bindE_def orElse_def Let_def upt_rec)

text \<open>
  C9. Delete on a single page does not alert, in a state the editor reaches. After a file
  of one page is opened, a blank page is added and the addition is undone, the page
  sequence has one page and the current page index is 1, as undo leaves the index alone.
  Delete on the current page then throws at \<open>pageSequence[targetIdx].id\<close>, before the
  length of the sequence is tested: no alert is shown and the state stays as it was.
\<close>

theorem delete_after_undo_diverges:
  "length (pageSequence (run exBlankUndo)) = 1
   \<and> currentPageIndex (run exBlankUndo) = 1
   \<and> organizeAction Delete None None ''n'' (\<lambda>k. ''c'') (run exBlankUndo) = Inl TypeError
   \<and> alerts (run exBlankUndo) = []
   \<and> run (exBlankUndo @ [Organize Delete None None ''n'' (\<lambda>k. ''c'')]) = run exBlankUndo"
proof -
  have r: "run (exBlankUndo @ [Organize Delete None None ''n'' (\<lambda>k. ''c'')])
      = step (run exBlankUndo) (Organize Delete None None ''n'' (\<lambda>k. ''c''))"
    by (simp add: run_def)
  show ?thesis
    unfolding r exBlankUndo_run
    by (simp add: initialState_def organizeAction_def js_index_def orElse_def)
qed

end
